theory Spec2Isabelle
  imports Complex_Main "HOL-Library.Word"
begin

unbundle bit_operations_syntax


section \<open>Basic types of the renderer\<close>

type_synonym uint32_t = "32 word"
type_synonym VkDeviceSize = "64 word"
type_synonym VkFlags = "32 word"

text \<open>Vulkan handles are opaque; \<open>0\<close> is \<open>VK_NULL_HANDLE\<close>.\<close>

type_synonym handle = nat

definition VK_NULL_HANDLE :: handle where
  "VK_NULL_HANDLE = 0"

datatype VkResult =
    VK_SUCCESS
  | VK_SUBOPTIMAL_KHR
  | VK_ERROR_OUT_OF_DATE_KHR
  | VK_ERROR_OTHER

text \<open>
  The ways the process stops: a failed \<open>ASSERT\<close>, an exception of the standard library
  that nothing catches, and an access the language leaves undefined.
\<close>

datatype fatal =
    AssertionFailed string
  | SystemError string
  | UndefinedBehaviour string

section \<open>Swap extent\<close>

record VkExtent2D =
  width :: uint32_t
  height :: uint32_t

record VkSurfaceCapabilitiesKHR =
  currentExtent :: VkExtent2D
  minImageExtent :: VkExtent2D
  maxImageExtent :: VkExtent2D

text \<open>\<open>CORE->platform->getWindowInfo()\<close>: the drawable size, two C++ \<open>int\<close>s.\<close>

record WindowInfo =
  windowWidth :: int
  windowHeight :: int

text \<open>\<open>std::clamp(v, lo, hi)\<close>, as the standard library computes it.\<close>

definition std_clamp :: "uint32_t \<Rightarrow> uint32_t \<Rightarrow> uint32_t \<Rightarrow> uint32_t" where
  "std_clamp v lo hi = (if v < lo then lo else if hi < v then hi else v)"

definition UINT32_MAX :: uint32_t where
  "UINT32_MAX = 4294967295"

definition chooseSwapExtent :: "VkSurfaceCapabilitiesKHR \<Rightarrow> WindowInfo \<Rightarrow> VkExtent2D" where
  "chooseSwapExtent capabilities windowInfo =
     (if width (currentExtent capabilities) \<noteq> UINT32_MAX
      then currentExtent capabilities
      else
        let actualExtent = \<lparr> width = word_of_int (windowWidth windowInfo),
                               height = word_of_int (windowHeight windowInfo) \<rparr>;
            actualExtent = actualExtent \<lparr> width :=
              std_clamp (width actualExtent) (width (minImageExtent capabilities))
                        (width (maxImageExtent capabilities)) \<rparr>;
            actualExtent = actualExtent \<lparr> height :=
              std_clamp (height actualExtent) (height (minImageExtent capabilities))
                        (height (maxImageExtent capabilities)) \<rparr>
        in actualExtent)"

section \<open>The renderer's state\<close>

text \<open>
  \<open>math::Matrix4x4\<close> and \<open>math::Vertex\<close> are opaque to the renderer: it copies them
  around and never computes with them. Their entries are floats, kept here as reals.
\<close>

datatype Matrix4x4 = Matrix4x4 "real list"

definition identity :: Matrix4x4 where
  "identity = Matrix4x4 [1, 0, 0, 0,  0, 1, 0, 0,  0, 0, 1, 0,  0, 0, 0, 1]"

datatype Vertex = Vertex "real list"

record GlobalUbo =
  view :: Matrix4x4
  projection :: Matrix4x4

record InstanceUbo =
  model :: Matrix4x4

record Texture =
  textureImage :: handle
  textureImageView :: handle
  textureSampler :: handle
  maxMipLevels :: uint32_t

record MeshPart =
  vertices :: "Vertex list"
  indices :: "uint32_t list"
  vertexOffset :: nat
  indexOffset :: nat
  indexCount :: nat
  texture :: "Texture option"
  descriptorSets :: "handle list"

record Mesh =
  meshParts :: "MeshPart list"

text \<open>
  A render instance. \<open>mesh\<close> is a \<open>std::shared_ptr<Mesh>\<close>: an address into
  \<open>meshHeap\<close>, so that the storage, the import queue and the render instances share the
  object they point to.
\<close>

record Model =
  mesh :: nat
  transform :: Matrix4x4

record FrameData =
  buffersToDelete :: "(handle \<times> handle) list"

record GlobalBuffers =
  vertexBuffer :: handle
  vertexBufferMemory :: handle
  indexBuffer :: handle
  indexBufferMemory :: handle
  totalVertices :: nat
  totalIndices :: nat

datatype VkImageLayout =
    VK_IMAGE_LAYOUT_UNDEFINED
  | VK_IMAGE_LAYOUT_TRANSFER_DST_OPTIMAL
  | VK_IMAGE_LAYOUT_TRANSFER_SRC_OPTIMAL
  | VK_IMAGE_LAYOUT_SHADER_READ_ONLY_OPTIMAL

text \<open>What a host copy puts into device memory.\<close>

datatype payload =
    VertexData "Vertex list"
  | IndexData "uint32_t list"

text \<open>
  Every call into the graphics API, and every call to an external collaborator, is
  recorded in the order it is made. Fences, semaphores and command buffers are named by
  their handles. The calls the properties below speak about have a constructor each; any
  other call is \<open>vkCall\<close> with its name and its integer arguments.
\<close>

datatype vkcall =
    vkWaitForFences handle
  | vkResetFences handle
  | vkAcquireNextImageKHR handle
  | vkDestroyBuffer handle
  | vkFreeMemory handle
  | vkBeginCommandBuffer handle
  | vkQueueSubmit handle "handle option"
  | vkQueuePresentKHR uint32_t
  | vkCmdPipelineBarrier handle handle uint32_t VkImageLayout VkImageLayout
  | vkCmdBlitImage handle handle uint32_t int int uint32_t int int
  | vkCmdBindDescriptorSets handle handle
  | vkCmdDrawIndexed handle uint32_t uint32_t uint32_t uint32_t uint32_t
  | vkCall string "nat list"

record renderer =
  isRunning :: bool
  currentFrame :: nat
  framebufferResized :: bool
  frames :: "FrameData list"
  globalBuffers :: GlobalBuffers
  modelQueue :: "(string \<times> nat) list"
  models :: "Model list"
  meshHeap :: "Mesh list"
  storage :: "(string \<times> nat) list"
  imageAvailableSemaphores :: "handle list"
  renderFinishedSemaphores :: "handle list"
  inFlightFences :: "handle list"
  commandBuffers :: "handle list"
  globalUboBuffers :: "handle list"
  instanceUboBuffers :: "handle list"
  globalUboMapped :: "GlobalUbo list"
  instanceUboMapped :: "InstanceUbo list"
  threadCommandPools :: "(nat \<times> handle) list"
  swapChainExtent :: VkExtent2D
  memoryContents :: "(handle \<times> payload) list"
  bufferBinding :: "(handle \<times> handle) list"
  pendingCopies :: "(handle \<times> handle \<times> handle) list"
  calls :: "vkcall list"


section \<open>The environment: the graphics device and the collaborators\<close>

record VkMemoryType =
  propertyFlags :: VkFlags
  heapIndex :: uint32_t

record VkPhysicalDeviceMemoryProperties =
  memoryTypeCount :: uint32_t
  memoryTypes :: "VkMemoryType list"

record VkMemoryRequirements =
  allocationSize :: VkDeviceSize
  memoryTypeBits :: uint32_t

text \<open>
  What the program does not decide itself. The results of the graphics API are given per
  call, by the position of the call in the record of calls, so that every call of a run has
  a result of its own. \<open>MAX_FRAMES_IN_FLIGHT\<close>, the size of a vertex and the
  default-constructed \<open>Matrix4x4\<close> are declared in headers outside the renderer's source
  file and are parameters here, as are the camera and the asset storage's \<open>addNewMesh\<close>.
\<close>

record environment =
  MAX_FRAMES_IN_FLIGHT :: nat
  sizeof_Vertex :: nat
  Matrix4x4_default :: Matrix4x4
  vkResultAt :: "nat \<Rightarrow> VkResult"
  vkHandleAt :: "nat \<Rightarrow> handle"
  vkAcquireResultAt :: "nat \<Rightarrow> VkResult"
  vkImageIndexAt :: "nat \<Rightarrow> uint32_t"
  vkMemoryRequirementsAt :: "nat \<Rightarrow> VkMemoryRequirements"
  vkDescriptorSetAt :: "nat \<Rightarrow> nat \<Rightarrow> handle"
  surfaceCapabilitiesAt :: "nat \<Rightarrow> VkSurfaceCapabilitiesKHR"
  windowInfoAt :: "nat \<Rightarrow> WindowInfo"
  memProperties :: VkPhysicalDeviceMemoryProperties
  optimalTilingFeatures :: "nat \<Rightarrow> VkFlags"
  graphicsFamily :: "uint32_t option"
  presentFamily :: "uint32_t option"
  this_thread :: nat
  lookAt :: "nat \<Rightarrow> Matrix4x4"
  perspective :: "VkExtent2D \<Rightarrow> Matrix4x4"
  addNewMesh :: "string \<Rightarrow> nat \<Rightarrow> (string \<times> nat) list \<Rightarrow> (string \<times> nat) list"

section \<open>Actions: state passing with fatal stops\<close>

text \<open>
  A member function of the renderer takes the state and either returns a value with the
  new state or stops the process; the state at the stop holds the calls made until then.
\<close>

type_synonym 'a action = "renderer \<Rightarrow> (fatal \<times> renderer) + ('a \<times> renderer)"

definition ret :: "'a \<Rightarrow> 'a action" where
  "ret x s = Inr (x, s)"

definition andThen :: "'a action \<Rightarrow> ('a \<Rightarrow> 'b action) \<Rightarrow> 'b action" where
  "andThen m f s = (case m s of Inl e \<Rightarrow> Inl e | Inr (x, s') \<Rightarrow> f x s')"

definition stop :: "fatal \<Rightarrow> 'a action" where
  "stop e s = Inl (e, s)"

definition modify :: "(renderer \<Rightarrow> renderer) \<Rightarrow> unit action" where
  "modify f s = Inr ((), f s)"

definition at_index :: "'a list \<Rightarrow> nat \<Rightarrow> 'a action" where
  "at_index xs i = (if i < length xs then ret (xs ! i)
                    else stop (UndefinedBehaviour ''index out of range''))"

primrec forEach :: "'a list \<Rightarrow> ('a \<Rightarrow> unit action) \<Rightarrow> unit action" where
  "forEach [] f = ret ()"
| "forEach (x # xs) f = andThen (f x) (\<lambda>_. forEach xs f)"

text \<open>
  Modelled from the spec: the \<open>ASSERT\<close> macro (declared in a header that is not among
  the sources). The spec calls these checks fatal: a failed one stops the process with its
  message. The renderer wraps calls it needs in \<open>ASSERT\<close>, so the condition is always
  evaluated.
\<close>

definition ASSERT :: "bool \<Rightarrow> string \<Rightarrow> unit action" where
  "ASSERT c msg = (if c then ret () else stop (AssertionFailed msg))"

definition vkVoid :: "vkcall \<Rightarrow> unit action" where
  "vkVoid c s = Inr ((), s\<lparr>calls := calls s @ [c]\<rparr>)"

definition vkResult :: "environment \<Rightarrow> vkcall \<Rightarrow> VkResult action" where
  "vkResult env c s = Inr (vkResultAt env (length (calls s)), s\<lparr>calls := calls s @ [c]\<rparr>)"

definition vkCreate :: "environment \<Rightarrow> vkcall \<Rightarrow> (VkResult \<times> handle) action" where
  "vkCreate env c s =
     Inr ((vkResultAt env (length (calls s)), vkHandleAt env (length (calls s))),
          s\<lparr>calls := calls s @ [c]\<rparr>)"

definition vkGetMemoryRequirements :: "environment \<Rightarrow> vkcall \<Rightarrow> VkMemoryRequirements action" where
  "vkGetMemoryRequirements env c s =
     Inr (vkMemoryRequirementsAt env (length (calls s)), s\<lparr>calls := calls s @ [c]\<rparr>)"

section \<open>Memory types, buffers and images\<close>

function findMemoryType_loop ::
  "VkPhysicalDeviceMemoryProperties \<Rightarrow> uint32_t \<Rightarrow> VkFlags \<Rightarrow> nat \<Rightarrow> fatal + uint32_t option"
where
  "findMemoryType_loop memProps typeFilter properties i =
     (if i < unat (memoryTypeCount memProps) then
        if i < length (memoryTypes memProps) \<and> i < 32 then
          if typeFilter AND push_bit i 1 \<noteq> 0 \<and>
             propertyFlags (memoryTypes memProps ! i) AND properties = properties
          then Inr (Some (of_nat i))
          else findMemoryType_loop memProps typeFilter properties (Suc i)
        else Inl (UndefinedBehaviour ''memoryTypes index out of range'')
      else Inr None)"
  by pat_completeness auto
termination
  by (relation "measure (\<lambda>(memProps, typeFilter, properties, i). unat (memoryTypeCount memProps) - i)")
     auto

declare findMemoryType_loop.simps [simp del]

definition findMemoryType :: "environment \<Rightarrow> uint32_t \<Rightarrow> VkFlags \<Rightarrow> uint32_t action" where
  "findMemoryType env typeFilter properties =
     andThen (vkVoid (vkCall ''vkGetPhysicalDeviceMemoryProperties'' [])) (\<lambda>_.
     case findMemoryType_loop (memProperties env) typeFilter properties 0 of
       Inl e \<Rightarrow> stop e
     | Inr memoryIndex \<Rightarrow>
         andThen (ASSERT (memoryIndex \<noteq> None) ''failed to find suitable memory type.'') (\<lambda>_.
         ret (the memoryIndex)))"

definition vkBindBufferMemory :: "handle \<Rightarrow> handle \<Rightarrow> unit action" where
  "vkBindBufferMemory buffer memory =
     andThen (vkVoid (vkCall ''vkBindBufferMemory'' [buffer, memory])) (\<lambda>_.
     modify (\<lambda>s. s\<lparr>bufferBinding := (buffer, memory) # bufferBinding s\<rparr>))"

definition createBuffer ::
  "environment \<Rightarrow> VkDeviceSize \<Rightarrow> VkFlags \<Rightarrow> VkFlags \<Rightarrow> (handle \<times> handle) action"
where
  "createBuffer env bufferSize usage properties =
     andThen (ASSERT (bufferSize > 0) ''Attempt to create buffer with empty size.'') (\<lambda>_.
     andThen (vkCreate env (vkCall ''vkCreateBuffer'' [unat bufferSize, unat usage]))
       (\<lambda>(result, buffer).
     andThen (ASSERT (result = VK_SUCCESS) ''failed to create buffer.'') (\<lambda>_.
     andThen (ASSERT (buffer \<noteq> VK_NULL_HANDLE) ''Buffer must be valid.'') (\<lambda>_.
     andThen (vkGetMemoryRequirements env (vkCall ''vkGetBufferMemoryRequirements'' [buffer]))
       (\<lambda>memRequirements.
     andThen (findMemoryType env (memoryTypeBits memRequirements) properties)
       (\<lambda>memoryTypeIndex.
     andThen (vkCreate env (vkCall ''vkAllocateMemory''
                [unat (allocationSize memRequirements), unat memoryTypeIndex]))
       (\<lambda>(result, bufferMemory).
     andThen (ASSERT (result = VK_SUCCESS) ''failed to allocate buffer memory.'') (\<lambda>_.
     andThen (vkBindBufferMemory buffer bufferMemory) (\<lambda>_.
     ret (buffer, bufferMemory))))))))))"

definition createImage ::
  "environment \<Rightarrow> uint32_t \<Rightarrow> uint32_t \<Rightarrow> uint32_t \<Rightarrow> nat \<Rightarrow> nat \<Rightarrow> nat \<Rightarrow> VkFlags \<Rightarrow> VkFlags
     \<Rightarrow> (handle \<times> handle) action"
where
  "createImage env imageWidth imageHeight numberOfMipLevels numberOfSamples format tiling usage
       properties =
     andThen (ASSERT (imageWidth \<noteq> 0 \<and> imageHeight \<noteq> 0)
                ''Attempted to create image with invalid dimensions'') (\<lambda>_.
     andThen (vkCreate env (vkCall ''vkCreateImage''
                [unat imageWidth, unat imageHeight, 1, unat numberOfMipLevels, 1, format, tiling,
                 unat usage, numberOfSamples]))
       (\<lambda>(result, img).
     andThen (ASSERT (result = VK_SUCCESS) ''failed to create image.'') (\<lambda>_.
     andThen (vkGetMemoryRequirements env (vkCall ''vkGetImageMemoryRequirements'' [img]))
       (\<lambda>memRequirements.
     andThen (findMemoryType env (memoryTypeBits memRequirements) properties)
       (\<lambda>memoryTypeIndex.
     andThen (vkCreate env (vkCall ''vkAllocateMemory''
                [unat (allocationSize memRequirements), unat memoryTypeIndex]))
       (\<lambda>(result, imageMemory).
     andThen (ASSERT (result = VK_SUCCESS) ''failed to allocate image memory.'') (\<lambda>_.
     andThen (vkVoid (vkCall ''vkBindImageMemory'' [img, imageMemory])) (\<lambda>_.
     ret (img, imageMemory)))))))))"

section \<open>One-time command buffers and buffer copies\<close>

definition VK_BUFFER_USAGE_TRANSFER_SRC_BIT :: VkFlags where
  "VK_BUFFER_USAGE_TRANSFER_SRC_BIT = 1"

definition VK_BUFFER_USAGE_TRANSFER_DST_BIT :: VkFlags where
  "VK_BUFFER_USAGE_TRANSFER_DST_BIT = 2"

definition VK_BUFFER_USAGE_INDEX_BUFFER_BIT :: VkFlags where
  "VK_BUFFER_USAGE_INDEX_BUFFER_BIT = 64"

definition VK_BUFFER_USAGE_VERTEX_BUFFER_BIT :: VkFlags where
  "VK_BUFFER_USAGE_VERTEX_BUFFER_BIT = 128"

definition VK_MEMORY_PROPERTY_DEVICE_LOCAL_BIT :: VkFlags where
  "VK_MEMORY_PROPERTY_DEVICE_LOCAL_BIT = 1"

definition VK_MEMORY_PROPERTY_HOST_VISIBLE_BIT :: VkFlags where
  "VK_MEMORY_PROPERTY_HOST_VISIBLE_BIT = 2"

definition VK_MEMORY_PROPERTY_HOST_COHERENT_BIT :: VkFlags where
  "VK_MEMORY_PROPERTY_HOST_COHERENT_BIT = 4"

definition VK_FORMAT_FEATURE_SAMPLED_IMAGE_FILTER_LINEAR_BIT :: VkFlags where
  "VK_FORMAT_FEATURE_SAMPLED_IMAGE_FILTER_LINEAR_BIT = 4096"

definition createCommandPool :: "environment \<Rightarrow> handle action" where
  "createCommandPool env =
     andThen (vkVoid (vkCall ''findQueueFamilies'' [])) (\<lambda>_.
     andThen (ASSERT (graphicsFamily env \<noteq> None) ''Graphics family is incomplete.'') (\<lambda>_.
     andThen (vkCreate env (vkCall ''vkCreateCommandPool'' [unat (the (graphicsFamily env))]))
       (\<lambda>(result, newCommandPool).
     andThen (ASSERT (result = VK_SUCCESS) ''failed to create command pool.'') (\<lambda>_.
     ret newCommandPool))))"

text \<open>\<open>threadCommandPools\<close> is keyed by the calling thread.\<close>

definition getCommandPool :: "environment \<Rightarrow> handle action" where
  "getCommandPool env s =
     (case map_of (threadCommandPools s) (this_thread env) of
        Some pool \<Rightarrow> Inr (pool, s)
      | None \<Rightarrow>
          andThen (createCommandPool env) (\<lambda>pool.
          andThen (modify (\<lambda>s. s\<lparr>threadCommandPools :=
                     (this_thread env, pool) # threadCommandPools s\<rparr>)) (\<lambda>_.
          ret pool)) s)"

text \<open>
  The device runs the copies recorded in a command buffer when the buffer is submitted
  successfully: the memory bound to the destination then holds what the memory bound to the
  source holds.
\<close>

definition deviceCopy :: "handle \<Rightarrow> handle \<Rightarrow> renderer \<Rightarrow> renderer" where
  "deviceCopy src dst s =
     (case (map_of (bufferBinding s) src, map_of (bufferBinding s) dst) of
        (Some srcMemory, Some dstMemory) \<Rightarrow>
          (case map_of (memoryContents s) srcMemory of
             Some p \<Rightarrow> s\<lparr>memoryContents := (dstMemory, p) # memoryContents s\<rparr>
           | None \<Rightarrow> s)
      | _ \<Rightarrow> s)"

primrec runCopies :: "handle \<Rightarrow> (handle \<times> handle \<times> handle) list \<Rightarrow> renderer \<Rightarrow> renderer" where
  "runCopies commandBuffer [] s = s"
| "runCopies commandBuffer (c # cs) s =
     runCopies commandBuffer cs
       (if fst c = commandBuffer then deviceCopy (fst (snd c)) (snd (snd c)) s else s)"

text \<open>
  Modelled from the spec: \<open>threadSafeQueueSubmit\<close> and \<open>threadSafePresent\<close> (defined
  in the renderer's header, which is not among the sources). The spec has every submission
  and presentation go through one mutex-guarded path to the queue; they return the result
  of \<open>vkQueueSubmit\<close> and \<open>vkQueuePresentKHR\<close>.
\<close>

definition threadSafeQueueSubmit :: "environment \<Rightarrow> handle \<Rightarrow> handle option \<Rightarrow> VkResult action" where
  "threadSafeQueueSubmit env commandBuffer fence =
     andThen (vkResult env (vkQueueSubmit commandBuffer fence)) (\<lambda>result.
     andThen (modify (\<lambda>s. if result = VK_SUCCESS
                            then (runCopies commandBuffer (pendingCopies s) s)
                                   \<lparr>pendingCopies := filter (\<lambda>c. fst c \<noteq> commandBuffer) (pendingCopies s)\<rparr>
                            else s)) (\<lambda>_.
     ret result))"

definition threadSafePresent :: "environment \<Rightarrow> uint32_t \<Rightarrow> VkResult action" where
  "threadSafePresent env imageIndex = vkResult env (vkQueuePresentKHR imageIndex)"

definition beginSingleTimeCommands :: "environment \<Rightarrow> handle action" where
  "beginSingleTimeCommands env =
     andThen (getCommandPool env) (\<lambda>pool.
     andThen (vkCreate env (vkCall ''vkAllocateCommandBuffers'' [pool, 1]))
       (\<lambda>(result, commandBuffer).
     andThen (vkVoid (vkBeginCommandBuffer commandBuffer)) (\<lambda>_.
     ret commandBuffer)))"

definition endSingleTimeCommands :: "environment \<Rightarrow> handle \<Rightarrow> unit action" where
  "endSingleTimeCommands env commandBuffer =
     andThen (vkVoid (vkCall ''vkEndCommandBuffer'' [commandBuffer])) (\<lambda>_.
     andThen (threadSafeQueueSubmit env commandBuffer None) (\<lambda>result.
     andThen (vkVoid (vkCall ''vkQueueWaitIdle'' [])) (\<lambda>_.
     andThen (getCommandPool env) (\<lambda>pool.
     vkVoid (vkCall ''vkFreeCommandBuffers'' [pool, commandBuffer])))))"

definition copyBuffer :: "environment \<Rightarrow> handle \<Rightarrow> handle \<Rightarrow> VkDeviceSize \<Rightarrow> unit action" where
  "copyBuffer env srcBuffer dstBuffer copySize =
     andThen (beginSingleTimeCommands env) (\<lambda>commandBuffer.
     andThen (vkVoid (vkCall ''vkCmdCopyBuffer'' [commandBuffer, srcBuffer, dstBuffer, unat copySize]))
       (\<lambda>_.
     andThen (modify (\<lambda>s. s\<lparr>pendingCopies :=
                pendingCopies s @ [(commandBuffer, srcBuffer, dstBuffer)]\<rparr>)) (\<lambda>_.
     endSingleTimeCommands env commandBuffer)))"

section \<open>Mipmap generation\<close>

text \<open>
  The loop of \<open>generateMipmaps\<close>: the commands it records for levels \<open>i\<close>,
  \<open>i + 1\<close>, ... below \<open>maxMipLevels\<close>. None of them returns a result.
\<close>

function generateMipmaps_loop ::
  "handle \<Rightarrow> handle \<Rightarrow> uint32_t \<Rightarrow> uint32_t \<Rightarrow> int \<Rightarrow> int \<Rightarrow> vkcall list"
where
  "generateMipmaps_loop commandBuffer img maxMip i mipWidth mipHeight =
     (if i < maxMip then
        [vkCmdPipelineBarrier commandBuffer img (i - 1)
           VK_IMAGE_LAYOUT_TRANSFER_DST_OPTIMAL VK_IMAGE_LAYOUT_TRANSFER_SRC_OPTIMAL,
         vkCmdBlitImage commandBuffer img (i - 1) mipWidth mipHeight
           i (if mipWidth > 1 then mipWidth div 2 else 1) (if mipHeight > 1 then mipHeight div 2 else 1),
         vkCmdPipelineBarrier commandBuffer img (i - 1)
           VK_IMAGE_LAYOUT_TRANSFER_SRC_OPTIMAL VK_IMAGE_LAYOUT_SHADER_READ_ONLY_OPTIMAL]
        @ generateMipmaps_loop commandBuffer img maxMip (i + 1)
            (if mipWidth > 1 then mipWidth div 2 else mipWidth)
            (if mipHeight > 1 then mipHeight div 2 else mipHeight)
      else [])"
  by pat_completeness auto
termination
proof (relation "measure (\<lambda>(commandBuffer, img, maxMip, i, mipWidth, mipHeight). unat maxMip - unat i)")
  show "wf (measure (\<lambda>(commandBuffer, img, maxMip, i, mipWidth, mipHeight). unat maxMip - unat i))"
    by simp
next
  fix commandBuffer img :: handle and maxMip i :: uint32_t and mipWidth mipHeight :: int
  assume less: "i < maxMip"
  then have "i \<noteq> - 1"
    by (metis word_order.extremum_strict)
  then have "1 + i \<noteq> 0"
    by (metis add.commute max_word_wrap)
  then have "unat (i + 1) = Suc (unat i)"
    by (simp add: unatSuc add.commute)
  moreover from less have "unat i < unat maxMip"
    by (simp add: word_less_nat_alt)
  ultimately show
    "((commandBuffer, img, maxMip, i + 1,
       if 1 < mipWidth then mipWidth div 2 else mipWidth,
       if 1 < mipHeight then mipHeight div 2 else mipHeight),
      (commandBuffer, img, maxMip, i, mipWidth, mipHeight))
     \<in> measure (\<lambda>(commandBuffer, img, maxMip, i, mipWidth, mipHeight). unat maxMip - unat i)"
    by simp
qed

declare generateMipmaps_loop.simps [simp del]

definition generateMipmaps :: "environment \<Rightarrow> Texture \<Rightarrow> nat \<Rightarrow> int \<Rightarrow> int \<Rightarrow> unit action" where
  "generateMipmaps env tex imageFormat texWidth texHeight =
     andThen (vkVoid (vkCall ''vkGetPhysicalDeviceFormatProperties'' [imageFormat])) (\<lambda>_.
     andThen (ASSERT (optimalTilingFeatures env imageFormat
                        AND VK_FORMAT_FEATURE_SAMPLED_IMAGE_FILTER_LINEAR_BIT \<noteq> 0)
                ''texture image format does not support linear blitting.'') (\<lambda>_.
     andThen (beginSingleTimeCommands env) (\<lambda>commandBuffer.
     andThen (modify (\<lambda>s. s\<lparr>calls := calls s @
                generateMipmaps_loop commandBuffer (textureImage tex) (maxMipLevels tex) 1
                  texWidth texHeight\<rparr>)) (\<lambda>_.
     andThen (vkVoid (vkCmdPipelineBarrier commandBuffer (textureImage tex) (maxMipLevels tex - 1)
                VK_IMAGE_LAYOUT_TRANSFER_DST_OPTIMAL VK_IMAGE_LAYOUT_SHADER_READ_ONLY_OPTIMAL)) (\<lambda>_.
     endSingleTimeCommands env commandBuffer)))))"

section \<open>The combined vertex and index buffers\<close>

text \<open>\<open>frames[i].buffersToDelete.emplace_back(buffer, memory)\<close>\<close>

definition deferDestroy :: "nat \<Rightarrow> handle \<times> handle \<Rightarrow> unit action" where
  "deferDestroy i entry s =
     (if i < length (frames s)
      then Inr ((), s\<lparr>frames := (frames s)
             [i := (frames s ! i)\<lparr>buffersToDelete := buffersToDelete (frames s ! i) @ [entry]\<rparr>]\<rparr>)
      else Inl (UndefinedBehaviour ''frames index out of range'', s))"

definition createVertexBuffer :: "environment \<Rightarrow> Vertex list \<Rightarrow> unit action" where
  "createVertexBuffer env vertexList =
     andThen (\<lambda>s. (if vertexBuffer (globalBuffers s) \<noteq> VK_NULL_HANDLE
                    then deferDestroy (currentFrame s)
                           (vertexBuffer (globalBuffers s), vertexBufferMemory (globalBuffers s))
                    else ret ()) s) (\<lambda>_.
     andThen (createBuffer env (of_nat (sizeof_Vertex env * length vertexList))
                VK_BUFFER_USAGE_TRANSFER_SRC_BIT
                (VK_MEMORY_PROPERTY_HOST_VISIBLE_BIT OR VK_MEMORY_PROPERTY_HOST_COHERENT_BIT))
       (\<lambda>(stagingBuffer, stagingBufferMemory).
     andThen (vkVoid (vkCall ''vkMapMemory'' [stagingBufferMemory])) (\<lambda>_.
     andThen (modify (\<lambda>s. s\<lparr>memoryContents :=
                (stagingBufferMemory, VertexData vertexList) # memoryContents s\<rparr>)) (\<lambda>_.
     andThen (vkVoid (vkCall ''vkUnmapMemory'' [stagingBufferMemory])) (\<lambda>_.
     andThen (createBuffer env (of_nat (sizeof_Vertex env * length vertexList))
                (VK_BUFFER_USAGE_TRANSFER_DST_BIT OR VK_BUFFER_USAGE_VERTEX_BUFFER_BIT)
                VK_MEMORY_PROPERTY_DEVICE_LOCAL_BIT)
       (\<lambda>(buffer, memory).
     andThen (modify (\<lambda>s. s\<lparr>globalBuffers := (globalBuffers s)
                \<lparr>vertexBuffer := buffer, vertexBufferMemory := memory\<rparr>\<rparr>)) (\<lambda>_.
     andThen (copyBuffer env stagingBuffer buffer (of_nat (sizeof_Vertex env * length vertexList)))
       (\<lambda>_.
     andThen (vkVoid (vkDestroyBuffer stagingBuffer)) (\<lambda>_.
     vkVoid (vkFreeMemory stagingBufferMemory))))))))))"

definition createIndexBuffer :: "environment \<Rightarrow> uint32_t list \<Rightarrow> unit action" where
  "createIndexBuffer env indexList =
     andThen (\<lambda>s. (if indexBuffer (globalBuffers s) \<noteq> VK_NULL_HANDLE
                    then deferDestroy (currentFrame s)
                           (indexBuffer (globalBuffers s), indexBufferMemory (globalBuffers s))
                    else ret ()) s) (\<lambda>_.
     andThen (createBuffer env (of_nat (4 * length indexList))
                VK_BUFFER_USAGE_TRANSFER_SRC_BIT
                (VK_MEMORY_PROPERTY_HOST_VISIBLE_BIT OR VK_MEMORY_PROPERTY_HOST_COHERENT_BIT))
       (\<lambda>(stagingBuffer, stagingBufferMemory).
     andThen (vkVoid (vkCall ''vkMapMemory'' [stagingBufferMemory])) (\<lambda>_.
     andThen (modify (\<lambda>s. s\<lparr>memoryContents :=
                (stagingBufferMemory, IndexData indexList) # memoryContents s\<rparr>)) (\<lambda>_.
     andThen (vkVoid (vkCall ''vkUnmapMemory'' [stagingBufferMemory])) (\<lambda>_.
     andThen (createBuffer env (of_nat (4 * length indexList))
                (VK_BUFFER_USAGE_TRANSFER_DST_BIT OR VK_BUFFER_USAGE_INDEX_BUFFER_BIT)
                VK_MEMORY_PROPERTY_DEVICE_LOCAL_BIT)
       (\<lambda>(buffer, memory).
     andThen (modify (\<lambda>s. s\<lparr>globalBuffers := (globalBuffers s)
                \<lparr>indexBuffer := buffer, indexBufferMemory := memory\<rparr>\<rparr>)) (\<lambda>_.
     andThen (copyBuffer env stagingBuffer buffer (of_nat (4 * length indexList))) (\<lambda>_.
     andThen (vkVoid (vkDestroyBuffer stagingBuffer)) (\<lambda>_.
     vkVoid (vkFreeMemory stagingBufferMemory))))))))))"

section \<open>Descriptor sets\<close>

definition setMeshPart :: "nat \<Rightarrow> nat \<Rightarrow> MeshPart \<Rightarrow> renderer \<Rightarrow> renderer" where
  "setMeshPart m j part s =
     s\<lparr>meshHeap := (meshHeap s)
          [m := (meshHeap s ! m)\<lparr>meshParts := (meshParts (meshHeap s ! m))[j := part]\<rparr>]\<rparr>"

text \<open>
  The body of the loop of \<open>createDescriptorSets\<close> for part \<open>j\<close> of the mesh at
  address \<open>m\<close>. \<open>DEBUG_ASSERT\<close> guards the dereference of the part's texture that
  follows it; without a texture the process stops either way.
\<close>

definition createDescriptorSets_part :: "environment \<Rightarrow> nat \<Rightarrow> nat \<Rightarrow> unit action" where
  "createDescriptorSets_part env m j =
     andThen (\<lambda>s. vkCreate env (vkCall ''vkAllocateDescriptorSets'' [MAX_FRAMES_IN_FLIGHT env]) s)
       (\<lambda>(result, firstSet).
     andThen (\<lambda>s. modify (setMeshPart m j ((meshParts (meshHeap s ! m) ! j)
                \<lparr>descriptorSets := map (vkDescriptorSetAt env (length (calls s) - 1))
                                        [0..<MAX_FRAMES_IN_FLIGHT env]\<rparr>)) s) (\<lambda>_.
     andThen (ASSERT (result = VK_SUCCESS) ''failed to allocate descriptor sets.'') (\<lambda>_.
     forEach [0..<MAX_FRAMES_IN_FLIGHT env] (\<lambda>i.
       andThen (\<lambda>s. at_index (globalUboBuffers s) i s) (\<lambda>globalUboBuffer.
       andThen (\<lambda>s. at_index (instanceUboBuffers s) i s) (\<lambda>instanceUboBuffer.
       andThen (\<lambda>s. (case texture (meshParts (meshHeap s ! m) ! j) of
                        None \<Rightarrow> stop (AssertionFailed ''Texture must exist for any mesh part.'')
                      | Some tex \<Rightarrow> ret tex) s) (\<lambda>tex.
       andThen (\<lambda>s. at_index (descriptorSets (meshParts (meshHeap s ! m) ! j)) i s) (\<lambda>dstSet.
       vkVoid (vkCall ''vkUpdateDescriptorSets''
                 [dstSet, globalUboBuffer, instanceUboBuffer,
                  textureImageView tex, textureSampler tex])))))))))"

definition createDescriptorSets :: "environment \<Rightarrow> nat \<Rightarrow> unit action" where
  "createDescriptorSets env m s =
     (if m < length (meshHeap s)
      then forEach [0..<length (meshParts (meshHeap s ! m))] (createDescriptorSets_part env m) s
      else Inl (UndefinedBehaviour ''dangling mesh pointer'', s))"

section \<open>Mesh import and the drain of the import queue\<close>

text \<open>
  \<open>importMesh\<close>, with the mesh the importer returns for the path: the mesh is copied
  into a new shared object and the pair is put at the back of the queue.
\<close>

definition importMesh :: "string \<Rightarrow> Mesh \<Rightarrow> unit action" where
  "importMesh meshPath newMesh =
     modify (\<lambda>s. s\<lparr>meshHeap := meshHeap s @ [newMesh],
                     modelQueue := modelQueue s @ [(meshPath, length (meshHeap s))]\<rparr>)"

text \<open>
  \<open>std::unique_lock::unlock\<close> throws \<open>std::system_error\<close> when the lock does not
  own the mutex.
\<close>

definition unique_lock_unlock :: "bool \<Rightarrow> unit action" where
  "unique_lock_unlock owns =
     (if owns then ret () else stop (SystemError ''operation not permitted''))"

text \<open>
  The \<open>while\<close> loop of \<open>processLoadedMeshes\<close> over the queue as it stands, with
  \<open>owns\<close> telling whether \<open>lock\<close> still owns the mutex. Nothing locks it again after
  the first \<open>lock.unlock()\<close>.
\<close>

primrec drainQueue :: "environment \<Rightarrow> (string \<times> nat) list \<Rightarrow> bool \<Rightarrow> unit action" where
  "drainQueue env [] owns = ret ()"
| "drainQueue env (entry # rest) owns =
     andThen (modify (\<lambda>s. s\<lparr>modelQueue := rest\<rparr>)) (\<lambda>_.
     andThen (unique_lock_unlock owns) (\<lambda>_.
     andThen (vkVoid (vkCall ''addNewMesh'' [snd entry])) (\<lambda>_.
     andThen (modify (\<lambda>s. s\<lparr>storage := addNewMesh env (fst entry) (snd entry) (storage s)\<rparr>)) (\<lambda>_.
     andThen (modify (\<lambda>s. s\<lparr>models := models s @
                [\<lparr>mesh = snd entry, transform = identity\<rparr>]\<rparr>)) (\<lambda>_.
     drainQueue env rest False)))))"

text \<open>
  The offsets: the inner loop over the parts of one mesh and the outer loop over the meshes
  the storage enumerates, with \<open>allVertices\<close> and \<open>allIndices\<close> as they grow.
\<close>

primrec assignOffsets_parts ::
  "MeshPart list \<Rightarrow> Vertex list \<Rightarrow> uint32_t list \<Rightarrow> MeshPart list \<times> Vertex list \<times> uint32_t list"
where
  "assignOffsets_parts [] allVertices allIndices = ([], allVertices, allIndices)"
| "assignOffsets_parts (meshPart # rest) allVertices allIndices =
     (case assignOffsets_parts rest (allVertices @ vertices meshPart) (allIndices @ indices meshPart) of
        (rest', allVertices', allIndices') \<Rightarrow>
          (meshPart\<lparr>vertexOffset := length allVertices, indexOffset := length allIndices\<rparr> # rest',
           allVertices', allIndices'))"

primrec assignOffsets ::
  "nat list \<Rightarrow> Mesh list \<Rightarrow> Vertex list \<Rightarrow> uint32_t list
     \<Rightarrow> fatal + (Mesh list \<times> Vertex list \<times> uint32_t list)"
where
  "assignOffsets [] heap allVertices allIndices = Inr (heap, allVertices, allIndices)"
| "assignOffsets (m # ms) heap allVertices allIndices =
     (if m < length heap then
        case assignOffsets_parts (meshParts (heap ! m)) allVertices allIndices of
          (parts', allVertices', allIndices') \<Rightarrow>
            assignOffsets ms (heap[m := (heap ! m)\<lparr>meshParts := parts'\<rparr>]) allVertices' allIndices'
      else Inl (UndefinedBehaviour ''dangling mesh pointer''))"

definition getMeshes :: "renderer \<Rightarrow> nat list" where
  "getMeshes s = map snd (storage s)"

definition processLoadedMeshes :: "environment \<Rightarrow> unit action" where
  "processLoadedMeshes env s =
     (if modelQueue s = [] then Inr ((), s)
      else
        andThen (drainQueue env (modelQueue s) True) (\<lambda>_.
        andThen (\<lambda>s. case assignOffsets (getMeshes s) (meshHeap s) [] [] of
                       Inl e \<Rightarrow> Inl (e, s)
                     | Inr (heap', allVertices, allIndices) \<Rightarrow>
                         Inr ((allVertices, allIndices), s\<lparr>meshHeap := heap'\<rparr>))
          (\<lambda>(allVertices, allIndices).
        andThen (createVertexBuffer env allVertices) (\<lambda>_.
        andThen (createIndexBuffer env allIndices) (\<lambda>_.
        andThen (modify (\<lambda>s. s\<lparr>globalBuffers := (globalBuffers s)
                   \<lparr>totalVertices := length allVertices, totalIndices := length allIndices\<rparr>\<rparr>)) (\<lambda>_.
        (\<lambda>s. forEach (getMeshes s) (createDescriptorSets env) s)))))) s)"

section \<open>Uniform buffers\<close>

text \<open>
  \<open>updateUniformBuffer\<close> copies a \<open>GlobalUbo\<close> and an \<open>InstanceUbo\<close> into the
  mapped memory of slot \<open>currentImage\<close>. The instance's model matrix is the
  default-constructed \<open>math::Matrix4x4()\<close>.
\<close>

definition updateUniformBuffer :: "environment \<Rightarrow> nat \<Rightarrow> unit action" where
  "updateUniformBuffer env currentImage =
     andThen (vkVoid (vkCall ''getMainCamera'' [])) (\<lambda>_.
     andThen (\<lambda>s. (if currentImage < length (globalUboMapped s)
                    then modify (\<lambda>s. s\<lparr>globalUboMapped := (globalUboMapped s)
                           [currentImage := \<lparr>view = lookAt env (length (calls s)),
                                             projection = perspective env (swapChainExtent s)\<rparr>]\<rparr>)
                    else stop (UndefinedBehaviour ''globalUboMapped index out of range'')) s) (\<lambda>_.
     (\<lambda>s. (if currentImage < length (instanceUboMapped s)
            then modify (\<lambda>s. s\<lparr>instanceUboMapped := (instanceUboMapped s)
                   [currentImage := \<lparr>model = Matrix4x4_default env\<rparr>]\<rparr>)
            else stop (UndefinedBehaviour ''instanceUboMapped index out of range'')) s)))"

section \<open>Command recording\<close>

definition getCommandBuffer :: "nat \<Rightarrow> handle action" where
  "getCommandBuffer bufferId =
     andThen (\<lambda>s. ASSERT (bufferId < length (commandBuffers s))
                ''current frame number is larger than number of fences.'' s) (\<lambda>_.
     (\<lambda>s. ret (commandBuffers s ! bufferId) s))"

definition resetCommandBuffer :: "environment \<Rightarrow> nat \<Rightarrow> unit action" where
  "resetCommandBuffer env bufferId =
     andThen (\<lambda>s. ASSERT (bufferId < length (commandBuffers s))
                ''current frame number is larger than number of fences.'' s) (\<lambda>_.
     andThen (\<lambda>s. vkResult env (vkCall ''vkResetCommandBuffer'' [commandBuffers s ! bufferId]) s)
       (\<lambda>result.
     ASSERT (result = VK_SUCCESS) ''Failed to reset command buffer.''))"

text \<open>
  The draw of one mesh part: its descriptor set of the current slot is bound and an indexed
  draw is issued from the part's count and offsets.
\<close>

definition drawMeshPart :: "handle \<Rightarrow> MeshPart \<Rightarrow> unit action" where
  "drawMeshPart commandBufferToRecord meshPart =
     andThen (\<lambda>s. at_index (descriptorSets meshPart) (currentFrame s) s) (\<lambda>descriptorSet.
     andThen (vkVoid (vkCmdBindDescriptorSets commandBufferToRecord descriptorSet)) (\<lambda>_.
     vkVoid (vkCmdDrawIndexed commandBufferToRecord
               (of_nat (indexCount meshPart)) 1 (of_nat (indexOffset meshPart))
               (of_nat (vertexOffset meshPart)) 0)))"

text \<open>The body of the loop over \<open>models\<close>: the structured binding names the transform and
  the body never uses it.\<close>

definition drawModel :: "handle \<Rightarrow> Model \<Rightarrow> unit action" where
  "drawModel commandBufferToRecord m s =
     (if mesh m < length (meshHeap s)
      then forEach (meshParts (meshHeap s ! mesh m)) (drawMeshPart commandBufferToRecord) s
      else Inl (UndefinedBehaviour ''dangling mesh pointer'', s))"

definition recordCommandBuffer :: "environment \<Rightarrow> handle \<Rightarrow> uint32_t \<Rightarrow> unit action" where
  "recordCommandBuffer env commandBufferToRecord imageIndex =
     andThen (vkResult env (vkBeginCommandBuffer commandBufferToRecord)) (\<lambda>result.
     andThen (ASSERT (result = VK_SUCCESS) ''failed to begin recording command buffer.'') (\<lambda>_.
     andThen (\<lambda>s. vkVoid (vkCall ''vkCmdBeginRenderPass''
                [commandBufferToRecord, unat imageIndex,
                 unat (width (swapChainExtent s)), unat (height (swapChainExtent s))]) s) (\<lambda>_.
     andThen (vkVoid (vkCall ''vkCmdBindPipeline'' [commandBufferToRecord])) (\<lambda>_.
     andThen (\<lambda>s. vkVoid (vkCall ''vkCmdSetViewport''
                [commandBufferToRecord,
                 unat (width (swapChainExtent s)), unat (height (swapChainExtent s))]) s) (\<lambda>_.
     andThen (\<lambda>s. vkVoid (vkCall ''vkCmdSetScissor''
                [commandBufferToRecord,
                 unat (width (swapChainExtent s)), unat (height (swapChainExtent s))]) s) (\<lambda>_.
     andThen (\<lambda>s. vkVoid (vkCall ''vkCmdBindVertexBuffers''
                [commandBufferToRecord, vertexBuffer (globalBuffers s)]) s) (\<lambda>_.
     andThen (\<lambda>s. vkVoid (vkCall ''vkCmdBindIndexBuffer''
                [commandBufferToRecord, indexBuffer (globalBuffers s)]) s) (\<lambda>_.
     andThen (\<lambda>s. forEach (models s) (drawModel commandBufferToRecord) s) (\<lambda>_.
     andThen (vkVoid (vkCall ''renderDrawData'' [commandBufferToRecord])) (\<lambda>_.
     andThen (vkVoid (vkCall ''vkCmdEndRenderPass'' [commandBufferToRecord])) (\<lambda>_.
     andThen (vkResult env (vkCall ''vkEndCommandBuffer'' [commandBufferToRecord])) (\<lambda>result.
     ASSERT (result = VK_SUCCESS) '' failed to record command buffer.''))))))))))))"

section \<open>Swapchain recreation and image acquisition\<close>

text \<open>
  \<open>createSwapChain\<close>: the extent is chosen from the surface's capabilities and the window,
  it must not be empty, both queue families must have been found, and the swapchain must be
  created. The choice of format, present mode and image count does not reach the state kept
  here.
\<close>

definition createSwapChain :: "environment \<Rightarrow> unit action" where
  "createSwapChain env =
     andThen (vkVoid (vkCall ''querySwapChainSupport'' [])) (\<lambda>_.
     andThen (\<lambda>s. ret (chooseSwapExtent (surfaceCapabilitiesAt env (length (calls s)))
                          (windowInfoAt env (length (calls s)))) s) (\<lambda>extent.
     andThen (ASSERT (width extent \<noteq> 0 \<and> height extent \<noteq> 0)
                ''Swap chain extent is invalid (window may be minimized)'') (\<lambda>_.
     andThen (vkVoid (vkCall ''findQueueFamilies'' [])) (\<lambda>_.
     andThen (ASSERT (graphicsFamily env \<noteq> None \<and> presentFamily env \<noteq> None)
                ''Queue families are not complete.'') (\<lambda>_.
     andThen (vkResult env (vkCall ''vkCreateSwapchainKHR'' [unat (width extent), unat (height extent)]))
       (\<lambda>result.
     andThen (ASSERT (result = VK_SUCCESS) ''failed to create swap chain.'') (\<lambda>_.
     andThen (vkVoid (vkCall ''vkGetSwapchainImagesKHR'' [])) (\<lambda>_.
     modify (\<lambda>s. s\<lparr>swapChainExtent := extent\<rparr>)))))))))"

text \<open>
  The image views, the depth format and the framebuffers are built from objects the state
  here does not hold: each is one step that the device lets succeed or fail, and a failure
  stops the process with the message of the step's assertion.
\<close>

definition rebuildStep :: "environment \<Rightarrow> string \<Rightarrow> string \<Rightarrow> unit action" where
  "rebuildStep env name message =
     andThen (vkResult env (vkCall name [])) (\<lambda>result.
     ASSERT (result = VK_SUCCESS) message)"

definition createColorResources :: "environment \<Rightarrow> unit action" where
  "createColorResources env =
     andThen (\<lambda>s. createImage env (width (swapChainExtent s)) (height (swapChainExtent s)) 1
                0 0 0 (16 OR 64) VK_MEMORY_PROPERTY_DEVICE_LOCAL_BIT s) (\<lambda>_.
     rebuildStep env ''createImageView'' ''failed to create texture image view.'')"

definition createDepthResources :: "environment \<Rightarrow> unit action" where
  "createDepthResources env =
     andThen (rebuildStep env ''findDepthFormat'' ''failed to find supported format.'') (\<lambda>_.
     andThen (\<lambda>s. createImage env (width (swapChainExtent s)) (height (swapChainExtent s)) 1
                0 0 0 32 VK_MEMORY_PROPERTY_DEVICE_LOCAL_BIT s) (\<lambda>_.
     rebuildStep env ''createImageView'' ''failed to create texture image view.''))"

definition recreateSwapChain :: "environment \<Rightarrow> unit action" where
  "recreateSwapChain env =
     andThen (vkVoid (vkCall ''handleMinimization'' [])) (\<lambda>_.
     andThen (vkVoid (vkCall ''vkDeviceWaitIdle'' [])) (\<lambda>_.
     andThen (vkVoid (vkCall ''cleanupSwapChain'' [])) (\<lambda>_.
     andThen (createSwapChain env) (\<lambda>_.
     andThen (rebuildStep env ''createImageViews'' ''failed to create texture image view.'') (\<lambda>_.
     andThen (createColorResources env) (\<lambda>_.
     andThen (createDepthResources env) (\<lambda>_.
     rebuildStep env ''createFramebuffers'' ''failed to create framebuffer.'')))))))"

definition acquireNextImage :: "environment \<Rightarrow> uint32_t option action" where
  "acquireNextImage env =
     andThen (\<lambda>s. ASSERT (currentFrame s < length (imageAvailableSemaphores s))
                ''current frame number is larger than number of fences.'' s) (\<lambda>_.
     andThen (\<lambda>s. Inr ((vkAcquireResultAt env (length (calls s)), vkImageIndexAt env (length (calls s))),
                       s\<lparr>calls := calls s @
                         [vkAcquireNextImageKHR (imageAvailableSemaphores s ! currentFrame s)]\<rparr>))
       (\<lambda>(result, imageIndex).
     if result = VK_ERROR_OUT_OF_DATE_KHR
     then andThen (recreateSwapChain env) (\<lambda>_. ret None)
     else andThen (ASSERT (result = VK_SUCCESS \<or> result = VK_SUBOPTIMAL_KHR)
                     ''failed to acquire swap chain image.'') (\<lambda>_.
          ret (Some imageIndex))))"

section \<open>Deferred destruction and the frame\<close>

definition destroyDeferred :: "handle \<times> handle \<Rightarrow> unit action" where
  "destroyDeferred entry =
     andThen (vkVoid (vkDestroyBuffer (fst entry))) (\<lambda>_. vkVoid (vkFreeMemory (snd entry)))"

definition cleanupFrameResources :: "environment \<Rightarrow> unit action" where
  "cleanupFrameResources env s =
     (let frameToClean = (currentFrame s + 1) mod MAX_FRAMES_IN_FLIGHT env
      in if frameToClean < length (frames s) then
           andThen (forEach (buffersToDelete (frames s ! frameToClean)) destroyDeferred) (\<lambda>_.
           modify (\<lambda>s. s\<lparr>frames := (frames s)
                     [frameToClean := (frames s ! frameToClean)\<lparr>buffersToDelete := []\<rparr>]\<rparr>)) s
         else Inl (UndefinedBehaviour ''frames index out of range'', s))"

definition drawFrame :: "environment \<Rightarrow> unit action" where
  "drawFrame env s =
     (if \<not> isRunning s then Inr ((), s)
      else if MAX_FRAMES_IN_FLIGHT env = 0
      then Inl (UndefinedBehaviour ''remainder by zero'', s)
      else
        andThen (modify (\<lambda>s. s\<lparr>currentFrame :=
                   (currentFrame s + 1) mod MAX_FRAMES_IN_FLIGHT env\<rparr>)) (\<lambda>_.
        andThen (cleanupFrameResources env) (\<lambda>_.
        andThen (\<lambda>s. at_index (inFlightFences s) (currentFrame s) s) (\<lambda>fence.
        andThen (vkVoid (vkWaitForFences fence)) (\<lambda>_.
        andThen (acquireNextImage env) (\<lambda>imageIndex.
        case imageIndex of
          None \<Rightarrow> ret ()
        | Some imageIndex \<Rightarrow>
            andThen (\<lambda>s. updateUniformBuffer env (currentFrame s) s) (\<lambda>_.
            andThen (processLoadedMeshes env) (\<lambda>_.
            andThen (vkVoid (vkResetFences fence)) (\<lambda>_.
            andThen (\<lambda>s. getCommandBuffer (currentFrame s) s) (\<lambda>commandBuffer.
            andThen (\<lambda>s. resetCommandBuffer env (currentFrame s) s) (\<lambda>_.
            andThen (recordCommandBuffer env commandBuffer imageIndex) (\<lambda>_.
            andThen (\<lambda>s. at_index (imageAvailableSemaphores s) (currentFrame s) s) (\<lambda>waitSemaphore.
            andThen (\<lambda>s. at_index (renderFinishedSemaphores s) (currentFrame s) s) (\<lambda>signalSemaphore.
            andThen (threadSafeQueueSubmit env commandBuffer (Some fence)) (\<lambda>result.
            andThen (ASSERT (result = VK_SUCCESS) ''failed to submit draw command buffer.'') (\<lambda>_.
            andThen (threadSafePresent env imageIndex) (\<lambda>result.
            (\<lambda>s. (if result = VK_ERROR_OUT_OF_DATE_KHR \<or> result = VK_SUBOPTIMAL_KHR
                       \<or> framebufferResized s
                    then andThen (modify (\<lambda>s. s\<lparr>framebufferResized := False\<rparr>)) (\<lambda>_.
                         recreateSwapChain env)
                    else ASSERT (result = VK_SUCCESS) ''failed to present swap chain image.'') s)
            )))))))))))))))) s)"

section \<open>What happens to the renderer over time\<close>

text \<open>
  The frame loop calls \<open>drawFrame\<close>; a background import puts a mesh on the queue; the
  window-resized event sets \<open>framebufferResized\<close>; the application-quit event clears
  \<open>isRunning\<close>.
\<close>

datatype event =
    DrawFrame
  | ImportMesh string Mesh
  | WindowResized
  | ApplicationQuit

definition onResize :: "unit action" where
  "onResize = modify (\<lambda>s. s\<lparr>framebufferResized := True\<rparr>)"

definition onApplicationQuit :: "unit action" where
  "onApplicationQuit = modify (\<lambda>s. s\<lparr>isRunning := False\<rparr>)"

primrec handleEvent :: "environment \<Rightarrow> event \<Rightarrow> unit action" where
  "handleEvent env DrawFrame = drawFrame env"
| "handleEvent env (ImportMesh meshPath newMesh) = importMesh meshPath newMesh"
| "handleEvent env WindowResized = onResize"
| "handleEvent env ApplicationQuit = onApplicationQuit"

definition run :: "environment \<Rightarrow> event list \<Rightarrow> unit action" where
  "run env events = forEach events (handleEvent env)"

section \<open>Predicates used to state the properties\<close>

text \<open>What "clamped into \<open>[lo, hi]\<close>" means for a value \<open>v\<close> and a result \<open>r\<close>.\<close>

definition clamped_into :: "uint32_t \<Rightarrow> uint32_t \<Rightarrow> uint32_t \<Rightarrow> uint32_t \<Rightarrow> bool" where
  "clamped_into v lo hi r \<longleftrightarrow>
     lo \<le> r \<and> r \<le> hi \<and> (v < lo \<longrightarrow> r = lo) \<and> (hi < v \<longrightarrow> r = hi) \<and>
     (lo \<le> v \<and> v \<le> hi \<longrightarrow> r = v)"


text \<open>
  Memory type \<open>i\<close> suits a request: it is one of the device's types, its bit is set in
  the type filter, and every requested property flag is among its property flags.
\<close>

definition suitable :: "VkPhysicalDeviceMemoryProperties \<Rightarrow> uint32_t \<Rightarrow> VkFlags \<Rightarrow> nat \<Rightarrow> bool" where
  "suitable memProps typeFilter properties i \<longleftrightarrow>
     i < unat (memoryTypeCount memProps) \<and> bit typeFilter i \<and>
     (\<forall>b. bit properties b \<longrightarrow> bit (propertyFlags (memoryTypes memProps ! i)) b)"

text \<open>The device reports at most 32 memory types, in an array of 32.\<close>

definition valid_memProperties :: "VkPhysicalDeviceMemoryProperties \<Rightarrow> bool" where
  "valid_memProperties memProps \<longleftrightarrow>
     unat (memoryTypeCount memProps) \<le> 32 \<and> length (memoryTypes memProps) = 32"

subsection \<open>A device and a renderer to run the program on\<close>

text \<open>
  A device with two frame slots and three memory types on which every call succeeds, and
  the renderer as initialisation leaves it, before the first frame.
\<close>

definition exampleMemProperties :: VkPhysicalDeviceMemoryProperties where
  "exampleMemProperties =
     \<lparr> memoryTypeCount = 3,
       memoryTypes =
         [\<lparr> propertyFlags = 1, heapIndex = 0 \<rparr>,
          \<lparr> propertyFlags = 6, heapIndex = 1 \<rparr>,
          \<lparr> propertyFlags = 7, heapIndex = 1 \<rparr>]
         @ replicate 29 \<lparr> propertyFlags = 0, heapIndex = 0 \<rparr> \<rparr>"

definition exampleCapabilities :: VkSurfaceCapabilitiesKHR where
  "exampleCapabilities =
     \<lparr> currentExtent = \<lparr> width = 800, height = 600 \<rparr>,
       minImageExtent = \<lparr> width = 1, height = 1 \<rparr>,
       maxImageExtent = \<lparr> width = 4096, height = 4096 \<rparr> \<rparr>"

definition exampleEnv :: environment where
  "exampleEnv =
     \<lparr> MAX_FRAMES_IN_FLIGHT = 2,
       sizeof_Vertex = 32,
       Matrix4x4_default = identity,
       vkResultAt = (\<lambda>n. VK_SUCCESS),
       vkHandleAt = (\<lambda>n. 100 + n),
       vkAcquireResultAt = (\<lambda>n. VK_SUCCESS),
       vkImageIndexAt = (\<lambda>n. 0),
       vkMemoryRequirementsAt = (\<lambda>n. \<lparr> allocationSize = 256, memoryTypeBits = 7 \<rparr>),
       vkDescriptorSetAt = (\<lambda>n i. 1000 + 10 * n + i),
       surfaceCapabilitiesAt = (\<lambda>n. exampleCapabilities),
       windowInfoAt = (\<lambda>n. \<lparr> windowWidth = 800, windowHeight = 600 \<rparr>),
       memProperties = exampleMemProperties,
       optimalTilingFeatures = (\<lambda>f. 4096),
       graphicsFamily = Some 0,
       presentFamily = Some 0,
       this_thread = 0,
       lookAt = (\<lambda>n. identity),
       perspective = (\<lambda>e. identity),
       addNewMesh = (\<lambda>meshPath m registered. registered @ [(meshPath, m)]) \<rparr>"

definition exampleRenderer :: renderer where
  "exampleRenderer =
     \<lparr> isRunning = True,
       currentFrame = 0,
       framebufferResized = False,
       frames = [\<lparr> buffersToDelete = [] \<rparr>, \<lparr> buffersToDelete = [] \<rparr>],
       globalBuffers = \<lparr> vertexBuffer = 0, vertexBufferMemory = 0,
                         indexBuffer = 0, indexBufferMemory = 0,
                         totalVertices = 0, totalIndices = 0 \<rparr>,
       modelQueue = [],
       models = [],
       meshHeap = [],
       storage = [],
       imageAvailableSemaphores = [1, 2],
       renderFinishedSemaphores = [3, 4],
       inFlightFences = [5, 6],
       commandBuffers = [7, 8],
       globalUboBuffers = [9, 10],
       instanceUboBuffers = [11, 12],
       globalUboMapped = [\<lparr> view = identity, projection = identity \<rparr>,
                          \<lparr> view = identity, projection = identity \<rparr>],
       instanceUboMapped = [\<lparr> model = identity \<rparr>, \<lparr> model = identity \<rparr>],
       threadCommandPools = [(0, 13)],
       swapChainExtent = \<lparr> width = 800, height = 600 \<rparr>,
       memoryContents = [],
       bufferBinding = [],
       pendingCopies = [],
       calls = [] \<rparr>"

subsection \<open>Reading the record of calls\<close>

text \<open>The calls made between a state and a later one.\<close>

definition callsSince :: "renderer \<Rightarrow> renderer \<Rightarrow> vkcall list" where
  "callsSince s s' = drop (length (calls s)) (calls s')"

definition callsKept :: "renderer \<Rightarrow> renderer \<Rightarrow> bool" where
  "callsKept s s' \<longleftrightarrow> take (length (calls s)) (calls s') = calls s"

text \<open>
  The barriers and blits among the calls, by mip level: a barrier with the level it
  transitions and the layouts it goes between, a blit with its source and destination level.
\<close>

datatype mipStep =
    Barrier nat VkImageLayout VkImageLayout
  | Blit nat nat

fun mipSteps :: "vkcall list \<Rightarrow> mipStep list" where
  "mipSteps [] = []"
| "mipSteps (vkCmdPipelineBarrier commandBuffer img level oldLayout newLayout # cs) =
     Barrier (unat level) oldLayout newLayout # mipSteps cs"
| "mipSteps (vkCmdBlitImage commandBuffer img srcLevel srcWidth srcHeight dstLevel dstWidth dstHeight # cs) =
     Blit (unat srcLevel) (unat dstLevel) # mipSteps cs"
| "mipSteps (c # cs) = mipSteps cs"

text \<open>
  What the spec asks of a texture with \<open>K\<close> levels: around the blit out of each level
  but the last, a barrier from transfer-dst to transfer-src before it and one from
  transfer-src to shader-read-only after it; then the last level goes from transfer-dst to
  shader-read-only in one barrier.
\<close>

definition blitGroup :: "nat \<Rightarrow> mipStep list" where
  "blitGroup l =
     [Barrier l VK_IMAGE_LAYOUT_TRANSFER_DST_OPTIMAL VK_IMAGE_LAYOUT_TRANSFER_SRC_OPTIMAL,
      Blit l (Suc l),
      Barrier l VK_IMAGE_LAYOUT_TRANSFER_SRC_OPTIMAL VK_IMAGE_LAYOUT_SHADER_READ_ONLY_OPTIMAL]"

definition expectedMipSteps :: "nat \<Rightarrow> mipStep list" where
  "expectedMipSteps K =
     concat (map blitGroup [0..<K - 1])
     @ [Barrier (K - 1) VK_IMAGE_LAYOUT_TRANSFER_DST_OPTIMAL VK_IMAGE_LAYOUT_SHADER_READ_ONLY_OPTIMAL]"

fun isBlit :: "mipStep \<Rightarrow> bool" where
  "isBlit (Blit src dst) = True"
| "isBlit (Barrier l oldLayout newLayout) = False"

fun isBarrier :: "mipStep \<Rightarrow> bool" where
  "isBarrier (Barrier l oldLayout newLayout) = True"
| "isBarrier (Blit src dst) = False"

fun reachesShaderRead :: "mipStep \<Rightarrow> bool" where
  "reachesShaderRead (Barrier l oldLayout newLayout) =
     (newLayout = VK_IMAGE_LAYOUT_SHADER_READ_ONLY_OPTIMAL)"
| "reachesShaderRead (Blit src dst) = False"

definition exampleTexture :: Texture where
  "exampleTexture =
     \<lparr> textureImage = 20, textureImageView = 21, textureSampler = 22, maxMipLevels = 3 \<rparr>"

text \<open>
  A step from \<open>s\<close> to \<open>s'\<close> only adds calls, and each call it adds satisfies \<open>P\<close>.
\<close>

definition emits :: "(vkcall \<Rightarrow> bool) \<Rightarrow> renderer \<Rightarrow> renderer \<Rightarrow> bool" where
  "emits P s s' \<longleftrightarrow> callsKept s s' \<and> list_all P (callsSince s s')"

text \<open>The same of the outcome of an action started in \<open>s\<close>, whether it returns or stops.\<close>

definition emitting ::
  "(vkcall \<Rightarrow> bool) \<Rightarrow> renderer \<Rightarrow> (fatal \<times> renderer) + ('a \<times> renderer) \<Rightarrow> bool"
where
  "emitting P s r = (case r of Inl (e, s') \<Rightarrow> emits P s s' | Inr (x, s') \<Rightarrow> emits P s s')"

text \<open>
  Calls that neither wait on nor reset a fence, begin a command buffer, submit or present:
  destroying a buffer, freeing memory, and the calls without a constructor of their own.
\<close>

fun housekeeping :: "vkcall \<Rightarrow> bool" where
  "housekeeping (vkDestroyBuffer b) = True"
| "housekeeping (vkFreeMemory m) = True"
| "housekeeping (vkCall name args) = True"
| "housekeeping c = False"

fun fenceCall :: "vkcall \<Rightarrow> bool" where
  "fenceCall (vkWaitForFences f) = True"
| "fenceCall (vkResetFences f) = True"
| "fenceCall c = False"

definition quiet :: "vkcall \<Rightarrow> bool" where
  "quiet c \<longleftrightarrow> \<not> fenceCall c"

subsection \<open>Fences\<close>

text \<open>
  What the calls so far have done to one fence: not waited on since its last reset (or at
  all), waited on once since, or waited on again with no reset in between.
\<close>

datatype fenceUse = Unwaited | WaitedOnce | WaitedAgain

fun useAfter :: "handle \<Rightarrow> fenceUse \<Rightarrow> vkcall \<Rightarrow> fenceUse" where
  "useAfter fence u (vkWaitForFences f) =
     (if f = fence then (case u of Unwaited \<Rightarrow> WaitedOnce | _ \<Rightarrow> WaitedAgain) else u)"
| "useAfter fence u (vkResetFences f) =
     (if f = fence then (case u of WaitedAgain \<Rightarrow> WaitedAgain | _ \<Rightarrow> Unwaited) else u)"
| "useAfter fence u c = u"

primrec fenceUseAfter :: "handle \<Rightarrow> fenceUse \<Rightarrow> vkcall list \<Rightarrow> fenceUse" where
  "fenceUseAfter fence u [] = u"
| "fenceUseAfter fence u (c # cs) = fenceUseAfter fence (useAfter fence u c) cs"

text \<open>
  Over the calls from \<open>s\<close> to \<open>s'\<close> the use of the fence goes from \<open>a\<close> to \<open>b\<close>.
\<close>

definition fenceGoes :: "handle \<Rightarrow> fenceUse \<Rightarrow> fenceUse \<Rightarrow> renderer \<Rightarrow> renderer \<Rightarrow> bool" where
  "fenceGoes fence a b s s' \<longleftrightarrow>
     callsKept s s' \<and> fenceUseAfter fence a (callsSince s s') = b"

text \<open>
  An outcome that, started with the fence in use \<open>a\<close>, returns with it in use \<open>b\<close> or
  stops with it in one of the uses \<open>S\<close>.
\<close>

definition fenceOutcome ::
  "handle \<Rightarrow> fenceUse \<Rightarrow> renderer \<Rightarrow> (fatal \<times> renderer) + ('a \<times> renderer) \<Rightarrow> fenceUse
     \<Rightarrow> fenceUse set \<Rightarrow> bool"
where
  "fenceOutcome fence a s r b S =
     (case r of
        Inl (e, s') \<Rightarrow> (\<exists>c \<in> S. fenceGoes fence a c s s')
      | Inr (x, s') \<Rightarrow> fenceGoes fence a b s s')"

subsection \<open>Well-formed renderers\<close>

text \<open>
  Initialisation sizes the per-slot vectors to \<open>MAX_FRAMES_IN_FLIGHT\<close>, which is positive.
\<close>

definition wellFormed :: "environment \<Rightarrow> renderer \<Rightarrow> bool" where
  "wellFormed env s \<longleftrightarrow>
     0 < MAX_FRAMES_IN_FLIGHT env \<and>
     length (frames s) = MAX_FRAMES_IN_FLIGHT env \<and>
     length (inFlightFences s) = MAX_FRAMES_IN_FLIGHT env \<and>
     length (imageAvailableSemaphores s) = MAX_FRAMES_IN_FLIGHT env \<and>
     length (renderFinishedSemaphores s) = MAX_FRAMES_IN_FLIGHT env \<and>
     length (commandBuffers s) = MAX_FRAMES_IN_FLIGHT env \<and>
     length (globalUboMapped s) = MAX_FRAMES_IN_FLIGHT env \<and>
     length (instanceUboMapped s) = MAX_FRAMES_IN_FLIGHT env"

text \<open>A device on which every image acquisition reports the surface out of date.\<close>

definition staleEnv :: environment where
  "staleEnv = exampleEnv\<lparr>vkAcquireResultAt := (\<lambda>n. VK_ERROR_OUT_OF_DATE_KHR)\<rparr>"

text \<open>A device on which every image acquisition reports the surface suboptimal.\<close>

definition suboptimalEnv :: environment where
  "suboptimalEnv = exampleEnv\<lparr>vkAcquireResultAt := (\<lambda>n. VK_SUBOPTIMAL_KHR)\<rparr>"

text \<open>A device that differs from \<open>env\<close> only in that every image acquisition succeeds.\<close>

definition asSuccess :: "environment \<Rightarrow> environment" where
  "asSuccess env = env\<lparr>vkAcquireResultAt := (\<lambda>n. VK_SUCCESS)\<rparr>"

subsection \<open>Meshes to import\<close>

definition exampleVertex :: "real \<Rightarrow> Vertex" where
  "exampleVertex x = Vertex [x, 0, 0,  1, 1, 1,  0, 0]"

definition examplePart :: "nat \<Rightarrow> nat \<Rightarrow> MeshPart" where
  "examplePart nVertices nIndices =
     \<lparr> vertices = map (\<lambda>k. exampleVertex (real k)) [0..<nVertices],
       indices = map of_nat [0..<nIndices],
       vertexOffset = 0,
       indexOffset = 0,
       indexCount = nIndices,
       texture = Some exampleTexture,
       descriptorSets = [] \<rparr>"

text \<open>A mesh of three parts and a mesh of two parts.\<close>

definition exampleMesh1 :: Mesh where
  "exampleMesh1 = \<lparr> meshParts = [examplePart 3 3, examplePart 4 6, examplePart 3 3] \<rparr>"

definition exampleMesh2 :: Mesh where
  "exampleMesh2 = \<lparr> meshParts = [examplePart 4 6, examplePart 3 3] \<rparr>"

text \<open>
  The renderer after two imports that complete before the next frame, the mesh of three
  parts under the path \<open>a\<close> and the mesh of two parts under the path \<open>b\<close>.
\<close>

definition twoImports :: "event list" where
  "twoImports = [ImportMesh ''a'' exampleMesh1, ImportMesh ''b'' exampleMesh2]"

subsection \<open>Outcomes\<close>

definition returned :: "(fatal \<times> renderer) + ('a \<times> renderer) \<Rightarrow> bool" where
  "returned r = (case r of Inl stopped \<Rightarrow> False | Inr result \<Rightarrow> True)"

definition stoppedWith :: "(fatal \<times> renderer) + ('a \<times> renderer) \<Rightarrow> fatal option" where
  "stoppedWith r = (case r of Inl stopped \<Rightarrow> Some (fst stopped) | Inr result \<Rightarrow> None)"

definition stateAfter :: "(fatal \<times> renderer) + ('a \<times> renderer) \<Rightarrow> renderer" where
  "stateAfter r = (case r of Inl stopped \<Rightarrow> snd stopped | Inr result \<Rightarrow> snd result)"

text \<open>
  An outcome that, if it returns, has only added calls, one of which satisfies \<open>Q\<close>.
\<close>

definition mentions ::
  "(vkcall \<Rightarrow> bool) \<Rightarrow> renderer \<Rightarrow> (fatal \<times> renderer) + ('a \<times> renderer) \<Rightarrow> bool"
where
  "mentions Q s r =
     (case r of
        Inl stopped \<Rightarrow> True
      | Inr result \<Rightarrow> callsKept s (snd result) \<and> (\<exists>c \<in> set (callsSince s (snd result)). Q c))"

subsection \<open>The start of a frame\<close>

text \<open>The calls that destroy the entries of a deferred-destroy list, in order.\<close>

definition destroyCalls :: "(handle \<times> handle) list \<Rightarrow> vkcall list" where
  "destroyCalls entries =
     concat (map (\<lambda>entry. [vkDestroyBuffer (fst entry), vkFreeMemory (snd entry)]) entries)"

text \<open>
  The renderer once a frame has advanced the frame index to \<open>slot\<close>, destroyed and cleared
  the deferred-destroy list of slot \<open>(slot + 1) mod MAX_FRAMES_IN_FLIGHT\<close>, waited on the
  fence of \<open>slot\<close> and asked for the next image with the semaphore of \<open>slot\<close>.
\<close>

definition afterAcquire :: "environment \<Rightarrow> renderer \<Rightarrow> renderer" where
  "afterAcquire env s =
     (let slot = (currentFrame s + 1) mod MAX_FRAMES_IN_FLIGHT env;
          frameToClean = (slot + 1) mod MAX_FRAMES_IN_FLIGHT env
      in s\<lparr>currentFrame := slot,
            frames := (frames s)[frameToClean := (frames s ! frameToClean)\<lparr>buffersToDelete := []\<rparr>],
            calls := calls s @ destroyCalls (buffersToDelete (frames s ! frameToClean))
                       @ [vkWaitForFences (inFlightFences s ! slot),
                          vkAcquireNextImageKHR (imageAvailableSemaphores s ! slot)]\<rparr>)"

text \<open>The deferred-destroy lists with \<open>entry\<close> put at the back of the list of slot \<open>i\<close>.\<close>

definition queued :: "nat \<Rightarrow> handle \<times> handle \<Rightarrow> FrameData list \<Rightarrow> FrameData list" where
  "queued i entry fs = fs[i := (fs ! i)\<lparr>buffersToDelete := buffersToDelete (fs ! i) @ [entry]\<rparr>]"

text \<open>An outcome, returned or stopped, whose record of calls begins with \<open>cs\<close>.\<close>

definition beginsWith ::
  "vkcall list \<Rightarrow> (fatal \<times> renderer) + ('a \<times> renderer) \<Rightarrow> bool"
where
  "beginsWith cs r \<longleftrightarrow> take (length cs) (calls (stateAfter r)) = cs"

text \<open>
  A renderer with combined buffers 50 and 52, bound to memory 51 and 53, between two frames,
  the last one drawn on slot 0; and the same renderer when that last frame has replaced
  the combined buffers 40 and 42, so that they wait on the list of slot 0.
\<close>

definition exampleBuilt :: renderer where
  "exampleBuilt = exampleRenderer
     \<lparr> globalBuffers := \<lparr> vertexBuffer = 50, vertexBufferMemory = 51,
                           indexBuffer = 52, indexBufferMemory = 53,
                           totalVertices = 3, totalIndices = 3 \<rparr> \<rparr>"

definition exampleReplaced :: renderer where
  "exampleReplaced = exampleBuilt
     \<lparr> frames := [\<lparr> buffersToDelete = [(40, 41), (42, 43)] \<rparr>, \<lparr> buffersToDelete = [] \<rparr>] \<rparr>"

text \<open>Calls that record a command buffer, submit it with a fence, or present an image.\<close>

fun beginsRecording :: "vkcall \<Rightarrow> bool" where
  "beginsRecording (vkBeginCommandBuffer commandBuffer) = True"
| "beginsRecording c = False"

fun submits :: "vkcall \<Rightarrow> bool" where
  "submits (vkQueueSubmit commandBuffer fence) = True"
| "submits c = False"

fun presents :: "vkcall \<Rightarrow> bool" where
  "presents (vkQueuePresentKHR imageIndex) = True"
| "presents c = False"

definition drawsOrPresents :: "vkcall \<Rightarrow> bool" where
  "drawsOrPresents c \<longleftrightarrow> beginsRecording c \<or> submits c \<or> presents c"

subsection \<open>Render instances and their transforms\<close>

definition setModels :: "Model list \<Rightarrow> renderer \<Rightarrow> renderer" where
  "setModels ms s = s\<lparr>models := ms\<rparr>"

text \<open>An outcome with a change applied to the state it ends in.\<close>

definition onState ::
  "(renderer \<Rightarrow> renderer) \<Rightarrow> (fatal \<times> renderer) + ('a \<times> renderer) \<Rightarrow> (fatal \<times> renderer) + ('a \<times> renderer)"
where
  "onState g r =
     (case r of
        Inl stopped \<Rightarrow> Inl (fst stopped, g (snd stopped))
      | Inr result \<Rightarrow> Inr (fst result, g (snd result)))"

text \<open>
  The instance data of a frame: the slot in use and the mapped instance uniform buffers.
\<close>

definition instanceData :: "renderer \<Rightarrow> nat \<times> InstanceUbo list" where
  "instanceData s = (currentFrame s, instanceUboMapped s)"

text \<open>The same with the deferred-destroy lists of the slots.\<close>

definition frameData :: "renderer \<Rightarrow> nat \<times> FrameData list \<times> InstanceUbo list" where
  "frameData s = (currentFrame s, frames s, instanceUboMapped s)"

text \<open>An outcome, returned or stopped, in whose state \<open>field\<close> is what it was in \<open>s\<close>.\<close>

definition keeps ::
  "(renderer \<Rightarrow> 'b) \<Rightarrow> renderer \<Rightarrow> (fatal \<times> renderer) + ('a \<times> renderer) \<Rightarrow> bool"
where
  "keeps field s r \<longleftrightarrow> field (stateAfter r) = field s"

text \<open>An outcome that, if it returns, ends in a state with \<open>R\<close>.\<close>

definition endsWith ::
  "(renderer \<Rightarrow> bool) \<Rightarrow> (fatal \<times> renderer) + ('a \<times> renderer) \<Rightarrow> bool"
where
  "endsWith R r = (case r of Inl stopped \<Rightarrow> True | Inr result \<Rightarrow> R (snd result))"




section \<open>Swap extent\<close>

lemma std_clamp_clamped: "lo \<le> hi \<Longrightarrow> clamped_into v lo hi (std_clamp v lo hi)"
  by (auto simp: clamped_into_def std_clamp_def)

text \<open>
  C5. When the surface reports a defined current extent (its width is not the largest
  32-bit value) \<open>chooseSwapExtent\<close> returns it unchanged. Otherwise it returns the
  platform's drawable size, converted to unsigned 32-bit values, with width and height each
  clamped into the range from \<open>minImageExtent\<close> to \<open>maxImageExtent\<close> (for a
  range whose lower bound does not exceed its upper bound).
\<close>

theorem chooseSwapExtent_spec:
  "(width (currentExtent caps) \<noteq> UINT32_MAX \<longrightarrow>
      chooseSwapExtent caps win = currentExtent caps) \<and>
   (width (currentExtent caps) = UINT32_MAX \<longrightarrow>
      (width (minImageExtent caps) \<le> width (maxImageExtent caps) \<longrightarrow>
         clamped_into (word_of_int (windowWidth win))
           (width (minImageExtent caps)) (width (maxImageExtent caps))
           (width (chooseSwapExtent caps win))) \<and>
      (height (minImageExtent caps) \<le> height (maxImageExtent caps) \<longrightarrow>
         clamped_into (word_of_int (windowHeight win))
           (height (minImageExtent caps)) (height (maxImageExtent caps))
           (height (chooseSwapExtent caps win))))"
  by (simp add: chooseSwapExtent_def Let_def std_clamp_clamped)

theorem chooseSwapExtent_spec_witness:
  "chooseSwapExtent
     \<lparr> currentExtent = \<lparr> width = 800, height = 600 \<rparr>,
       minImageExtent = \<lparr> width = 1, height = 1 \<rparr>,
       maxImageExtent = \<lparr> width = 4096, height = 4096 \<rparr> \<rparr>
     \<lparr> windowWidth = 5000, windowHeight = 0 \<rparr> = \<lparr> width = 800, height = 600 \<rparr> \<and>
   width (chooseSwapExtent
     \<lparr> currentExtent = \<lparr> width = UINT32_MAX, height = UINT32_MAX \<rparr>,
       minImageExtent = \<lparr> width = 1, height = 1 \<rparr>,
       maxImageExtent = \<lparr> width = 4096, height = 4096 \<rparr> \<rparr>
     \<lparr> windowWidth = 5000, windowHeight = 0 \<rparr>) = 4096 \<and>
   height (chooseSwapExtent
     \<lparr> currentExtent = \<lparr> width = UINT32_MAX, height = UINT32_MAX \<rparr>,
       minImageExtent = \<lparr> width = 1, height = 1 \<rparr>,
       maxImageExtent = \<lparr> width = 4096, height = 4096 \<rparr> \<rparr>
     \<lparr> windowWidth = 5000, windowHeight = 0 \<rparr>) = 1"
  using chooseSwapExtent_spec
      [of "\<lparr> currentExtent = \<lparr> width = 800, height = 600 \<rparr>,
            minImageExtent = \<lparr> width = 1, height = 1 \<rparr>,
            maxImageExtent = \<lparr> width = 4096, height = 4096 \<rparr> \<rparr>"
          "\<lparr> windowWidth = 5000, windowHeight = 0 \<rparr>"]
    chooseSwapExtent_spec
      [of "\<lparr> currentExtent = \<lparr> width = UINT32_MAX, height = UINT32_MAX \<rparr>,
            minImageExtent = \<lparr> width = 1, height = 1 \<rparr>,
            maxImageExtent = \<lparr> width = 4096, height = 4096 \<rparr> \<rparr>"
          "\<lparr> windowWidth = 5000, windowHeight = 0 \<rparr>"]
  by (simp add: clamped_into_def UINT32_MAX_def)

section \<open>Memory type selection\<close>

lemma superset_bits:
  "((flags :: 32 word) AND properties = properties) \<longleftrightarrow> (\<forall>b. bit properties b \<longrightarrow> bit flags b)"
proof
  assume eq: "flags AND properties = properties"
  show "\<forall>b. bit properties b \<longrightarrow> bit flags b"
  proof (intro allI impI)
    fix b
    assume "bit properties b"
    then have "bit (flags AND properties) b"
      by (simp add: eq)
    then show "bit flags b"
      by (simp add: bit_and_iff)
  qed
next
  assume "\<forall>b. bit properties b \<longrightarrow> bit flags b"
  then show "flags AND properties = properties"
    by (auto intro!: bit_eqI simp: bit_and_iff)
qed

lemma findMemoryType_loop_spec:
  assumes "valid_memProperties mp"
  shows "case findMemoryType_loop mp tf props i of
           Inl e \<Rightarrow> False
         | Inr None \<Rightarrow> (\<forall>j\<ge>i. \<not> suitable mp tf props j)
         | Inr (Some k) \<Rightarrow> i \<le> unat k \<and> suitable mp tf props (unat k) \<and>
                          (\<forall>j. i \<le> j \<and> j < unat k \<longrightarrow> \<not> suitable mp tf props j)"
  using assms
proof (induction mp tf props i rule: findMemoryType_loop.induct)
  case (1 memProps typeFilter properties i)
  show ?case
  proof (cases "i < unat (memoryTypeCount memProps)")
    case False
    then show ?thesis
      by (simp add: findMemoryType_loop.simps [of memProps typeFilter properties i] suitable_def)
  next
    case True
    with "1.prems" have inr: "i < length (memoryTypes memProps) \<and> i < 32"
      by (simp add: valid_memProperties_def)
    have un: "unat (of_nat i :: 32 word) = i"
      using inr by (simp add: unat_of_nat)
    show ?thesis
    proof (cases "typeFilter AND push_bit i 1 \<noteq> 0 \<and>
             propertyFlags (memoryTypes memProps ! i) AND properties = properties")
      case hit: True
      then have "suitable memProps typeFilter properties i"
        using True by (simp add: suitable_def bit_iff_and_push_bit_not_eq_0 superset_bits)
      then show ?thesis
        using True inr hit un
        by (auto simp: findMemoryType_loop.simps [of memProps typeFilter properties i])
    next
      case miss: False
      then have ns: "\<not> suitable memProps typeFilter properties i"
        by (auto simp: suitable_def bit_iff_and_push_bit_not_eq_0 superset_bits)
      have eq: "findMemoryType_loop memProps typeFilter properties i =
                findMemoryType_loop memProps typeFilter properties (Suc i)"
        using True inr miss
        by (auto simp: findMemoryType_loop.simps [of memProps typeFilter properties i])
      have ih: "case findMemoryType_loop memProps typeFilter properties (Suc i) of
           Inl e \<Rightarrow> False
         | Inr None \<Rightarrow> (\<forall>j\<ge>Suc i. \<not> suitable memProps typeFilter properties j)
         | Inr (Some k) \<Rightarrow> Suc i \<le> unat k \<and> suitable memProps typeFilter properties (unat k) \<and>
                          (\<forall>j. Suc i \<le> j \<and> j < unat k \<longrightarrow> \<not> suitable memProps typeFilter properties j)"
        using "1.IH" [OF True inr miss "1.prems"] .
      show ?thesis
        unfolding eq using ih ns
        by (auto split: sum.splits option.splits) (metis Suc_leI le_eq_less_or_eq)+
    qed
  qed
qed


text \<open>
  C6. For every type filter and every set of requested property flags, on a device that
  reports at most 32 memory types, \<open>findMemoryType\<close> returns the lowest-indexed memory type
  whose bit is set in the filter and whose property flags include all requested flags, and
  it stops on its fatal assertion exactly when there is no such type. Either way the one
  call it makes is the query of the device's memory properties.
\<close>

theorem findMemoryType_lowest_suitable:
  assumes "valid_memProperties (memProperties env)"
  shows "case findMemoryType env typeFilter properties s of
           Inr (memoryIndex, s') \<Rightarrow>
             suitable (memProperties env) typeFilter properties (unat memoryIndex) \<and>
             (\<forall>j < unat memoryIndex. \<not> suitable (memProperties env) typeFilter properties j) \<and>
             s' = s\<lparr>calls := calls s @ [vkCall ''vkGetPhysicalDeviceMemoryProperties'' []]\<rparr>
         | Inl (e, s') \<Rightarrow>
             e = AssertionFailed ''failed to find suitable memory type.'' \<and>
             (\<forall>j. \<not> suitable (memProperties env) typeFilter properties j) \<and>
             s' = s\<lparr>calls := calls s @ [vkCall ''vkGetPhysicalDeviceMemoryProperties'' []]\<rparr>"
  using findMemoryType_loop_spec [OF assms, where tf = typeFilter and props = properties and i = 0]
  by (auto simp: findMemoryType_def andThen_def vkVoid_def ASSERT_def ret_def stop_def
           split: sum.splits option.splits)

theorem findMemoryType_lowest_suitable_witness:
  "valid_memProperties (memProperties exampleEnv) \<and>
   findMemoryType exampleEnv 6 6 exampleRenderer =
     Inr (1, exampleRenderer\<lparr>calls := [vkCall ''vkGetPhysicalDeviceMemoryProperties'' []]\<rparr>) \<and>
   suitable (memProperties exampleEnv) 6 6 1 \<and>
   \<not> suitable (memProperties exampleEnv) 6 6 0 \<and>
   (\<exists>s'. findMemoryType exampleEnv 1 6 exampleRenderer =
      Inl (AssertionFailed ''failed to find suitable memory type.'', s'))"
proof -
  have valid: "valid_memProperties (memProperties exampleEnv)"
    by (simp add: valid_memProperties_def exampleEnv_def exampleMemProperties_def)
  have run1: "findMemoryType exampleEnv 6 6 exampleRenderer =
     Inr (1, exampleRenderer\<lparr>calls := [vkCall ''vkGetPhysicalDeviceMemoryProperties'' []]\<rparr>)"
    by (simp add: findMemoryType_def andThen_def vkVoid_def ASSERT_def ret_def stop_def
          findMemoryType_loop.simps exampleEnv_def exampleMemProperties_def exampleRenderer_def)
  have run2: "\<exists>s'. findMemoryType exampleEnv 1 6 exampleRenderer =
      Inl (AssertionFailed ''failed to find suitable memory type.'', s')"
    by (simp add: findMemoryType_def andThen_def vkVoid_def ASSERT_def ret_def stop_def
          findMemoryType_loop.simps exampleEnv_def exampleMemProperties_def exampleRenderer_def)
  from findMemoryType_lowest_suitable [OF valid, where typeFilter = 6 and properties = 6 and s = exampleRenderer] run1
  have "suitable (memProperties exampleEnv) 6 6 1 \<and>
        \<not> suitable (memProperties exampleEnv) 6 6 0"
    by simp
  with valid run1 run2 show ?thesis
    by blast
qed

section \<open>Zero-sized buffers and images\<close>

text \<open>
  C8. \<open>createBuffer\<close> with size 0 and \<open>createImage\<close> with a width or a height of 0
  stop on a fatal assertion with the state as it was on entry, so before any call into the
  graphics API; neither ever returns for such a request.
\<close>

theorem zero_sized_allocations_rejected:
  "createBuffer env 0 usage properties s =
     Inl (AssertionFailed ''Attempt to create buffer with empty size.'', s) \<and>
   (imageWidth = 0 \<or> imageHeight = 0 \<longrightarrow>
      createImage env imageWidth imageHeight mips samples format tiling imageUsage imageProperties s =
        Inl (AssertionFailed ''Attempted to create image with invalid dimensions'', s)) \<and>
   (createBuffer env bufferSize usage properties s = Inr r \<longrightarrow> bufferSize \<noteq> 0) \<and>
   (createImage env imageWidth imageHeight mips samples format tiling imageUsage imageProperties s =
      Inr r' \<longrightarrow> imageWidth \<noteq> 0 \<and> imageHeight \<noteq> 0)"
  by (auto simp: createBuffer_def createImage_def andThen_def ASSERT_def stop_def ret_def)

theorem zero_sized_allocations_rejected_witness:
  "createImage exampleEnv 0 600 1 1 0 0 16 1 exampleRenderer =
     Inl (AssertionFailed ''Attempted to create image with invalid dimensions'', exampleRenderer) \<and>
   createImage exampleEnv 800 0 1 1 0 0 16 1 exampleRenderer =
     Inl (AssertionFailed ''Attempted to create image with invalid dimensions'', exampleRenderer) \<and>
   (\<exists>r. createBuffer exampleEnv 256 1 6 exampleRenderer = Inr r) \<and>
   (\<exists>r. createImage exampleEnv 800 600 1 1 0 0 16 1 exampleRenderer = Inr r) \<and>
   (256 :: VkDeviceSize) \<noteq> 0"
proof -
  have buffer: "\<exists>r. createBuffer exampleEnv 256 1 6 exampleRenderer = Inr r"
    by (simp add: createBuffer_def vkBindBufferMemory_def findMemoryType_def andThen_def
          vkVoid_def vkCreate_def vkGetMemoryRequirements_def modify_def ASSERT_def ret_def
          stop_def findMemoryType_loop.simps VK_NULL_HANDLE_def
          exampleEnv_def exampleMemProperties_def exampleRenderer_def)
  have img: "\<exists>r. createImage exampleEnv 800 600 1 1 0 0 16 1 exampleRenderer = Inr r"
    by (simp add: createImage_def findMemoryType_def andThen_def
          vkVoid_def vkCreate_def vkGetMemoryRequirements_def modify_def ASSERT_def ret_def
          stop_def findMemoryType_loop.simps
          exampleEnv_def exampleMemProperties_def exampleRenderer_def)
  from buffer obtain r where r: "createBuffer exampleEnv 256 1 6 exampleRenderer = Inr r" ..
  from img obtain r' where r': "createImage exampleEnv 800 600 1 1 0 0 16 1 exampleRenderer = Inr r'" ..
  show ?thesis
    using zero_sized_allocations_rejected
            [where env = exampleEnv and imageWidth = 0 and imageHeight = 600 and mips = 1
               and samples = 1 and format = 0 and tiling = 0 and imageUsage = 16
               and imageProperties = 1 and s = exampleRenderer]
          zero_sized_allocations_rejected
            [where env = exampleEnv and imageWidth = 800 and imageHeight = 0 and mips = 1
               and samples = 1 and format = 0 and tiling = 0 and imageUsage = 16
               and imageProperties = 1 and s = exampleRenderer]
          zero_sized_allocations_rejected
            [where env = exampleEnv and imageWidth = 800 and imageHeight = 600 and mips = 1
               and samples = 1 and format = 0 and tiling = 0 and imageUsage = 16
               and imageProperties = 1 and s = exampleRenderer and bufferSize = 256
               and usage = 1 and properties = 6 and r = r and r' = r']
          buffer img r r'
    by simp
qed

section \<open>A renderer that is not running\<close>

text \<open>
  C9. When \<open>isRunning\<close> is false \<open>drawFrame\<close> returns at once and the renderer is as it
  was: the frame index, the deferred-destroy lists, the uniform buffers and the record of
  calls (no fence waited on or reset, nothing destroyed, submitted or presented). The
  application-quit event clears \<open>isRunning\<close>, so a frame drawn after it changes nothing.
\<close>

theorem drawFrame_not_running:
  "(\<not> isRunning s \<longrightarrow> drawFrame env s = Inr ((), s)) \<and>
   onApplicationQuit s = Inr ((), s\<lparr>isRunning := False\<rparr>) \<and>
   run env [ApplicationQuit, DrawFrame] s = Inr ((), s\<lparr>isRunning := False\<rparr>)"
  by (simp add: drawFrame_def onApplicationQuit_def modify_def run_def andThen_def ret_def)

theorem drawFrame_not_running_witness:
  "\<not> isRunning (exampleRenderer\<lparr>isRunning := False\<rparr>) \<and>
   drawFrame exampleEnv (exampleRenderer\<lparr>isRunning := False\<rparr>) =
     Inr ((), exampleRenderer\<lparr>isRunning := False\<rparr>) \<and>
   calls (exampleRenderer\<lparr>isRunning := False\<rparr>) = []"
  using drawFrame_not_running [of "exampleRenderer\<lparr>isRunning := False\<rparr>" exampleEnv]
  by (simp add: exampleRenderer_def)

section \<open>Running the program on given inputs\<close>

text \<open>The equations that unfold a run of the program on a given device and renderer.\<close>

lemmas evaluate =
  ret_def andThen_def stop_def modify_def at_index_def ASSERT_def vkVoid_def vkResult_def
  vkCreate_def vkGetMemoryRequirements_def findMemoryType_def findMemoryType_loop.simps
  vkBindBufferMemory_def createBuffer_def createImage_def createCommandPool_def
  getCommandPool_def deviceCopy_def threadSafeQueueSubmit_def threadSafePresent_def
  beginSingleTimeCommands_def endSingleTimeCommands_def copyBuffer_def deferDestroy_def
  createVertexBuffer_def createIndexBuffer_def setMeshPart_def createDescriptorSets_part_def
  createDescriptorSets_def importMesh_def unique_lock_unlock_def getMeshes_def
  processLoadedMeshes_def updateUniformBuffer_def getCommandBuffer_def resetCommandBuffer_def
  drawMeshPart_def drawModel_def recordCommandBuffer_def createSwapChain_def rebuildStep_def
  createColorResources_def createDepthResources_def recreateSwapChain_def
  acquireNextImage_def destroyDeferred_def cleanupFrameResources_def drawFrame_def
  onResize_def onApplicationQuit_def run_def chooseSwapExtent_def std_clamp_def
  VK_NULL_HANDLE_def UINT32_MAX_def
  VK_BUFFER_USAGE_TRANSFER_SRC_BIT_def VK_BUFFER_USAGE_TRANSFER_DST_BIT_def
  VK_BUFFER_USAGE_INDEX_BUFFER_BIT_def VK_BUFFER_USAGE_VERTEX_BUFFER_BIT_def
  VK_MEMORY_PROPERTY_DEVICE_LOCAL_BIT_def VK_MEMORY_PROPERTY_HOST_VISIBLE_BIT_def
  VK_MEMORY_PROPERTY_HOST_COHERENT_BIT_def

lemmas examples =
  exampleEnv_def exampleRenderer_def exampleMemProperties_def exampleCapabilities_def
  staleEnv_def suboptimalEnv_def

section \<open>Reasoning about the record of calls\<close>

lemma calls_append_since:
  "calls s' = calls s @ xs \<Longrightarrow> callsKept s s' \<and> callsSince s s' = xs"
  by (simp add: callsKept_def callsSince_def)

lemma callsKept_calls: "callsKept s s' \<Longrightarrow> calls s' = calls s @ callsSince s s'"
  by (metis append_take_drop_id callsKept_def callsSince_def)

lemma callsKept_trans:
  assumes "callsKept s s1" and "callsKept s1 s2"
  shows "callsKept s s2 \<and> callsSince s s2 = callsSince s s1 @ callsSince s1 s2"
proof -
  have "calls s2 = calls s @ (callsSince s s1 @ callsSince s1 s2)"
    using callsKept_calls [OF assms(1)] callsKept_calls [OF assms(2)] by simp
  then show ?thesis
    by (rule calls_append_since)
qed

lemma emits_same: "calls s' = calls s \<Longrightarrow> emits P s s'"
  by (simp add: emits_def callsKept_def callsSince_def)

lemma emits_call: "P c \<Longrightarrow> calls s' = calls s @ [c] \<Longrightarrow> emits P s s'"
  by (simp add: emits_def callsKept_def callsSince_def)

lemma emits_trans: "emits P s s1 \<Longrightarrow> emits P s1 s2 \<Longrightarrow> emits P s s2"
  using callsKept_trans [of s s1 s2] by (auto simp: emits_def)

lemma emits_mono: "emits P s s' \<Longrightarrow> (\<And>c. P c \<Longrightarrow> Q c) \<Longrightarrow> emits Q s s'"
  by (auto simp: emits_def list_all_iff)

lemma emitting_mono: "emitting P s r \<Longrightarrow> (\<And>c. P c \<Longrightarrow> Q c) \<Longrightarrow> emitting Q s r"
  by (auto simp: emitting_def split: sum.splits intro: emits_mono)

lemma emitting_ret [simp]: "emitting P s (ret x s)"
  by (simp add: emitting_def ret_def emits_same)

lemma emitting_stop [simp]: "emitting P s (stop e s)"
  by (simp add: emitting_def stop_def emits_same)

lemma emitting_Inr [simp]: "emitting P s (Inr (x, s')) = emits P s s'"
  by (simp add: emitting_def)

lemma emitting_Inl [simp]: "emitting P s (Inl (e, s')) = emits P s s'"
  by (simp add: emitting_def)

lemma emitting_ASSERT [simp]: "emitting P s (ASSERT c msg s)"
  by (simp add: ASSERT_def)

lemma emitting_at_index [simp]: "emitting P s (at_index xs i s)"
  by (simp add: at_index_def)

lemma emitting_modify: "(\<And>s. calls (f s) = calls s) \<Longrightarrow> emitting P s (modify f s)"
  by (simp add: modify_def emits_same)

lemma emitting_vkVoid: "P c \<Longrightarrow> emitting P s (vkVoid c s)"
  by (simp add: vkVoid_def emits_call)

lemma emitting_vkResult: "P c \<Longrightarrow> emitting P s (vkResult env c s)"
  by (simp add: vkResult_def emits_call)

lemma emitting_vkCreate: "P c \<Longrightarrow> emitting P s (vkCreate env c s)"
  by (simp add: vkCreate_def emits_call)

lemma emitting_vkGetMemoryRequirements: "P c \<Longrightarrow> emitting P s (vkGetMemoryRequirements env c s)"
  by (simp add: vkGetMemoryRequirements_def emits_call)

lemma emitting_andThen:
  assumes "emitting P s (m s)"
    and "\<And>x s1. emitting P s1 (f x s1)"
  shows "emitting P s (andThen m f s)"
proof (cases "m s")
  case (Inl stopped)
  obtain e s0 where "stopped = (e, s0)"
    by (cases stopped)
  then show ?thesis
    using assms(1) Inl by (simp add: andThen_def)
next
  case (Inr returned)
  obtain x s1 where returned: "returned = (x, s1)"
    by (cases returned)
  have first: "emits P s s1"
    using assms(1) Inr returned by simp
  have "emitting P s (f x s1)"
    using first assms(2) [of s1 x]
    by (auto simp: emitting_def split: sum.splits intro: emits_trans)
  then show ?thesis
    using Inr returned by (simp add: andThen_def)
qed

lemma emitting_forEach:
  assumes "\<And>x s1. x \<in> set xs \<Longrightarrow> emitting P s1 (f x s1)"
  shows "emitting P s (forEach xs f s)"
  using assms
proof (induction xs arbitrary: s)
  case Nil
  then show ?case by simp
next
  case (Cons x xs)
  show ?case
    unfolding forEach.simps
    by (rule emitting_andThen) (simp_all add: Cons)
qed

lemmas emitting_intros =
  emitting_andThen emitting_forEach emitting_modify emitting_vkVoid emitting_vkResult
  emitting_vkCreate emitting_vkGetMemoryRequirements

lemma findMemoryType_emitting: "emitting housekeeping s (findMemoryType env typeFilter properties s)"
  unfolding findMemoryType_def
  by (intro emitting_intros allI impI conjI | simp split: prod.splits sum.splits option.splits)+

lemma createImage_emitting:
  "emitting housekeeping s (createImage env w h mips samples format tiling usage properties s)"
  unfolding createImage_def
  by (intro emitting_intros findMemoryType_emitting allI impI conjI | simp split: prod.splits sum.splits option.splits)+

lemma createBuffer_emitting:
  "emitting housekeeping s (createBuffer env bufferSize usage properties s)"
  unfolding createBuffer_def vkBindBufferMemory_def
  by (intro emitting_intros findMemoryType_emitting allI impI conjI | simp split: prod.splits sum.splits option.splits)+

lemma emits_refl [simp]: "emits P s s"
  by (simp add: emits_same)

lemma housekeeping_quiet: "housekeeping c \<Longrightarrow> quiet c"
  by (cases c) (simp_all add: quiet_def)

lemma emitting_housekeeping_quiet: "emitting housekeeping s r \<Longrightarrow> emitting quiet s r"
  by (erule emitting_mono) (rule housekeeping_quiet)

lemma deviceCopy_calls [simp]: "calls (deviceCopy src dst s) = calls s"
  by (simp add: deviceCopy_def split: option.splits)

lemma runCopies_calls [simp]: "calls (runCopies commandBuffer cs s) = calls s"
  by (induction cs arbitrary: s) simp_all

lemma getCommandPool_emitting: "emitting housekeeping s (getCommandPool env s)"
  unfolding getCommandPool_def createCommandPool_def
  by (intro emitting_intros allI impI conjI | simp split: prod.splits sum.splits option.splits)+

lemma threadSafeQueueSubmit_emitting:
  "emitting quiet s (threadSafeQueueSubmit env commandBuffer fence s)"
  unfolding threadSafeQueueSubmit_def
  by (intro emitting_intros allI impI conjI
      | simp add: quiet_def split: prod.splits sum.splits option.splits)+

lemma beginSingleTimeCommands_emitting: "emitting quiet s (beginSingleTimeCommands env s)"
  unfolding beginSingleTimeCommands_def
  by (intro emitting_intros emitting_housekeeping_quiet [OF getCommandPool_emitting]
        allI impI conjI
      | simp add: quiet_def split: prod.splits sum.splits option.splits)+

lemma endSingleTimeCommands_emitting:
  "emitting quiet s (endSingleTimeCommands env commandBuffer s)"
  unfolding endSingleTimeCommands_def
  by (intro emitting_intros emitting_housekeeping_quiet [OF getCommandPool_emitting]
        threadSafeQueueSubmit_emitting allI impI conjI
      | simp add: quiet_def split: prod.splits sum.splits option.splits)+

lemma copyBuffer_emitting: "emitting quiet s (copyBuffer env src dst copySize s)"
  unfolding copyBuffer_def
  by (intro emitting_intros beginSingleTimeCommands_emitting endSingleTimeCommands_emitting
        allI impI conjI
      | simp add: quiet_def split: prod.splits sum.splits option.splits)+

lemma deferDestroy_emitting: "emitting P s (deferDestroy i entry s)"
  by (simp add: deferDestroy_def emits_same)

lemma createVertexBuffer_emitting: "emitting quiet s (createVertexBuffer env vertexList s)"
  unfolding createVertexBuffer_def
  by (intro emitting_intros copyBuffer_emitting deferDestroy_emitting
        emitting_housekeeping_quiet [OF createBuffer_emitting] allI impI conjI
      | simp add: quiet_def split: prod.splits sum.splits option.splits)+

lemma createIndexBuffer_emitting: "emitting quiet s (createIndexBuffer env indexList s)"
  unfolding createIndexBuffer_def
  by (intro emitting_intros copyBuffer_emitting deferDestroy_emitting
        emitting_housekeeping_quiet [OF createBuffer_emitting] allI impI conjI
      | simp add: quiet_def split: prod.splits sum.splits option.splits)+

lemma createDescriptorSets_emitting: "emitting housekeeping s (createDescriptorSets env m s)"
  unfolding createDescriptorSets_def createDescriptorSets_part_def
  by (intro emitting_intros allI impI conjI
      | simp add: setMeshPart_def emits_same split: prod.splits sum.splits option.splits)+

lemma drainQueue_emitting: "emitting housekeeping s (drainQueue env queue owns s)"
proof (induction queue arbitrary: s owns)
  case Nil
  then show ?case by simp
next
  case (Cons entry rest)
  show ?case
    unfolding drainQueue.simps unique_lock_unlock_def
    by (intro emitting_intros Cons allI impI conjI
        | simp split: prod.splits sum.splits option.splits)+
qed

lemma processLoadedMeshes_emitting: "emitting quiet s (processLoadedMeshes env s)"
  unfolding processLoadedMeshes_def
  by (intro emitting_intros createVertexBuffer_emitting createIndexBuffer_emitting
        emitting_housekeeping_quiet [OF drainQueue_emitting]
        emitting_housekeeping_quiet [OF createDescriptorSets_emitting] allI impI conjI
      | simp add: emits_same split: prod.splits sum.splits option.splits)+

lemma updateUniformBuffer_emitting: "emitting housekeeping s (updateUniformBuffer env i s)"
  unfolding updateUniformBuffer_def
  by (intro emitting_intros allI impI conjI
      | simp split: prod.splits sum.splits option.splits)+

lemma getCommandBuffer_emitting: "emitting P s (getCommandBuffer bufferId s)"
  unfolding getCommandBuffer_def
  by (intro emitting_intros allI impI conjI
      | simp split: prod.splits sum.splits option.splits)+

lemma resetCommandBuffer_emitting: "emitting housekeeping s (resetCommandBuffer env bufferId s)"
  unfolding resetCommandBuffer_def
  by (intro emitting_intros allI impI conjI
      | simp split: prod.splits sum.splits option.splits)+

lemma drawModel_emitting: "emitting quiet s (drawModel commandBuffer m s)"
  unfolding drawModel_def drawMeshPart_def
  by (intro emitting_intros allI impI conjI
      | simp add: quiet_def emits_same split: prod.splits sum.splits option.splits)+

lemma recordCommandBuffer_emitting:
  "emitting quiet s (recordCommandBuffer env commandBuffer imageIndex s)"
  unfolding recordCommandBuffer_def
  by (intro emitting_intros drawModel_emitting allI impI conjI
      | simp add: quiet_def split: prod.splits sum.splits option.splits)+

lemma rebuildStep_emitting: "emitting housekeeping s (rebuildStep env name message s)"
  unfolding rebuildStep_def
  by (intro emitting_intros allI impI conjI
      | simp split: prod.splits sum.splits option.splits)+

lemma createSwapChain_emitting: "emitting housekeeping s (createSwapChain env s)"
  unfolding createSwapChain_def
  by (intro emitting_intros allI impI conjI
      | simp split: prod.splits sum.splits option.splits)+

lemma recreateSwapChain_emitting: "emitting housekeeping s (recreateSwapChain env s)"
  unfolding recreateSwapChain_def createColorResources_def createDepthResources_def
  by (intro emitting_intros createSwapChain_emitting rebuildStep_emitting createImage_emitting
        allI impI conjI
      | simp split: prod.splits sum.splits option.splits)+

lemma cleanupFrameResources_emitting: "emitting housekeeping s (cleanupFrameResources env s)"
  unfolding cleanupFrameResources_def destroyDeferred_def Let_def
  by (intro emitting_intros allI impI conjI
      | simp add: emits_same split: prod.splits sum.splits option.splits)+

section \<open>Mipmap generation\<close>

lemma mipSteps_append: "mipSteps (xs @ ys) = mipSteps xs @ mipSteps ys"
  by (induction xs rule: mipSteps.induct) auto

lemma mipSteps_loop:
  "1 \<le> unat i \<Longrightarrow>
   mipSteps (generateMipmaps_loop commandBuffer img maxMip i mipWidth mipHeight) =
     concat (map blitGroup [unat i - 1 ..< unat maxMip - 1])"
proof (induction commandBuffer img maxMip i mipWidth mipHeight rule: generateMipmaps_loop.induct)
  case (1 commandBuffer img maxMip i mipWidth mipHeight)
  show ?case
  proof (cases "i < maxMip")
    case False
    then have "unat maxMip \<le> unat i"
      by (simp add: word_less_nat_alt)
    then show ?thesis
      using False
      by (simp add: generateMipmaps_loop.simps [of commandBuffer img maxMip i])
  next
    case True
    then have lt: "unat i < unat maxMip"
      by (simp add: word_less_nat_alt)
    from True have "i \<noteq> - 1"
      by (metis word_order.extremum_strict)
    then have "1 + i \<noteq> 0"
      by (metis add.commute max_word_wrap)
    then have suc: "unat (i + 1) = Suc (unat i)"
      by (simp add: unatSuc add.commute)
    from "1.prems" have "i \<noteq> 0"
      by auto
    then have pred: "unat (i - 1) = unat i - 1"
      by (simp add: unat_minus_one)
    have range: "[unat i - 1 ..< unat maxMip - 1] = (unat i - 1) # [unat i ..< unat maxMip - 1]"
      using lt "1.prems" by (simp add: upt_conv_Cons)
    have ih: "mipSteps (generateMipmaps_loop commandBuffer img maxMip (i + 1)
                 (if 1 < mipWidth then mipWidth div 2 else mipWidth)
                 (if 1 < mipHeight then mipHeight div 2 else mipHeight)) =
              concat (map blitGroup [unat i ..< unat maxMip - 1])"
      using "1.IH" [OF True] suc by simp
    have rhs: "concat (map blitGroup [unat i - 1 ..< unat maxMip - 1]) =
               blitGroup (unat i - 1) @ concat (map blitGroup [unat i ..< unat maxMip - 1])"
      unfolding range by simp
    have lhs: "mipSteps (generateMipmaps_loop commandBuffer img maxMip i mipWidth mipHeight) =
               blitGroup (unat i - 1) @ concat (map blitGroup [unat i ..< unat maxMip - 1])"
      using True "1.prems" suc
      by (subst generateMipmaps_loop.simps) (simp add: ih pred blitGroup_def)
    show ?thesis
      unfolding rhs lhs ..
  qed
qed

lemma count_blitGroups:
  "length (filter isBlit (concat (map blitGroup ls))) = length ls \<and>
   length (filter isBarrier (concat (map blitGroup ls))) = 2 * length ls \<and>
   length (filter reachesShaderRead (concat (map blitGroup ls))) = length ls"
  by (induction ls) (simp_all add: blitGroup_def)

lemma count_expected:
  "length (filter isBlit (expectedMipSteps K)) = K - 1 \<and>
   length (filter isBarrier (expectedMipSteps K)) = 2 * (K - 1) + 1 \<and>
   length (filter reachesShaderRead (expectedMipSteps K)) = (K - 1) + 1"
  using count_blitGroups [of "[0..<K - 1]"] by (simp add: expectedMipSteps_def)

lemma getCommandPool_result:
  "getCommandPool env s = Inr (pool, s') \<Longrightarrow>
     map_of (threadCommandPools s') (this_thread env) = Some pool \<and> callsKept s s' \<and>
     mipSteps (callsSince s s') = []"
  by (auto simp: getCommandPool_def createCommandPool_def andThen_def vkVoid_def vkCreate_def
        ASSERT_def ret_def stop_def modify_def callsKept_def callsSince_def
        split: option.splits if_splits)

lemma getCommandPool_stop:
  "getCommandPool env s = Inl (e, s') \<Longrightarrow> callsKept s s' \<and> mipSteps (callsSince s s') = []"
  by (auto simp: getCommandPool_def createCommandPool_def andThen_def vkVoid_def vkCreate_def
        ASSERT_def ret_def stop_def modify_def callsKept_def callsSince_def
        split: option.splits if_splits)

lemma getCommandPool_known:
  "map_of (threadCommandPools s) (this_thread env) = Some pool \<Longrightarrow>
     getCommandPool env s = Inr (pool, s)"
  by (simp add: getCommandPool_def)


lemma deviceCopy_fields [simp]:
  "calls (deviceCopy src dst s) = calls s"
  "threadCommandPools (deviceCopy src dst s) = threadCommandPools s"
  by (simp_all add: deviceCopy_def split: option.splits)

lemma runCopies_fields [simp]:
  "calls (runCopies commandBuffer cs s) = calls s"
  "threadCommandPools (runCopies commandBuffer cs s) = threadCommandPools s"
  by (induction cs arbitrary: s) simp_all

lemma beginSingleTimeCommands_result:
  "beginSingleTimeCommands env s = Inr (commandBuffer, s') \<Longrightarrow>
     (\<exists>pool. map_of (threadCommandPools s') (this_thread env) = Some pool) \<and>
     calls s' = calls s @ callsSince s s' \<and>
     mipSteps (callsSince s s') = []"
  by (auto simp: beginSingleTimeCommands_def getCommandPool_def createCommandPool_def
        andThen_def vkVoid_def vkCreate_def
        ASSERT_def ret_def stop_def modify_def callsSince_def
        split: option.splits if_splits)

lemma beginSingleTimeCommands_stop:
  "beginSingleTimeCommands env s = Inl (e, s') \<Longrightarrow>
     calls s' = calls s @ callsSince s s' \<and> mipSteps (callsSince s s') = []"
  by (auto simp: beginSingleTimeCommands_def getCommandPool_def createCommandPool_def
        andThen_def vkVoid_def vkCreate_def
        ASSERT_def ret_def stop_def modify_def callsSince_def
        split: option.splits if_splits)

lemma endSingleTimeCommands_result:
  "map_of (threadCommandPools s) (this_thread env) = Some pool \<Longrightarrow>
   \<exists>s'. endSingleTimeCommands env commandBuffer s = Inr ((), s') \<and>
        calls s' = calls s @ callsSince s s' \<and> mipSteps (callsSince s s') = []"
  by (auto simp: endSingleTimeCommands_def threadSafeQueueSubmit_def getCommandPool_def
        andThen_def vkVoid_def vkResult_def
        ASSERT_def ret_def stop_def modify_def callsSince_def)


text \<open>
  C7. For a texture with \<open>K \<ge> 1\<close> mip levels \<open>generateMipmaps\<close> records, in this
  order: for each level \<open>l = 0, ..., K - 2\<close> a barrier taking level \<open>l\<close> from
  transfer-dst to transfer-src, the blit from level \<open>l\<close> to level \<open>l + 1\<close>, and a
  barrier taking level \<open>l\<close> from transfer-src to shader-read-only; then one barrier
  taking the last level \<open>K - 1\<close> from transfer-dst to shader-read-only directly. That
  is \<open>K - 1\<close> blits and \<open>K\<close> transitions into shader-read-only, one per level, all
  but the last in two barriers around a blit (\<open>2K - 1\<close> barriers in all). When it stops
  instead (the format cannot be blitted linearly, or no command pool can be made) it has
  recorded no barrier and no blit.
\<close>

theorem generateMipmaps_commands:
  assumes K: "maxMipLevels tex \<noteq> 0"
  shows "case generateMipmaps env tex imageFormat texWidth texHeight s of
           Inr (u, s') \<Rightarrow>
             callsKept s s' \<and>
             mipSteps (callsSince s s') = expectedMipSteps (unat (maxMipLevels tex)) \<and>
             length (filter isBlit (mipSteps (callsSince s s'))) = unat (maxMipLevels tex) - 1 \<and>
             length (filter reachesShaderRead (mipSteps (callsSince s s'))) =
               unat (maxMipLevels tex) \<and>
             length (filter isBarrier (mipSteps (callsSince s s'))) =
               2 * unat (maxMipLevels tex) - 1
         | Inl (e, s') \<Rightarrow> callsKept s s' \<and> mipSteps (callsSince s s') = []"
proof -
  define query where "query = vkCall ''vkGetPhysicalDeviceFormatProperties'' [imageFormat]"
  define s1 where "s1 = s\<lparr>calls := calls s @ [query]\<rparr>"
  define linear where "linear \<longleftrightarrow>
    optimalTilingFeatures env imageFormat AND VK_FORMAT_FEATURE_SAMPLED_IMAGE_FILTER_LINEAR_BIT \<noteq> 0"
  have Kpos: "0 < unat (maxMipLevels tex)"
    using K by (simp add: unat_gt_0)
  have last_level: "unat (maxMipLevels tex - 1) = unat (maxMipLevels tex) - 1"
    using K by (simp add: unat_minus_one)
  have counts:
    "length (filter isBlit (expectedMipSteps (unat (maxMipLevels tex)))) =
       unat (maxMipLevels tex) - 1"
    "length (filter reachesShaderRead (expectedMipSteps (unat (maxMipLevels tex)))) =
       unat (maxMipLevels tex)"
    "length (filter isBarrier (expectedMipSteps (unat (maxMipLevels tex)))) =
       2 * unat (maxMipLevels tex) - 1"
    using count_expected [of "unat (maxMipLevels tex)"] Kpos by auto
  show ?thesis
  proof (cases linear)
    case False
    then have "generateMipmaps env tex imageFormat texWidth texHeight s =
        Inl (AssertionFailed ''texture image format does not support linear blitting.'', s1)"
      by (simp add: generateMipmaps_def andThen_def vkVoid_def ASSERT_def stop_def
            linear_def s1_def query_def)
    moreover have "callsKept s s1 \<and> mipSteps (callsSince s s1) = []"
      by (simp add: callsKept_def callsSince_def s1_def query_def)
    ultimately show ?thesis
      by simp
  next
    case True
    then have unfold1: "generateMipmaps env tex imageFormat texWidth texHeight s =
        andThen (beginSingleTimeCommands env) (\<lambda>commandBuffer.
        andThen (modify (\<lambda>s. s\<lparr>calls := calls s @
                   generateMipmaps_loop commandBuffer (textureImage tex) (maxMipLevels tex) 1
                     texWidth texHeight\<rparr>)) (\<lambda>_.
        andThen (vkVoid (vkCmdPipelineBarrier commandBuffer (textureImage tex) (maxMipLevels tex - 1)
                   VK_IMAGE_LAYOUT_TRANSFER_DST_OPTIMAL VK_IMAGE_LAYOUT_SHADER_READ_ONLY_OPTIMAL)) (\<lambda>_.
        endSingleTimeCommands env commandBuffer))) s1"
      by (simp add: generateMipmaps_def andThen_def vkVoid_def ASSERT_def ret_def
            linear_def s1_def query_def)
    have s1_calls: "calls s1 = calls s @ [query]"
      by (simp add: s1_def)
    show ?thesis
    proof (cases "beginSingleTimeCommands env s1")
      case (Inl stopped)
      obtain e s' where stopped: "stopped = (e, s')"
        by (cases stopped)
      from beginSingleTimeCommands_stop [of env s1 e s'] Inl stopped
      have "calls s' = calls s1 @ callsSince s1 s'" and none: "mipSteps (callsSince s1 s') = []"
        by simp_all
      then have "calls s' = calls s @ ([query] @ callsSince s1 s')"
        by (simp add: s1_calls)
      then have "callsKept s s' \<and> callsSince s s' = [query] @ callsSince s1 s'"
        by (rule calls_append_since)
      then have "callsKept s s' \<and> mipSteps (callsSince s s') = []"
        using none by (simp add: query_def)
      moreover have "generateMipmaps env tex imageFormat texWidth texHeight s = Inl (e, s')"
        using Inl stopped by (simp add: unfold1 andThen_def)
      ultimately show ?thesis
        by simp
    next
      case (Inr began)
      obtain commandBuffer s2 where began: "began = (commandBuffer, s2)"
        by (cases began)
      define loop where "loop =
        generateMipmaps_loop commandBuffer (textureImage tex) (maxMipLevels tex) 1 texWidth texHeight"
      define final where "final =
        vkCmdPipelineBarrier commandBuffer (textureImage tex) (maxMipLevels tex - 1)
          VK_IMAGE_LAYOUT_TRANSFER_DST_OPTIMAL VK_IMAGE_LAYOUT_SHADER_READ_ONLY_OPTIMAL"
      define s4 where "s4 = s2\<lparr>calls := (calls s2 @ loop) @ [final]\<rparr>"
      from beginSingleTimeCommands_result [of env s1 commandBuffer s2] Inr began
      obtain pool where pool: "map_of (threadCommandPools s2) (this_thread env) = Some pool"
        and s2_calls: "calls s2 = calls s1 @ callsSince s1 s2"
        and none2: "mipSteps (callsSince s1 s2) = []"
        by auto
      have "map_of (threadCommandPools s4) (this_thread env) = Some pool"
        using pool by (simp add: s4_def)
      from endSingleTimeCommands_result [OF this, of commandBuffer]
      obtain s5 where ended: "endSingleTimeCommands env commandBuffer s4 = Inr ((), s5)"
        and s5_calls: "calls s5 = calls s4 @ callsSince s4 s5"
        and none5: "mipSteps (callsSince s4 s5) = []"
        by auto
      have result: "generateMipmaps env tex imageFormat texWidth texHeight s = Inr ((), s5)"
        using Inr began ended
        by (simp add: unfold1 andThen_def modify_def vkVoid_def loop_def final_def s4_def)
      have "calls s5 = calls s @ ([query] @ callsSince s1 s2 @ loop @ [final] @ callsSince s4 s5)"
        using s5_calls s2_calls s1_calls by (simp add: s4_def)
      then have kept: "callsKept s s5"
        and since: "callsSince s s5 = [query] @ callsSince s1 s2 @ loop @ [final] @ callsSince s4 s5"
        using calls_append_since by blast+
      have "mipSteps loop = concat (map blitGroup [0 ..< unat (maxMipLevels tex) - 1])"
        using mipSteps_loop [of 1 commandBuffer "textureImage tex" "maxMipLevels tex" texWidth texHeight]
        by (simp add: loop_def)
      then have steps: "mipSteps (callsSince s s5) = expectedMipSteps (unat (maxMipLevels tex))"
        using none2 none5
        by (simp add: since mipSteps_append query_def final_def expectedMipSteps_def last_level)
      show ?thesis
        using kept steps counts by (simp add: result)
    qed
  qed
qed

theorem generateMipmaps_commands_witness:
  "maxMipLevels exampleTexture \<noteq> 0 \<and>
   (\<exists>s'. generateMipmaps exampleEnv exampleTexture 0 4 4 exampleRenderer = Inr ((), s') \<and>
      mipSteps (callsSince exampleRenderer s') =
        [Barrier 0 VK_IMAGE_LAYOUT_TRANSFER_DST_OPTIMAL VK_IMAGE_LAYOUT_TRANSFER_SRC_OPTIMAL,
         Blit 0 1,
         Barrier 0 VK_IMAGE_LAYOUT_TRANSFER_SRC_OPTIMAL VK_IMAGE_LAYOUT_SHADER_READ_ONLY_OPTIMAL,
         Barrier 1 VK_IMAGE_LAYOUT_TRANSFER_DST_OPTIMAL VK_IMAGE_LAYOUT_TRANSFER_SRC_OPTIMAL,
         Blit 1 2,
         Barrier 1 VK_IMAGE_LAYOUT_TRANSFER_SRC_OPTIMAL VK_IMAGE_LAYOUT_SHADER_READ_ONLY_OPTIMAL,
         Barrier 2 VK_IMAGE_LAYOUT_TRANSFER_DST_OPTIMAL VK_IMAGE_LAYOUT_SHADER_READ_ONLY_OPTIMAL] \<and>
      length (filter isBlit (mipSteps (callsSince exampleRenderer s'))) = 2 \<and>
      length (filter isBarrier (mipSteps (callsSince exampleRenderer s'))) = 5)"
proof -
  have levels: "maxMipLevels exampleTexture \<noteq> 0"
    by (simp add: exampleTexture_def)
  have "\<exists>s'. generateMipmaps exampleEnv exampleTexture 0 4 4 exampleRenderer = Inr ((), s')"
    by (simp add: generateMipmaps_def beginSingleTimeCommands_def endSingleTimeCommands_def
          getCommandPool_def threadSafeQueueSubmit_def andThen_def vkVoid_def vkCreate_def
          vkResult_def modify_def ASSERT_def ret_def stop_def
          VK_FORMAT_FEATURE_SAMPLED_IMAGE_FILTER_LINEAR_BIT_def
          exampleEnv_def exampleRenderer_def exampleTexture_def)
  then obtain s' where
    returns: "generateMipmaps exampleEnv exampleTexture 0 4 4 exampleRenderer = Inr ((), s')" ..
  have three: "unat (maxMipLevels exampleTexture) = 3"
    by (simp add: exampleTexture_def)
  have expected: "expectedMipSteps 3 =
        [Barrier 0 VK_IMAGE_LAYOUT_TRANSFER_DST_OPTIMAL VK_IMAGE_LAYOUT_TRANSFER_SRC_OPTIMAL,
         Blit 0 1,
         Barrier 0 VK_IMAGE_LAYOUT_TRANSFER_SRC_OPTIMAL VK_IMAGE_LAYOUT_SHADER_READ_ONLY_OPTIMAL,
         Barrier 1 VK_IMAGE_LAYOUT_TRANSFER_DST_OPTIMAL VK_IMAGE_LAYOUT_TRANSFER_SRC_OPTIMAL,
         Blit 1 2,
         Barrier 1 VK_IMAGE_LAYOUT_TRANSFER_SRC_OPTIMAL VK_IMAGE_LAYOUT_SHADER_READ_ONLY_OPTIMAL,
         Barrier 2 VK_IMAGE_LAYOUT_TRANSFER_DST_OPTIMAL VK_IMAGE_LAYOUT_SHADER_READ_ONLY_OPTIMAL]"
    by (simp add: expectedMipSteps_def blitGroup_def upt_rec)
  show ?thesis
    using generateMipmaps_commands
            [OF levels, where env = exampleEnv and imageFormat = 0 and texWidth = 4
               and texHeight = 4 and s = exampleRenderer]
          levels returns three expected
    by simp
qed

section \<open>Fences across frames\<close>

lemma fenceUseAfter_append:
  "fenceUseAfter fence u (xs @ ys) = fenceUseAfter fence (fenceUseAfter fence u xs) ys"
  by (induction xs arbitrary: u) simp_all

lemma useAfter_quiet: "quiet c \<Longrightarrow> useAfter fence u c = u"
  by (cases c) (simp_all add: quiet_def)

lemma fenceUseAfter_quiet: "list_all quiet cs \<Longrightarrow> fenceUseAfter fence u cs = u"
  by (induction cs) (simp_all add: useAfter_quiet)

lemma fenceGoes_trans:
  "fenceGoes fence a b s s1 \<Longrightarrow> fenceGoes fence b c s1 s2 \<Longrightarrow> fenceGoes fence a c s s2"
  using callsKept_trans [of s s1 s2] by (auto simp: fenceGoes_def fenceUseAfter_append)

lemma fenceGoes_quiet: "emits quiet s s' \<Longrightarrow> fenceGoes fence a a s s'"
  by (simp add: emits_def fenceGoes_def fenceUseAfter_quiet)

lemma fenceGoes_call:
  "calls s' = calls s @ [c] \<Longrightarrow> fenceGoes fence a (useAfter fence a c) s s'"
  by (simp add: fenceGoes_def callsKept_def callsSince_def)

lemma fenceOutcome_quiet:
  "emitting quiet s r \<Longrightarrow> a \<in> S \<Longrightarrow> fenceOutcome fence a s r a S"
  by (cases r) (auto simp: fenceOutcome_def intro!: bexI [where x = a] fenceGoes_quiet)

lemma fenceOutcome_vkVoid:
  "fenceOutcome fence a s (vkVoid c s) (useAfter fence a c) S"
  by (simp add: fenceOutcome_def vkVoid_def fenceGoes_call)

lemma fenceOutcome_andThen:
  assumes "fenceOutcome fence a s (m s) b S"
    and "\<And>x s1. m s = Inr (x, s1) \<Longrightarrow> fenceOutcome fence b s1 (f x s1) c S"
  shows "fenceOutcome fence a s (andThen m f s) c S"
proof (cases "m s")
  case (Inl stopped)
  obtain e s0 where "stopped = (e, s0)"
    by (cases stopped)
  then show ?thesis
    using assms(1) Inl by (simp add: andThen_def fenceOutcome_def)
next
  case (Inr returned)
  obtain x s1 where returned: "returned = (x, s1)"
    by (cases returned)
  have first: "fenceGoes fence a b s s1"
    using assms(1) Inr returned by (simp add: fenceOutcome_def)
  have "fenceOutcome fence b s1 (f x s1) c S"
    using assms(2) Inr returned by simp
  then have "fenceOutcome fence a s (f x s1) c S"
    using first by (auto simp: fenceOutcome_def split: sum.splits intro: fenceGoes_trans)
  then show ?thesis
    using Inr returned by (simp add: andThen_def)
qed

lemma emits_update: "P c \<Longrightarrow> emits P s (s\<lparr>calls := calls s @ [c]\<rparr>)"
  by (rule emits_call) simp_all

lemma acquireNextImage_emitting: "emitting quiet s (acquireNextImage env s)"
  unfolding acquireNextImage_def
  by (intro emitting_intros emitting_housekeeping_quiet [OF recreateSwapChain_emitting]
        allI impI conjI
      | simp add: quiet_def emits_update split: prod.splits sum.splits option.splits)+

lemma acquireNextImage_image:
  assumes "\<And>n. vkAcquireResultAt env n \<noteq> VK_ERROR_OUT_OF_DATE_KHR"
    and "acquireNextImage env s = Inr (imageIndex, s1)"
  shows "imageIndex \<noteq> None"
  using assms
  by (auto simp: acquireNextImage_def andThen_def ASSERT_def ret_def stop_def
        split: if_splits sum.splits)

lemma waited_use:
  "useAfter fence Unwaited (vkWaitForFences f) \<in> {Unwaited, WaitedOnce}"
  "useAfter fence (useAfter fence Unwaited (vkWaitForFences f)) (vkResetFences f) = Unwaited"
  by simp_all

lemma drawFrame_fence:
  assumes "\<And>n. vkAcquireResultAt env n \<noteq> VK_ERROR_OUT_OF_DATE_KHR"
  shows "fenceOutcome fence Unwaited s (drawFrame env s) Unwaited {Unwaited, WaitedOnce}"
proof (cases "isRunning s \<and> MAX_FRAMES_IN_FLIGHT env \<noteq> 0")
  case False
  then show ?thesis
    by (auto simp: drawFrame_def fenceOutcome_def fenceGoes_def callsKept_def callsSince_def)
next
  case True
  have tail: "fenceOutcome fence (useAfter fence Unwaited (vkWaitForFences f)) s5
      (andThen (\<lambda>s. updateUniformBuffer env (currentFrame s) s) (\<lambda>_.
       andThen (processLoadedMeshes env) (\<lambda>_.
       andThen (vkVoid (vkResetFences f)) k)) s5) Unwaited {Unwaited, WaitedOnce}"
    if k: "\<And>u s6. emitting quiet s6 (k u s6)"
    for f s5 and k :: "unit \<Rightarrow> unit action"
  proof (intro fenceOutcome_andThen)
    show "fenceOutcome fence (useAfter fence Unwaited (vkWaitForFences f)) s5
            (updateUniformBuffer env (currentFrame s5) s5)
            (useAfter fence Unwaited (vkWaitForFences f)) {Unwaited, WaitedOnce}"
      by (rule fenceOutcome_quiet)
         (rule emitting_housekeeping_quiet [OF updateUniformBuffer_emitting], rule waited_use)
    show "fenceOutcome fence (useAfter fence Unwaited (vkWaitForFences f)) s1
            (processLoadedMeshes env s1)
            (useAfter fence Unwaited (vkWaitForFences f)) {Unwaited, WaitedOnce}" for s1
      by (rule fenceOutcome_quiet) (rule processLoadedMeshes_emitting, rule waited_use)
    show "fenceOutcome fence (useAfter fence Unwaited (vkWaitForFences f)) s1
            (vkVoid (vkResetFences f) s1)
            (useAfter fence (useAfter fence Unwaited (vkWaitForFences f)) (vkResetFences f))
            {Unwaited, WaitedOnce}" for s1
      by (rule fenceOutcome_vkVoid)
    show "fenceOutcome fence
            (useAfter fence (useAfter fence Unwaited (vkWaitForFences f)) (vkResetFences f))
            s1 (k u s1) Unwaited {Unwaited, WaitedOnce}" for u s1
      unfolding waited_use by (rule fenceOutcome_quiet) (rule k, simp)
  qed
  show ?thesis
    using True unfolding drawFrame_def
    apply (simp del: useAfter.simps)
    apply (rule fenceOutcome_andThen [where b = Unwaited])
     apply (rule fenceOutcome_quiet)
      apply (simp add: modify_def emits_same)
     apply simp
    apply (rule fenceOutcome_andThen [where b = Unwaited])
     apply (rule fenceOutcome_quiet)
      apply (rule emitting_housekeeping_quiet [OF cleanupFrameResources_emitting])
     apply simp
    apply (rule fenceOutcome_andThen [where b = Unwaited])
     apply (rule fenceOutcome_quiet)
      apply simp
     apply simp
    apply (rule fenceOutcome_andThen)
     apply (rule fenceOutcome_vkVoid)
    apply (rule fenceOutcome_andThen)
     apply (rule fenceOutcome_quiet)
      apply (rule acquireNextImage_emitting)
     apply (rule waited_use)
    subgoal for u1 s1 u2 s2 f s3 u4 s4 imageIndex s5
      apply (frule acquireNextImage_image [OF assms])
      apply (cases imageIndex)
       apply simp
      apply (simp del: useAfter.simps)
      apply (rule tail)
      apply (intro emitting_intros getCommandBuffer_emitting recordCommandBuffer_emitting
          threadSafeQueueSubmit_emitting
          emitting_housekeeping_quiet [OF resetCommandBuffer_emitting]
          emitting_housekeeping_quiet [OF recreateSwapChain_emitting] allI impI conjI
        | simp add: quiet_def threadSafePresent_def emits_same split: prod.splits sum.splits option.splits)+
      done
    done
qed

lemma handleEvent_fence:
  assumes "\<And>n. vkAcquireResultAt env n \<noteq> VK_ERROR_OUT_OF_DATE_KHR"
  shows "fenceOutcome fence Unwaited s (handleEvent env ev s) Unwaited {Unwaited, WaitedOnce}"
proof (cases ev)
  case DrawFrame
  then show ?thesis
    using drawFrame_fence [OF assms] by simp
next
  case (ImportMesh meshPath newMesh)
  then show ?thesis
    by (simp add: importMesh_def modify_def fenceOutcome_def fenceGoes_def callsKept_def
          callsSince_def)
next
  case WindowResized
  then show ?thesis
    by (simp add: onResize_def modify_def fenceOutcome_def fenceGoes_def callsKept_def
          callsSince_def)
next
  case ApplicationQuit
  then show ?thesis
    by (simp add: onApplicationQuit_def modify_def fenceOutcome_def fenceGoes_def callsKept_def
          callsSince_def)
qed

text \<open>
  C2, as the code has it. Over any sequence of frames, imports, resizes and a quit, on a
  device whose image acquisition never reports the surface out of date (so that no frame is
  skipped), no fence is waited on again before it has been reset: when the sequence returns
  every fence has been reset since its last wait, and when it stops on a fatal error the
  fence has been waited on at most once since its last reset. This holds of the fence of
  every frame slot. A skipped frame is outside this statement: it waits on the fence of its
  slot and returns before the reset.
\<close>

theorem fence_reset_between_waits:
  assumes "\<forall>n. vkAcquireResultAt env n \<noteq> VK_ERROR_OUT_OF_DATE_KHR"
  shows "case run env events s of
           Inr (u, s') \<Rightarrow>
             callsKept s s' \<and> fenceUseAfter fence Unwaited (callsSince s s') = Unwaited
         | Inl (e, s') \<Rightarrow>
             callsKept s s' \<and> fenceUseAfter fence Unwaited (callsSince s s') \<noteq> WaitedAgain"
proof -
  have step: "fenceOutcome fence Unwaited s (forEach events (handleEvent env) s) Unwaited
                {Unwaited, WaitedOnce}" for s
  proof (induction events arbitrary: s)
    case Nil
    show ?case
      by (simp add: ret_def fenceOutcome_def fenceGoes_def callsKept_def callsSince_def)
  next
    case (Cons ev events)
    show ?case
      unfolding forEach.simps
      by (rule fenceOutcome_andThen [where b = Unwaited])
         (use assms in \<open>simp_all add: handleEvent_fence Cons.IH\<close>)
  qed
  show ?thesis
    using step [of s]
    by (auto simp: run_def fenceOutcome_def fenceGoes_def split: sum.splits)
qed

theorem fence_reset_between_waits_witness:
  "(\<forall>n. vkAcquireResultAt exampleEnv n \<noteq> VK_ERROR_OUT_OF_DATE_KHR) \<and>
   (\<exists>s'. run exampleEnv [DrawFrame, DrawFrame, DrawFrame] exampleRenderer = Inr ((), s') \<and>
      fenceUseAfter 6 Unwaited (callsSince exampleRenderer s') = Unwaited \<and>
      filter fenceCall (calls s') =
        [vkWaitForFences 6, vkResetFences 6, vkWaitForFences 5, vkResetFences 5,
         vkWaitForFences 6, vkResetFences 6])"
proof -
  have never: "\<forall>n. vkAcquireResultAt exampleEnv n \<noteq> VK_ERROR_OUT_OF_DATE_KHR"
    by (simp add: exampleEnv_def)
  have "\<exists>s'. run exampleEnv [DrawFrame, DrawFrame, DrawFrame] exampleRenderer = Inr ((), s') \<and>
      filter fenceCall (calls s') =
        [vkWaitForFences 6, vkResetFences 6, vkWaitForFences 5, vkResetFences 5,
         vkWaitForFences 6, vkResetFences 6]"
    by (simp add: evaluate examples Let_def)
  then obtain s' where
    returns: "run exampleEnv [DrawFrame, DrawFrame, DrawFrame] exampleRenderer = Inr ((), s')"
    and waits: "filter fenceCall (calls s') =
        [vkWaitForFences 6, vkResetFences 6, vkWaitForFences 5, vkResetFences 5,
         vkWaitForFences 6, vkResetFences 6]"
    by blast
  from fence_reset_between_waits
         [OF never, where events = "[DrawFrame, DrawFrame, DrawFrame]"
            and s = exampleRenderer and fence = 6]
  have "fenceUseAfter 6 Unwaited (callsSince exampleRenderer s') = Unwaited"
    by (simp add: returns)
  with never returns waits show ?thesis
    by blast
qed

text \<open>
  The claim as stated fails on skipped frames. With two frame slots and every acquisition
  out of date, three frames return, and the fence of slot 1 is waited on by the first frame
  and again by the third, with no reset of any fence in between.
\<close>

theorem skipped_frame_leaves_fence_unreset:
  "returned (run staleEnv [DrawFrame, DrawFrame, DrawFrame] exampleRenderer) \<and>
   inFlightFences exampleRenderer ! 1 = 6 \<and>
   filter fenceCall
     (callsSince exampleRenderer
        (stateAfter (run staleEnv [DrawFrame, DrawFrame, DrawFrame] exampleRenderer))) =
     [vkWaitForFences 6, vkWaitForFences 5, vkWaitForFences 6] \<and>
   fenceUseAfter 6 Unwaited
     (callsSince exampleRenderer
        (stateAfter (run staleEnv [DrawFrame, DrawFrame, DrawFrame] exampleRenderer))) =
     WaitedAgain"
  by (simp add: evaluate examples Let_def callsSince_def returned_def stateAfter_def)

section \<open>Image acquisition on a stale surface\<close>

lemma destroyDeferred_result:
  "destroyDeferred entry s =
     Inr ((), s\<lparr>calls := calls s @ [vkDestroyBuffer (fst entry), vkFreeMemory (snd entry)]\<rparr>)"
  by (simp add: destroyDeferred_def andThen_def vkVoid_def)

lemma forEach_destroyDeferred:
  "forEach entries destroyDeferred s = Inr ((), s\<lparr>calls := calls s @ destroyCalls entries\<rparr>)"
proof (induction entries arbitrary: s)
  case Nil
  show ?case
    by (simp add: ret_def destroyCalls_def)
next
  case (Cons entry entries)
  have "forEach (entry # entries) destroyDeferred s =
        forEach entries destroyDeferred
          (s\<lparr>calls := calls s @ [vkDestroyBuffer (fst entry), vkFreeMemory (snd entry)]\<rparr>)"
    unfolding forEach.simps andThen_def
    by (subst destroyDeferred_result) simp
  then show ?case
    unfolding Cons.IH by (simp add: destroyCalls_def)
qed

lemma cleanupFrameResources_result:
  assumes "(currentFrame s + 1) mod MAX_FRAMES_IN_FLIGHT env < length (frames s)"
  shows "cleanupFrameResources env s =
     Inr ((), s\<lparr>frames := (frames s)
                   [(currentFrame s + 1) mod MAX_FRAMES_IN_FLIGHT env :=
                      (frames s ! ((currentFrame s + 1) mod MAX_FRAMES_IN_FLIGHT env))
                        \<lparr>buffersToDelete := []\<rparr>],
                 calls := calls s @ destroyCalls (buffersToDelete
                   (frames s ! ((currentFrame s + 1) mod MAX_FRAMES_IN_FLIGHT env)))\<rparr>)"
  using assms
  by (simp add: cleanupFrameResources_def Let_def andThen_def forEach_destroyDeferred modify_def)

lemma andThen_unit_ret:
  "andThen (andThen m (\<lambda>_. ret None)) (\<lambda>imageIndex. case imageIndex of None \<Rightarrow> ret () | Some i \<Rightarrow> f i) s
     = m s" for m :: "unit action"
  by (cases "m s") (auto simp: andThen_def ret_def)

lemma drawFrame_stale:
  assumes "isRunning s" and "wellFormed env s"
    and stale: "\<forall>n. vkAcquireResultAt env n = VK_ERROR_OUT_OF_DATE_KHR"
  shows "drawFrame env s = recreateSwapChain env (afterAcquire env s)"
proof -
  let ?N = "MAX_FRAMES_IN_FLIGHT env"
  let ?slot = "(currentFrame s + 1) mod ?N"
  have N: "0 < ?N" and lens: "length (frames s) = ?N" "length (inFlightFences s) = ?N"
    "length (imageAvailableSemaphores s) = ?N"
    using assms(2) by (simp_all add: wellFormed_def)
  have slot: "?slot < ?N" and clean: "(?slot + 1) mod ?N < ?N"
    using N by simp_all
  show ?thesis
    using assms(1) N slot clean lens stale
    apply (simp add: drawFrame_def andThen_def modify_def cleanupFrameResources_result
        at_index_def ret_def vkVoid_def acquireNextImage_def ASSERT_def)
    apply (simp add: afterAcquire_def Let_def ret_def split: sum.splits)
    done
qed


lemma emitting_after: "emits P s s1 \<Longrightarrow> emitting P s1 r \<Longrightarrow> emitting P s r"
  by (cases r) (auto intro: emits_trans)

lemma emitting_any: "emitting P s r \<Longrightarrow> emitting (\<lambda>c. True) s r"
  by (erule emitting_mono) simp

lemma destroyCalls_housekeeping: "list_all housekeeping (destroyCalls entries)"
  by (induction entries) (simp_all add: destroyCalls_def)

lemma housekeeping_not_drawing: "housekeeping c \<Longrightarrow> \<not> drawsOrPresents c"
  by (cases c) (simp_all add: drawsOrPresents_def)

lemma afterAcquire_emits:
  "emits (\<lambda>c. \<not> drawsOrPresents c) s (afterAcquire env s)"
proof -
  have "list_all (\<lambda>c. \<not> drawsOrPresents c) (destroyCalls entries)" for entries
    using destroyCalls_housekeeping [of entries]
    by (auto simp: list_all_iff housekeeping_not_drawing)
  then show ?thesis
    by (simp add: emits_def callsKept_def callsSince_def afterAcquire_def Let_def
          drawsOrPresents_def)
qed

lemma mentions_first:
  assumes "mentions Q s (m s)"
    and "\<And>x s1. emitting P s1 (f x s1)"
  shows "mentions Q s (andThen m f s)"
proof (cases "m s")
  case (Inl stopped)
  then show ?thesis
    by (simp add: andThen_def mentions_def)
next
  case (Inr returned)
  obtain x s1 where returned: "returned = (x, s1)"
    by (cases returned)
  have kept: "callsKept s s1" and found: "\<exists>c \<in> set (callsSince s s1). Q c"
    using assms(1) Inr returned by (simp_all add: mentions_def)
  show ?thesis
  proof (cases "f x s1")
    case (Inl stopped)
    then show ?thesis
      using Inr returned by (simp add: andThen_def mentions_def)
  next
    case inner: (Inr v)
    have "emits P s1 (snd v)"
      using assms(2) [of s1 x] inner by (cases v) simp
    then have "callsKept s1 (snd v)"
      by (simp add: emits_def)
    from callsKept_trans [OF kept this] found
    have "callsKept s (snd v) \<and> (\<exists>c \<in> set (callsSince s (snd v)). Q c)"
      by auto
    then show ?thesis
      using Inr returned inner by (simp add: andThen_def mentions_def)
  qed
qed

lemma mentions_later:
  assumes "emitting P s (m s)"
    and "\<And>x s1. m s = Inr (x, s1) \<Longrightarrow> mentions Q s1 (f x s1)"
  shows "mentions Q s (andThen m f s)"
proof (cases "m s")
  case (Inl stopped)
  then show ?thesis
    by (simp add: andThen_def mentions_def)
next
  case (Inr returned)
  obtain x s1 where returned: "returned = (x, s1)"
    by (cases returned)
  have "emits P s s1"
    using assms(1) Inr returned by simp
  then have kept: "callsKept s s1"
    by (simp add: emits_def)
  show ?thesis
  proof (cases "f x s1")
    case (Inl stopped)
    then show ?thesis
      using Inr returned by (simp add: andThen_def mentions_def)
  next
    case inner: (Inr v)
    have "callsKept s1 (snd v)" and "\<exists>c \<in> set (callsSince s1 (snd v)). Q c"
      using assms(2) [of x s1] Inr returned inner by (simp_all add: mentions_def)
    with callsKept_trans [OF kept, of "snd v"]
    have "callsKept s (snd v) \<and> (\<exists>c \<in> set (callsSince s (snd v)). Q c)"
      by auto
    then show ?thesis
      using Inr returned inner by (simp add: andThen_def mentions_def)
  qed
qed

lemma mentions_vkVoid: "Q c \<Longrightarrow> mentions Q s (vkVoid c s)"
  by (simp add: mentions_def vkVoid_def callsKept_def callsSince_def)

lemma mentions_vkResult: "Q c \<Longrightarrow> mentions Q s (vkResult env c s)"
  by (simp add: mentions_def vkResult_def callsKept_def callsSince_def)

lemmas quiet_steps =
  emitting_housekeeping_quiet [OF cleanupFrameResources_emitting]
  acquireNextImage_emitting
  emitting_housekeeping_quiet [OF updateUniformBuffer_emitting]
  processLoadedMeshes_emitting
  getCommandBuffer_emitting
  emitting_housekeeping_quiet [OF resetCommandBuffer_emitting]
  recordCommandBuffer_emitting
  threadSafeQueueSubmit_emitting
  emitting_housekeeping_quiet [OF recreateSwapChain_emitting]
  drawModel_emitting

lemmas any_steps = quiet_steps [THEN emitting_any]

lemma recordCommandBuffer_mentions:
  "mentions beginsRecording s (recordCommandBuffer env commandBuffer imageIndex s)"
  unfolding recordCommandBuffer_def
  apply (rule mentions_first [where P = "\<lambda>c. True"])
   apply (rule mentions_vkResult, simp)
  apply (intro emitting_intros any_steps allI impI conjI
      | simp split: prod.splits sum.splits option.splits)+
  done

lemma threadSafePresent_mentions: "mentions presents s (threadSafePresent env imageIndex s)"
  unfolding threadSafePresent_def by (rule mentions_vkResult) simp

lemma threadSafeQueueSubmit_mentions:
  "mentions submits s (threadSafeQueueSubmit env commandBuffer fence s)"
  unfolding threadSafeQueueSubmit_def
  apply (rule mentions_first [where P = "\<lambda>c. True"])
   apply (rule mentions_vkResult, simp)
  apply (intro emitting_intros any_steps allI impI conjI
      | simp split: prod.splits sum.splits option.splits)+
  done

lemma drawFrame_mentions:
  assumes "isRunning s" and "0 < MAX_FRAMES_IN_FLIGHT env"
    and "\<And>n. vkAcquireResultAt env n \<noteq> VK_ERROR_OUT_OF_DATE_KHR"
  shows "mentions beginsRecording s (drawFrame env s)"
    and "mentions submits s (drawFrame env s)"
    and "mentions presents s (drawFrame env s)"
proof -
  have later: "mentions Q s0 (andThen m f s0)"
    if "emitting (\<lambda>c. True) s0 (m s0)" and "\<And>x s1. m s0 = Inr (x, s1) \<Longrightarrow> mentions Q s1 (f x s1)"
    for Q s0 and m :: "'b action" and f :: "'b \<Rightarrow> unit action"
    using that by (rule mentions_later)
  have first: "mentions Q s0 (andThen m f s0)"
    if "mentions Q s0 (m s0)" and "\<And>x s1. emitting (\<lambda>c. True) s1 (f x s1)"
    for Q s0 and m :: "'b action" and f :: "'b \<Rightarrow> unit action"
    using that by (rule mentions_first)
  note solve = emitting_intros any_steps
  show "mentions presents s (drawFrame env s)"
    using assms(1,2) unfolding drawFrame_def
    apply simp
    apply (rule later, (intro solve | simp)+)
    apply (rule later, (intro solve | simp)+)
    apply (rule later, (intro solve | simp)+)
    apply (rule later, (intro solve | simp)+)
    apply (rule later, (intro solve | simp)+)
    subgoal
      apply (frule acquireNextImage_image [OF assms(3)])
      apply clarsimp
      apply (rule later, (intro solve | simp)+)
      apply (rule later, (intro solve | simp)+)
      apply (rule later, (intro solve | simp)+)
      apply (rule later, (intro solve | simp)+)
      apply (rule later, (intro solve | simp)+)
      apply (rule later, (intro solve | simp)+)
      apply (rule later, (intro solve | simp)+)
      apply (rule later, (intro solve | simp)+)
      apply (rule later, (intro solve | simp)+)
      apply (rule later, (intro solve | simp)+)
      apply (rule first)
       apply (rule threadSafePresent_mentions)
      apply (intro solve allI impI conjI | simp split: prod.splits sum.splits option.splits)+
      done
    done
  show "mentions submits s (drawFrame env s)"
    using assms(1,2) unfolding drawFrame_def
    apply simp
    apply (rule later, (intro solve | simp)+)
    apply (rule later, (intro solve | simp)+)
    apply (rule later, (intro solve | simp)+)
    apply (rule later, (intro solve | simp)+)
    apply (rule later, (intro solve | simp)+)
    subgoal
      apply (frule acquireNextImage_image [OF assms(3)])
      apply clarsimp
      apply (rule later, (intro solve | simp)+)
      apply (rule later, (intro solve | simp)+)
      apply (rule later, (intro solve | simp)+)
      apply (rule later, (intro solve | simp)+)
      apply (rule later, (intro solve | simp)+)
      apply (rule later, (intro solve | simp)+)
      apply (rule later, (intro solve | simp)+)
      apply (rule later, (intro solve | simp)+)
      apply (rule first)
       apply (rule threadSafeQueueSubmit_mentions)
      apply (intro solve allI impI conjI
        | simp add: threadSafePresent_def split: prod.splits sum.splits option.splits)+
      done
    done
  show "mentions beginsRecording s (drawFrame env s)"
    using assms(1,2) unfolding drawFrame_def
    apply simp
    apply (rule later, (intro solve | simp)+)
    apply (rule later, (intro solve | simp)+)
    apply (rule later, (intro solve | simp)+)
    apply (rule later, (intro solve | simp)+)
    apply (rule later, (intro solve | simp)+)
    subgoal
      apply (frule acquireNextImage_image [OF assms(3)])
      apply clarsimp
      apply (rule later, (intro solve | simp)+)
      apply (rule later, (intro solve | simp)+)
      apply (rule later, (intro solve | simp)+)
      apply (rule later, (intro solve | simp)+)
      apply (rule later, (intro solve | simp)+)
      apply (rule first)
       apply (rule recordCommandBuffer_mentions)
      apply (intro solve allI impI conjI
        | simp add: threadSafePresent_def split: prod.splits sum.splits option.splits)+
      done
    done
qed

subsection \<open>A suboptimal acquisition is handled as a successful one\<close>

text \<open>
  Only \<open>acquireNextImage\<close> reads the result of the acquisition: every other part of the
  frame is the same on \<open>asSuccess env\<close> as on \<open>env\<close>.
\<close>

lemma asSuccess_fields:
  "MAX_FRAMES_IN_FLIGHT (asSuccess env) = MAX_FRAMES_IN_FLIGHT env"
  "sizeof_Vertex (asSuccess env) = sizeof_Vertex env"
  "Matrix4x4_default (asSuccess env) = Matrix4x4_default env"
  "vkResultAt (asSuccess env) = vkResultAt env"
  "vkHandleAt (asSuccess env) = vkHandleAt env"
  "vkImageIndexAt (asSuccess env) = vkImageIndexAt env"
  "vkMemoryRequirementsAt (asSuccess env) = vkMemoryRequirementsAt env"
  "vkDescriptorSetAt (asSuccess env) = vkDescriptorSetAt env"
  "surfaceCapabilitiesAt (asSuccess env) = surfaceCapabilitiesAt env"
  "windowInfoAt (asSuccess env) = windowInfoAt env"
  "memProperties (asSuccess env) = memProperties env"
  "optimalTilingFeatures (asSuccess env) = optimalTilingFeatures env"
  "graphicsFamily (asSuccess env) = graphicsFamily env"
  "presentFamily (asSuccess env) = presentFamily env"
  "this_thread (asSuccess env) = this_thread env"
  "lookAt (asSuccess env) = lookAt env"
  "perspective (asSuccess env) = perspective env"
  "addNewMesh (asSuccess env) = addNewMesh env"
  by (simp_all add: asSuccess_def)

lemma vkResult_asSuccess: "vkResult (asSuccess env) = vkResult env"
  by (intro ext) (simp only: vkResult_def asSuccess_fields)

lemma vkCreate_asSuccess: "vkCreate (asSuccess env) = vkCreate env"
  by (intro ext) (simp only: vkCreate_def asSuccess_fields)

lemma vkGetMemoryRequirements_asSuccess:
  "vkGetMemoryRequirements (asSuccess env) = vkGetMemoryRequirements env"
  by (intro ext) (simp only: vkGetMemoryRequirements_def asSuccess_fields)

lemma findMemoryType_asSuccess: "findMemoryType (asSuccess env) = findMemoryType env"
  by (intro ext) (simp only: findMemoryType_def asSuccess_fields)

lemma createBuffer_asSuccess: "createBuffer (asSuccess env) = createBuffer env"
  by (intro ext)
     (simp only: createBuffer_def asSuccess_fields vkCreate_asSuccess
        vkGetMemoryRequirements_asSuccess findMemoryType_asSuccess)

lemma createImage_asSuccess: "createImage (asSuccess env) = createImage env"
  by (intro ext)
     (simp only: createImage_def asSuccess_fields vkCreate_asSuccess
        vkGetMemoryRequirements_asSuccess findMemoryType_asSuccess)

lemma createCommandPool_asSuccess: "createCommandPool (asSuccess env) = createCommandPool env"
  by (simp only: createCommandPool_def asSuccess_fields vkCreate_asSuccess)

lemma getCommandPool_asSuccess: "getCommandPool (asSuccess env) = getCommandPool env"
  by (intro ext) (simp only: getCommandPool_def asSuccess_fields createCommandPool_asSuccess)

lemma threadSafeQueueSubmit_asSuccess:
  "threadSafeQueueSubmit (asSuccess env) = threadSafeQueueSubmit env"
  by (intro ext) (simp only: threadSafeQueueSubmit_def vkResult_asSuccess)

lemma threadSafePresent_asSuccess: "threadSafePresent (asSuccess env) = threadSafePresent env"
  by (intro ext) (simp only: threadSafePresent_def vkResult_asSuccess)

lemma beginSingleTimeCommands_asSuccess:
  "beginSingleTimeCommands (asSuccess env) = beginSingleTimeCommands env"
  by (simp only: beginSingleTimeCommands_def getCommandPool_asSuccess vkCreate_asSuccess)

lemma endSingleTimeCommands_asSuccess:
  "endSingleTimeCommands (asSuccess env) = endSingleTimeCommands env"
  by (intro ext)
     (simp only: endSingleTimeCommands_def getCommandPool_asSuccess threadSafeQueueSubmit_asSuccess)

lemma copyBuffer_asSuccess: "copyBuffer (asSuccess env) = copyBuffer env"
  by (intro ext)
     (simp only: copyBuffer_def beginSingleTimeCommands_asSuccess endSingleTimeCommands_asSuccess)

lemma createVertexBuffer_asSuccess: "createVertexBuffer (asSuccess env) = createVertexBuffer env"
  by (intro ext)
     (simp only: createVertexBuffer_def asSuccess_fields createBuffer_asSuccess copyBuffer_asSuccess)

lemma createIndexBuffer_asSuccess: "createIndexBuffer (asSuccess env) = createIndexBuffer env"
  by (intro ext)
     (simp only: createIndexBuffer_def asSuccess_fields createBuffer_asSuccess copyBuffer_asSuccess)

lemma createDescriptorSets_part_asSuccess:
  "createDescriptorSets_part (asSuccess env) = createDescriptorSets_part env"
  by (intro ext)
     (simp only: createDescriptorSets_part_def asSuccess_fields vkCreate_asSuccess)

lemma createDescriptorSets_asSuccess:
  "createDescriptorSets (asSuccess env) = createDescriptorSets env"
  by (intro ext)
     (simp only: createDescriptorSets_def createDescriptorSets_part_asSuccess)

lemma drainQueue_asSuccess: "drainQueue (asSuccess env) queue owns = drainQueue env queue owns"
  by (induction queue arbitrary: owns) (simp_all only: drainQueue.simps asSuccess_fields)

lemma processLoadedMeshes_asSuccess:
  "processLoadedMeshes (asSuccess env) = processLoadedMeshes env"
  by (intro ext)
     (simp only: processLoadedMeshes_def drainQueue_asSuccess createVertexBuffer_asSuccess
        createIndexBuffer_asSuccess createDescriptorSets_asSuccess)

lemma updateUniformBuffer_asSuccess:
  "updateUniformBuffer (asSuccess env) = updateUniformBuffer env"
  by (intro ext) (simp only: updateUniformBuffer_def asSuccess_fields)

lemma resetCommandBuffer_asSuccess:
  "resetCommandBuffer (asSuccess env) = resetCommandBuffer env"
  by (intro ext) (simp only: resetCommandBuffer_def vkResult_asSuccess)

lemma recordCommandBuffer_asSuccess:
  "recordCommandBuffer (asSuccess env) = recordCommandBuffer env"
  by (intro ext) (simp only: recordCommandBuffer_def vkResult_asSuccess)

lemma rebuildStep_asSuccess: "rebuildStep (asSuccess env) = rebuildStep env"
  by (intro ext) (simp only: rebuildStep_def vkResult_asSuccess)

lemma createSwapChain_asSuccess: "createSwapChain (asSuccess env) = createSwapChain env"
  by (simp only: createSwapChain_def vkResult_asSuccess asSuccess_fields)

lemma recreateSwapChain_asSuccess: "recreateSwapChain (asSuccess env) = recreateSwapChain env"
  by (simp only: recreateSwapChain_def createColorResources_def createDepthResources_def
        createSwapChain_asSuccess rebuildStep_asSuccess createImage_asSuccess)

lemma cleanupFrameResources_asSuccess:
  "cleanupFrameResources (asSuccess env) = cleanupFrameResources env"
  by (intro ext) (simp only: cleanupFrameResources_def asSuccess_fields)

lemma acquireNextImage_suboptimal:
  assumes "vkAcquireResultAt env (length (calls s)) = VK_SUBOPTIMAL_KHR \<or>
           vkAcquireResultAt env (length (calls s)) = VK_SUCCESS"
    and "currentFrame s < length (imageAvailableSemaphores s)"
  shows "acquireNextImage env s =
           Inr (Some (vkImageIndexAt env (length (calls s))),
                s\<lparr>calls := calls s @ [vkAcquireNextImageKHR (imageAvailableSemaphores s ! currentFrame s)]\<rparr>)"
  using assms by (auto simp: acquireNextImage_def andThen_def ASSERT_def ret_def)

lemma acquireNextImage_asSuccess:
  assumes "\<forall>n. vkAcquireResultAt env n = VK_SUBOPTIMAL_KHR"
  shows "acquireNextImage (asSuccess env) s = acquireNextImage env s"
proof (cases "currentFrame s < length (imageAvailableSemaphores s)")
  case True
  have "vkAcquireResultAt (asSuccess env) (length (calls s)) = VK_SUCCESS"
    by (simp add: asSuccess_def)
  then show ?thesis
    using assms True
    by (simp add: acquireNextImage_suboptimal asSuccess_fields)
next
  case False
  then show ?thesis
    by (simp add: acquireNextImage_def andThen_def ASSERT_def stop_def)
qed

lemma drawFrame_asSuccess:
  assumes "\<forall>n. vkAcquireResultAt env n = VK_SUBOPTIMAL_KHR"
  shows "drawFrame (asSuccess env) s = drawFrame env s"
proof -
  have "acquireNextImage (asSuccess env) = acquireNextImage env"
    by (intro ext) (rule acquireNextImage_asSuccess [OF assms])
  then show ?thesis
    by (simp only: drawFrame_def asSuccess_fields cleanupFrameResources_asSuccess
          updateUniformBuffer_asSuccess processLoadedMeshes_asSuccess resetCommandBuffer_asSuccess
          recordCommandBuffer_asSuccess threadSafeQueueSubmit_asSuccess threadSafePresent_asSuccess
          recreateSwapChain_asSuccess)
qed

text \<open>
  C3, as the code has it. A running, well-formed renderer draws a frame. If the
  acquisition reports the surface out of date, the frame is the start of a frame (advance,
  deferred destruction, wait, acquisition) followed by swapchain recreation and nothing
  else: it returns exactly when the recreation returns, and none of its calls begins
  recording a command buffer, submits or presents. If the acquisition reports the surface
  suboptimal, \<open>acquireNextImage\<close> returns the image and does nothing but the one
  acquisition call, so it neither stops the process nor recreates the swapchain; the frame
  is then the frame that a successful acquisition gives, and whenever it returns it has
  recorded a command buffer, submitted it and presented.
\<close>

theorem stale_acquire_skips_frame:
  assumes "isRunning s" and "wellFormed env s"
  shows "((\<forall>n. vkAcquireResultAt env n = VK_ERROR_OUT_OF_DATE_KHR) \<longrightarrow>
            drawFrame env s = recreateSwapChain env (afterAcquire env s) \<and>
            emitting (\<lambda>c. \<not> drawsOrPresents c) s (drawFrame env s)) \<and>
         ((\<forall>n. vkAcquireResultAt env n = VK_SUBOPTIMAL_KHR) \<longrightarrow>
            (\<forall>s1. currentFrame s1 < length (imageAvailableSemaphores s1) \<longrightarrow>
               acquireNextImage env s1 =
                 Inr (Some (vkImageIndexAt env (length (calls s1))),
                      s1\<lparr>calls := calls s1 @
                        [vkAcquireNextImageKHR (imageAvailableSemaphores s1 ! currentFrame s1)]\<rparr>)) \<and>
            drawFrame env s = drawFrame (asSuccess env) s \<and>
            mentions beginsRecording s (drawFrame env s) \<and>
            mentions submits s (drawFrame env s) \<and>
            mentions presents s (drawFrame env s))"
proof (intro conjI impI allI)
  assume stale: "\<forall>n. vkAcquireResultAt env n = VK_ERROR_OUT_OF_DATE_KHR"
  show skipped: "drawFrame env s = recreateSwapChain env (afterAcquire env s)"
    using assms stale by (rule drawFrame_stale)
  have "emitting (\<lambda>c. \<not> drawsOrPresents c) (afterAcquire env s)
          (recreateSwapChain env (afterAcquire env s))"
    by (rule emitting_mono [OF recreateSwapChain_emitting]) (rule housekeeping_not_drawing)
  with afterAcquire_emits [of s env]
  show "emitting (\<lambda>c. \<not> drawsOrPresents c) s (drawFrame env s)"
    unfolding skipped by (rule emitting_after)
next
  fix s1 :: renderer
  assume "\<forall>n. vkAcquireResultAt env n = VK_SUBOPTIMAL_KHR"
    and "currentFrame s1 < length (imageAvailableSemaphores s1)"
  then show "acquireNextImage env s1 =
      Inr (Some (vkImageIndexAt env (length (calls s1))),
           s1\<lparr>calls := calls s1 @
             [vkAcquireNextImageKHR (imageAvailableSemaphores s1 ! currentFrame s1)]\<rparr>)"
    by (simp add: acquireNextImage_suboptimal)
next
  assume "\<forall>n. vkAcquireResultAt env n = VK_SUBOPTIMAL_KHR"
  then show "drawFrame env s = drawFrame (asSuccess env) s"
    by (simp add: drawFrame_asSuccess)
next
  assume suboptimal: "\<forall>n. vkAcquireResultAt env n = VK_SUBOPTIMAL_KHR"
  have N: "0 < MAX_FRAMES_IN_FLIGHT env"
    using assms(2) by (simp add: wellFormed_def)
  have image: "vkAcquireResultAt env n \<noteq> VK_ERROR_OUT_OF_DATE_KHR" for n
    using suboptimal by simp
  show "mentions beginsRecording s (drawFrame env s)"
    using assms(1) N image by (rule drawFrame_mentions)
  show "mentions submits s (drawFrame env s)"
    using assms(1) N image by (rule drawFrame_mentions)
  show "mentions presents s (drawFrame env s)"
    using assms(1) N image by (rule drawFrame_mentions)
qed

theorem stale_acquire_skips_frame_witness:
  "isRunning exampleRenderer \<and> wellFormed staleEnv exampleRenderer \<and>
   wellFormed suboptimalEnv exampleRenderer \<and>
   (\<forall>n. vkAcquireResultAt staleEnv n = VK_ERROR_OUT_OF_DATE_KHR) \<and>
   (\<forall>n. vkAcquireResultAt suboptimalEnv n = VK_SUBOPTIMAL_KHR) \<and>
   currentFrame exampleRenderer < length (imageAvailableSemaphores exampleRenderer) \<and>
   returned (drawFrame staleEnv exampleRenderer) \<and>
   drawFrame staleEnv exampleRenderer =
     recreateSwapChain staleEnv (afterAcquire staleEnv exampleRenderer) \<and>
   list_all (\<lambda>c. \<not> drawsOrPresents c)
     (callsSince exampleRenderer (stateAfter (drawFrame staleEnv exampleRenderer))) \<and>
   acquireNextImage suboptimalEnv exampleRenderer =
     Inr (Some 0, exampleRenderer\<lparr>calls := [vkAcquireNextImageKHR 1]\<rparr>) \<and>
   drawFrame suboptimalEnv exampleRenderer = drawFrame (asSuccess suboptimalEnv) exampleRenderer \<and>
   returned (drawFrame suboptimalEnv exampleRenderer) \<and>
   (\<exists>c \<in> set (callsSince exampleRenderer (stateAfter (drawFrame suboptimalEnv exampleRenderer))).
      presents c)"
proof -
  have running: "isRunning exampleRenderer"
    by (simp add: exampleRenderer_def)
  have formed: "wellFormed staleEnv exampleRenderer" "wellFormed suboptimalEnv exampleRenderer"
    by (simp_all add: wellFormed_def examples)
  have always: "\<forall>n. vkAcquireResultAt staleEnv n = VK_ERROR_OUT_OF_DATE_KHR"
    "\<forall>n. vkAcquireResultAt suboptimalEnv n = VK_SUBOPTIMAL_KHR"
    by (simp_all add: examples)
  have slot: "currentFrame exampleRenderer < length (imageAvailableSemaphores exampleRenderer)"
    by (simp add: exampleRenderer_def)
  have "\<exists>s'. drawFrame staleEnv exampleRenderer = Inr ((), s')"
    by (simp add: evaluate examples Let_def)
  then obtain s1 where stale: "drawFrame staleEnv exampleRenderer = Inr ((), s1)" ..
  have "\<exists>s'. drawFrame suboptimalEnv exampleRenderer = Inr ((), s')"
    by (simp add: evaluate examples Let_def)
  then obtain s2 where suboptimal: "drawFrame suboptimalEnv exampleRenderer = Inr ((), s2)" ..
  from stale_acquire_skips_frame [OF running formed(1)] always(1)
  have skipped: "drawFrame staleEnv exampleRenderer =
       recreateSwapChain staleEnv (afterAcquire staleEnv exampleRenderer)"
    and quietly: "emitting (\<lambda>c. \<not> drawsOrPresents c) exampleRenderer
       (drawFrame staleEnv exampleRenderer)"
    by blast+
  have undrawn: "list_all (\<lambda>c. \<not> drawsOrPresents c) (callsSince exampleRenderer s1)"
    using quietly unfolding stale by (simp add: emits_def)
  from stale_acquire_skips_frame [OF running formed(2)] always(2)
  have acquired: "\<forall>s1. currentFrame s1 < length (imageAvailableSemaphores s1) \<longrightarrow>
       acquireNextImage suboptimalEnv s1 =
         Inr (Some (vkImageIndexAt suboptimalEnv (length (calls s1))),
              s1\<lparr>calls := calls s1 @
                [vkAcquireNextImageKHR (imageAvailableSemaphores s1 ! currentFrame s1)]\<rparr>)"
    and same: "drawFrame suboptimalEnv exampleRenderer =
       drawFrame (asSuccess suboptimalEnv) exampleRenderer"
    and drawn: "mentions presents exampleRenderer (drawFrame suboptimalEnv exampleRenderer)"
    by blast+
  from drawn have presented: "\<exists>c \<in> set (callsSince exampleRenderer s2). presents c"
    by (simp add: suboptimal mentions_def)
  from acquired slot
  have "acquireNextImage suboptimalEnv exampleRenderer =
      Inr (Some (vkImageIndexAt suboptimalEnv (length (calls exampleRenderer))),
           exampleRenderer\<lparr>calls := calls exampleRenderer @
             [vkAcquireNextImageKHR
                (imageAvailableSemaphores exampleRenderer ! currentFrame exampleRenderer)]\<rparr>)"
    by blast
  also have "vkImageIndexAt suboptimalEnv (length (calls exampleRenderer)) = 0"
    by (simp add: examples)
  also have "calls exampleRenderer @
      [vkAcquireNextImageKHR
         (imageAvailableSemaphores exampleRenderer ! currentFrame exampleRenderer)] =
      [vkAcquireNextImageKHR 1]"
    by (simp add: exampleRenderer_def)
  finally have image: "acquireNextImage suboptimalEnv exampleRenderer =
      Inr (Some 0, exampleRenderer\<lparr>calls := [vkAcquireNextImageKHR 1]\<rparr>)" .
  have after: "stateAfter (drawFrame staleEnv exampleRenderer) = s1"
    "stateAfter (drawFrame suboptimalEnv exampleRenderer) = s2"
    "returned (drawFrame staleEnv exampleRenderer)"
    "returned (drawFrame suboptimalEnv exampleRenderer)"
    by (simp_all add: stale suboptimal stateAfter_def returned_def)
  show ?thesis
    unfolding after(1,2)
    by (intro conjI running formed always slot skipped undrawn image same presented after(3,4))
qed

text \<open>
  The claim as stated fails for a suboptimal acquisition: the frame is not skipped. It
  records command buffer 8, submits it with the fence of the slot and presents image 0, and
  swapchain recreation is not started.
\<close>

theorem suboptimal_acquire_is_drawn:
  "vkAcquireResultAt suboptimalEnv 1 = VK_SUBOPTIMAL_KHR \<and>
   returned (drawFrame suboptimalEnv exampleRenderer) \<and>
   calls (stateAfter (drawFrame suboptimalEnv exampleRenderer)) ! 1 = vkAcquireNextImageKHR 2 \<and>
   filter drawsOrPresents (calls (stateAfter (drawFrame suboptimalEnv exampleRenderer))) =
     [vkBeginCommandBuffer 8, vkQueueSubmit 8 (Some 6), vkQueuePresentKHR 0] \<and>
   vkCall ''handleMinimization'' [] \<notin> set (calls (stateAfter (drawFrame suboptimalEnv exampleRenderer)))"
  by (simp add: evaluate examples Let_def returned_def stateAfter_def drawsOrPresents_def)

section \<open>The drain of the import queue\<close>

text \<open>
  C4. \<open>processLoadedMeshes\<close> unlocks its \<open>std::unique_lock\<close> in every iteration of
  the drain loop and never locks it again. With two or more meshes on the queue the second
  \<open>lock.unlock()\<close> is on a lock that does not own the mutex and throws
  \<open>std::system_error\<close>: the first mesh has been registered and given a render instance,
  the second has been popped and is lost, the rest stay queued, and no offset is assigned,
  no buffer built and no descriptor set rebuilt.
\<close>

theorem second_unlock_stops_the_drain:
  assumes "modelQueue s = first # second # rest"
  shows "stoppedWith (processLoadedMeshes env s) = Some (SystemError ''operation not permitted'') \<and>
         modelQueue (stateAfter (processLoadedMeshes env s)) = rest \<and>
         storage (stateAfter (processLoadedMeshes env s)) =
           addNewMesh env (fst first) (snd first) (storage s) \<and>
         models (stateAfter (processLoadedMeshes env s)) =
           models s @ [\<lparr>mesh = snd first, transform = identity\<rparr>] \<and>
         calls (stateAfter (processLoadedMeshes env s)) =
           calls s @ [vkCall ''addNewMesh'' [snd first]] \<and>
         meshHeap (stateAfter (processLoadedMeshes env s)) = meshHeap s \<and>
         globalBuffers (stateAfter (processLoadedMeshes env s)) = globalBuffers s"
  using assms
  by (simp add: processLoadedMeshes_def andThen_def modify_def unique_lock_unlock_def
        vkVoid_def ret_def stop_def stoppedWith_def stateAfter_def)

theorem second_unlock_stops_the_drain_witness:
  "returned (run exampleEnv twoImports exampleRenderer) \<and>
   modelQueue (stateAfter (run exampleEnv twoImports exampleRenderer)) = [(''a'', 0), (''b'', 1)] \<and>
   meshHeap (stateAfter (run exampleEnv twoImports exampleRenderer)) = [exampleMesh1, exampleMesh2] \<and>
   stoppedWith (processLoadedMeshes exampleEnv (stateAfter (run exampleEnv twoImports exampleRenderer)))
     = Some (SystemError ''operation not permitted'') \<and>
   modelQueue (stateAfter (processLoadedMeshes exampleEnv
     (stateAfter (run exampleEnv twoImports exampleRenderer)))) = [] \<and>
   storage (stateAfter (processLoadedMeshes exampleEnv
     (stateAfter (run exampleEnv twoImports exampleRenderer)))) = [(''a'', 0)] \<and>
   map mesh (models (stateAfter (processLoadedMeshes exampleEnv
     (stateAfter (run exampleEnv twoImports exampleRenderer))))) = [0] \<and>
   map (\<lambda>meshPart. (vertexOffset meshPart, indexOffset meshPart))
     (concat (map meshParts (meshHeap (stateAfter (processLoadedMeshes exampleEnv
        (stateAfter (run exampleEnv twoImports exampleRenderer)))))))
     = [(0, 0), (0, 0), (0, 0), (0, 0), (0, 0)] \<and>
   globalBuffers (stateAfter (processLoadedMeshes exampleEnv
     (stateAfter (run exampleEnv twoImports exampleRenderer)))) =
     \<lparr>vertexBuffer = 0, vertexBufferMemory = 0, indexBuffer = 0, indexBufferMemory = 0,
      totalVertices = 0, totalIndices = 0\<rparr>"
proof -
  let ?s = "stateAfter (run exampleEnv twoImports exampleRenderer)"
  have imported: "run exampleEnv twoImports exampleRenderer =
      Inr ((), exampleRenderer\<lparr>meshHeap := [exampleMesh1, exampleMesh2],
                               modelQueue := [(''a'', 0), (''b'', 1)]\<rparr>)"
    by (simp add: run_def twoImports_def importMesh_def andThen_def modify_def ret_def
          exampleRenderer_def)
  have state: "?s = exampleRenderer\<lparr>meshHeap := [exampleMesh1, exampleMesh2],
                                    modelQueue := [(''a'', 0), (''b'', 1)]\<rparr>"
    by (simp add: imported stateAfter_def)
  have queue: "modelQueue ?s = (''a'', 0) # (''b'', 1) # []"
    by (simp add: state)
  note stopped = second_unlock_stops_the_drain [OF queue, of exampleEnv]
  have heap: "meshHeap ?s = [exampleMesh1, exampleMesh2]"
    and before: "storage ?s = []" "models ?s = []"
      "globalBuffers ?s = \<lparr>vertexBuffer = 0, vertexBufferMemory = 0, indexBuffer = 0,
         indexBufferMemory = 0, totalVertices = 0, totalIndices = 0\<rparr>"
    unfolding state by (simp_all add: exampleRenderer_def)
  have offsets: "map (\<lambda>meshPart. (vertexOffset meshPart, indexOffset meshPart))
      (concat (map meshParts [exampleMesh1, exampleMesh2])) = [(0, 0), (0, 0), (0, 0), (0, 0), (0, 0)]"
    by (simp add: exampleMesh1_def exampleMesh2_def examplePart_def)
  have came: "returned (run exampleEnv twoImports exampleRenderer)"
    by (simp add: imported returned_def)
  show ?thesis
    using stopped came queue heap before offsets
    by (simp add: exampleEnv_def)
qed

section \<open>Instance transforms\<close>

subsection \<open>What leaves the frame slots and the instance data alone\<close>

lemma keeps_Inr [simp]: "keeps field s (Inr (x, s')) \<longleftrightarrow> field s' = field s"
  by (simp add: keeps_def stateAfter_def)

lemma keeps_Inl [simp]: "keeps field s (Inl (e, s')) \<longleftrightarrow> field s' = field s"
  by (simp add: keeps_def stateAfter_def)

lemma keeps_ret [simp]: "keeps field s (ret x s)"
  by (simp add: ret_def)

lemma keeps_stop [simp]: "keeps field s (stop e s)"
  by (simp add: stop_def)

lemma keeps_ASSERT [simp]: "keeps field s (ASSERT c msg s)"
  by (simp add: ASSERT_def)

lemma keeps_at_index [simp]: "keeps field s (at_index xs i s)"
  by (simp add: at_index_def)

lemma keeps_modify: "(\<And>s. field (g s) = field s) \<Longrightarrow> keeps field s (modify g s)"
  by (simp add: modify_def)

lemma frameData_update [simp]:
  "frameData (s\<lparr>isRunning := v0\<rparr>) = frameData s"
  "frameData (s\<lparr>framebufferResized := v1\<rparr>) = frameData s"
  "frameData (s\<lparr>globalBuffers := v3\<rparr>) = frameData s"
  "frameData (s\<lparr>modelQueue := v4\<rparr>) = frameData s"
  "frameData (s\<lparr>models := v5\<rparr>) = frameData s"
  "frameData (s\<lparr>meshHeap := v6\<rparr>) = frameData s"
  "frameData (s\<lparr>storage := v7\<rparr>) = frameData s"
  "frameData (s\<lparr>imageAvailableSemaphores := v8\<rparr>) = frameData s"
  "frameData (s\<lparr>renderFinishedSemaphores := v9\<rparr>) = frameData s"
  "frameData (s\<lparr>inFlightFences := v10\<rparr>) = frameData s"
  "frameData (s\<lparr>commandBuffers := v11\<rparr>) = frameData s"
  "frameData (s\<lparr>globalUboBuffers := v12\<rparr>) = frameData s"
  "frameData (s\<lparr>instanceUboBuffers := v13\<rparr>) = frameData s"
  "frameData (s\<lparr>globalUboMapped := v14\<rparr>) = frameData s"
  "frameData (s\<lparr>threadCommandPools := v15\<rparr>) = frameData s"
  "frameData (s\<lparr>swapChainExtent := v16\<rparr>) = frameData s"
  "frameData (s\<lparr>memoryContents := v17\<rparr>) = frameData s"
  "frameData (s\<lparr>bufferBinding := v18\<rparr>) = frameData s"
  "frameData (s\<lparr>pendingCopies := v19\<rparr>) = frameData s"
  "frameData (s\<lparr>calls := v20\<rparr>) = frameData s"
  by (simp_all add: frameData_def)

lemma keeps_vkVoid [simp]: "keeps frameData s (vkVoid c s)"
  by (simp add: vkVoid_def frameData_def)

lemma keeps_vkResult [simp]: "keeps frameData s (vkResult env c s)"
  by (simp add: vkResult_def frameData_def)

lemma keeps_vkCreate [simp]: "keeps frameData s (vkCreate env c s)"
  by (simp add: vkCreate_def frameData_def)

lemma keeps_vkGetMemoryRequirements [simp]:
  "keeps frameData s (vkGetMemoryRequirements env c s)"
  by (simp add: vkGetMemoryRequirements_def frameData_def)

lemma keeps_andThen:
  assumes "keeps field s (m s)"
    and "\<And>x s1. keeps field s1 (f x s1)"
  shows "keeps field s (andThen m f s)"
proof (cases "m s")
  case (Inl stopped)
  obtain e s0 where "stopped = (e, s0)"
    by (cases stopped)
  then show ?thesis
    using assms(1) Inl by (simp add: andThen_def)
next
  case (Inr rv)
  obtain x s1 where rv: "rv = (x, s1)"
    by (cases rv)
  have "field s1 = field s"
    using assms(1) Inr rv by simp
  then have "keeps field s (f x s1)"
    using assms(2) [of s1 x] by (simp add: keeps_def)
  then show ?thesis
    using Inr rv by (simp add: andThen_def)
qed

lemma keeps_forEach:
  assumes "\<And>x s1. keeps field s1 (f x s1)"
  shows "keeps field s (forEach xs f s)"
proof (induction xs arbitrary: s)
  case Nil
  show ?case by simp
next
  case (Cons x xs)
  show ?case
    unfolding forEach.simps
    by (rule keeps_andThen) (simp_all add: assms Cons)
qed

lemmas keeps_intros = keeps_andThen keeps_forEach keeps_modify

lemma findMemoryType_keeps: "keeps frameData s (findMemoryType env typeFilter properties s)"
  unfolding findMemoryType_def
  by (intro keeps_intros allI impI conjI | simp split: prod.splits sum.splits option.splits)+


lemma createBuffer_keeps: "keeps frameData s (createBuffer env bufferSize usage properties s)"
  unfolding createBuffer_def vkBindBufferMemory_def
  by (intro keeps_intros findMemoryType_keeps allI impI conjI
      | simp split: prod.splits sum.splits option.splits)+

lemma deviceCopy_frameData: "frameData (deviceCopy src dst s) = frameData s"
  by (simp add: deviceCopy_def split: option.splits)

lemma runCopies_frameData: "frameData (runCopies commandBuffer cs s) = frameData s"
  by (induction cs arbitrary: s) (simp_all add: deviceCopy_frameData)

lemma getCommandPool_keeps: "keeps frameData s (getCommandPool env s)"
  unfolding getCommandPool_def createCommandPool_def
  by (intro keeps_intros allI impI conjI
      | simp split: prod.splits sum.splits option.splits)+

lemma threadSafeQueueSubmit_keeps:
  "keeps frameData s (threadSafeQueueSubmit env commandBuffer fence s)"
proof -
  have "frameData ((runCopies commandBuffer cs s1)\<lparr>pendingCopies := ps\<rparr>) = frameData s1"
    for cs ps s1
    by (simp add: runCopies_frameData)
  then show ?thesis
    unfolding threadSafeQueueSubmit_def
    by (intro keeps_intros allI impI conjI
        | simp split: prod.splits sum.splits option.splits)+
qed

lemma beginSingleTimeCommands_keeps: "keeps frameData s (beginSingleTimeCommands env s)"
  unfolding beginSingleTimeCommands_def
  by (intro keeps_intros getCommandPool_keeps allI impI conjI
      | simp split: prod.splits sum.splits option.splits)+

lemma endSingleTimeCommands_keeps:
  "keeps frameData s (endSingleTimeCommands env commandBuffer s)"
  unfolding endSingleTimeCommands_def
  by (intro keeps_intros getCommandPool_keeps threadSafeQueueSubmit_keeps allI impI conjI
      | simp split: prod.splits sum.splits option.splits)+

lemma copyBuffer_keeps: "keeps frameData s (copyBuffer env src dst copySize s)"
  unfolding copyBuffer_def
  by (intro keeps_intros beginSingleTimeCommands_keeps endSingleTimeCommands_keeps
        allI impI conjI
      | simp split: prod.splits sum.splits option.splits)+

lemma instanceData_update [simp]:
  "instanceData (s\<lparr>isRunning := v0\<rparr>) = instanceData s"
  "instanceData (s\<lparr>framebufferResized := v1\<rparr>) = instanceData s"
  "instanceData (s\<lparr>frames := v2\<rparr>) = instanceData s"
  "instanceData (s\<lparr>globalBuffers := v3\<rparr>) = instanceData s"
  "instanceData (s\<lparr>modelQueue := v4\<rparr>) = instanceData s"
  "instanceData (s\<lparr>models := v5\<rparr>) = instanceData s"
  "instanceData (s\<lparr>meshHeap := v6\<rparr>) = instanceData s"
  "instanceData (s\<lparr>storage := v7\<rparr>) = instanceData s"
  "instanceData (s\<lparr>imageAvailableSemaphores := v8\<rparr>) = instanceData s"
  "instanceData (s\<lparr>renderFinishedSemaphores := v9\<rparr>) = instanceData s"
  "instanceData (s\<lparr>inFlightFences := v10\<rparr>) = instanceData s"
  "instanceData (s\<lparr>commandBuffers := v11\<rparr>) = instanceData s"
  "instanceData (s\<lparr>globalUboBuffers := v12\<rparr>) = instanceData s"
  "instanceData (s\<lparr>instanceUboBuffers := v13\<rparr>) = instanceData s"
  "instanceData (s\<lparr>globalUboMapped := v14\<rparr>) = instanceData s"
  "instanceData (s\<lparr>threadCommandPools := v15\<rparr>) = instanceData s"
  "instanceData (s\<lparr>swapChainExtent := v16\<rparr>) = instanceData s"
  "instanceData (s\<lparr>memoryContents := v17\<rparr>) = instanceData s"
  "instanceData (s\<lparr>bufferBinding := v18\<rparr>) = instanceData s"
  "instanceData (s\<lparr>pendingCopies := v19\<rparr>) = instanceData s"
  "instanceData (s\<lparr>calls := v20\<rparr>) = instanceData s"
  by (simp_all add: instanceData_def)

lemma keeps_instanceData: "keeps frameData s r \<Longrightarrow> keeps instanceData s r"
  by (simp add: keeps_def frameData_def instanceData_def)

lemmas keeps_instance_calls [simp] =
  keeps_vkVoid [THEN keeps_instanceData] keeps_vkResult [THEN keeps_instanceData]
  keeps_vkCreate [THEN keeps_instanceData] keeps_vkGetMemoryRequirements [THEN keeps_instanceData]

















lemma endsWith_andThen:
  assumes "\<And>x s1. m s = Inr (x, s1) \<Longrightarrow> endsWith R (f x s1)"
  shows "endsWith R (andThen m f s)"
proof (cases "m s")
  case (Inl stopped)
  then show ?thesis
    by (simp add: andThen_def endsWith_def)
next
  case (Inr rv)
  then show ?thesis
    using assms [of "fst rv" "snd rv"] by (cases rv) (simp add: andThen_def)
qed


lemma endsWith_then_keeps:
  assumes "\<And>x s1. m s = Inr (x, s1) \<Longrightarrow> field s1 = d"
    and "\<And>x s1. keeps field s1 (f x s1)"
  shows "endsWith (\<lambda>s'. field s' = d) (andThen m f s)"
proof (rule endsWith_andThen)
  fix x s1
  assume "m s = Inr (x, s1)"
  then have "field s1 = d"
    by (rule assms(1))
  with assms(2) [of s1 x] show "endsWith (\<lambda>s'. field s' = d) (f x s1)"
    by (cases "f x s1") (auto simp: endsWith_def keeps_def stateAfter_def)
qed



subsection \<open>Recording with other transforms\<close>

lemma onState_simps [simp]:
  "onState g (Inl (e, s)) = Inl (e, g s)"
  "onState g (Inr (x, s)) = Inr (x, g s)"
  by (simp_all add: onState_def)



lemma setModels_fields [simp]:
  "calls (setModels ms s) = calls s"
  "meshHeap (setModels ms s) = meshHeap s"
  "currentFrame (setModels ms s) = currentFrame s"
  "swapChainExtent (setModels ms s) = swapChainExtent s"
  "globalBuffers (setModels ms s) = globalBuffers s"
  "models (setModels ms s) = ms"
  "(setModels ms s)\<lparr>calls := cs\<rparr> = setModels ms (s\<lparr>calls := cs\<rparr>)"
  by (simp_all add: setModels_def)










lemma endsWith_mono: "endsWith R r \<Longrightarrow> (\<And>s'. R s' \<Longrightarrow> Q s') \<Longrightarrow> endsWith Q r"
  by (cases r) (auto simp: endsWith_def)



section \<open>Deferred destruction\<close>

lemma beginsWith_andThen:
  assumes "\<And>e. m s = Inl e \<Longrightarrow> beginsWith cs (Inl e)"
    and "\<And>x s1. m s = Inr (x, s1) \<Longrightarrow> beginsWith cs (f x s1)"
  shows "beginsWith cs (andThen m f s)"
proof (cases "m s")
  case (Inl e)
  with assms(1) [of e] show ?thesis
    by (simp add: andThen_def beginsWith_def stateAfter_def)
next
  case (Inr rv)
  with assms(2) [of "fst rv" "snd rv"] show ?thesis
    by (cases rv) (simp add: andThen_def)
qed

lemma beginsWith_emitting:
  assumes "calls s1 = cs" and "emitting Q s1 (andThen m f s1)"
  shows "beginsWith cs (andThen m f s1)"
proof -
  have "callsKept s1 (stateAfter (andThen m f s1))"
    using assms(2)
    by (cases "andThen m f s1") (auto simp: emitting_def emits_def stateAfter_def)
  then show ?thesis
    using assms(1) by (simp add: beginsWith_def callsKept_def)
qed

text \<open>
  A frame begins by destroying what is on the list of the slot after the one it draws on,
  and then waits on the fence of its own slot.
\<close>

lemma drawFrame_begins:
  assumes "isRunning s" and "wellFormed env s"
  shows "beginsWith
           (calls s @
            destroyCalls (buffersToDelete (frames s ! ((currentFrame s + 2) mod MAX_FRAMES_IN_FLIGHT env))) @
            [vkWaitForFences (inFlightFences s ! ((currentFrame s + 1) mod MAX_FRAMES_IN_FLIGHT env))])
           (drawFrame env s)"
proof -
  let ?N = "MAX_FRAMES_IN_FLIGHT env"
  have N: "0 < ?N" and lens: "length (frames s) = ?N" "length (inFlightFences s) = ?N"
    using assms(2) by (simp_all add: wellFormed_def)
  have slot: "(currentFrame s + 1) mod ?N < ?N" "((currentFrame s + 1) mod ?N + 1) mod ?N < ?N"
    using N by simp_all
  show ?thesis
    using assms(1) N unfolding drawFrame_def
    apply simp
    apply (rule beginsWith_andThen; clarsimp simp: modify_def)
    apply (rule beginsWith_andThen; clarsimp simp: cleanupFrameResources_result lens slot)
    apply (rule beginsWith_andThen; clarsimp simp: at_index_def ret_def stop_def lens slot)
    apply (rule beginsWith_andThen; clarsimp simp: vkVoid_def)
    apply (rule beginsWith_emitting [where Q = "\<lambda>c. True"])
     apply (simp add: mod_simps)
    apply (intro emitting_intros any_steps allI impI conjI
        | simp add: threadSafePresent_def split: prod.splits sum.splits option.splits)+
    done
qed

text \<open>
  Replacing a combined buffer puts the old buffer and its memory at the back of the list of
  the slot the frame draws on, and leaves the other lists as they are.
\<close>

lemma createVertexBuffer_queues:
  assumes "vertexBuffer (globalBuffers s) \<noteq> VK_NULL_HANDLE"
  shows "endsWith (\<lambda>s'. frameData s' =
           (currentFrame s,
            queued (currentFrame s) (vertexBuffer (globalBuffers s), vertexBufferMemory (globalBuffers s))
              (frames s),
            instanceUboMapped s))
         (createVertexBuffer env vertexList s)"
  unfolding createVertexBuffer_def
  apply (rule endsWith_then_keeps [where field = frameData])
   apply (use assms in \<open>auto simp: deferDestroy_def frameData_def queued_def split: if_splits\<close>)
  apply (intro keeps_intros createBuffer_keeps copyBuffer_keeps allI impI conjI
      | simp split: prod.splits sum.splits option.splits)+
  done

lemma createIndexBuffer_queues:
  assumes "indexBuffer (globalBuffers s) \<noteq> VK_NULL_HANDLE"
  shows "endsWith (\<lambda>s'. frameData s' =
           (currentFrame s,
            queued (currentFrame s) (indexBuffer (globalBuffers s), indexBufferMemory (globalBuffers s))
              (frames s),
            instanceUboMapped s))
         (createIndexBuffer env indexList s)"
  unfolding createIndexBuffer_def
  apply (rule endsWith_then_keeps [where field = frameData])
   apply (use assms in \<open>auto simp: deferDestroy_def frameData_def queued_def split: if_splits\<close>)
  apply (intro keeps_intros createBuffer_keeps copyBuffer_keeps allI impI conjI
      | simp split: prod.splits sum.splits option.splits)+
  done

text \<open>
  C1, as the code has it with two frames in flight. A frame that replaces a combined buffer
  queues the old one on the list of its own slot \<open>currentFrame\<close>. The next \<open>drawFrame\<close>
  advances to the other slot and drains slot \<open>(currentFrame + 1) mod 2\<close>, which is the
  slot of the frame before: its first calls destroy what that frame queued, one frame after
  it was queued and not two, and before the wait on any fence.
\<close>

theorem replaced_buffers_destroyed_a_frame_early:
  assumes "isRunning s" and "wellFormed env s"
    and "MAX_FRAMES_IN_FLIGHT env = 2" and "currentFrame s < 2"
  shows "(vertexBuffer (globalBuffers s) \<noteq> VK_NULL_HANDLE \<longrightarrow>
            endsWith (\<lambda>s'. currentFrame s' = currentFrame s \<and>
                frames s' = queued (currentFrame s)
                  (vertexBuffer (globalBuffers s), vertexBufferMemory (globalBuffers s)) (frames s))
              (createVertexBuffer env vertexList s)) \<and>
         (indexBuffer (globalBuffers s) \<noteq> VK_NULL_HANDLE \<longrightarrow>
            endsWith (\<lambda>s'. currentFrame s' = currentFrame s \<and>
                frames s' = queued (currentFrame s)
                  (indexBuffer (globalBuffers s), indexBufferMemory (globalBuffers s)) (frames s))
              (createIndexBuffer env indexList s)) \<and>
         beginsWith
           (calls s @ destroyCalls (buffersToDelete (frames s ! currentFrame s)) @
            [vkWaitForFences (inFlightFences s ! ((currentFrame s + 1) mod 2))])
           (drawFrame env s)"
proof (intro conjI impI)
  assume "vertexBuffer (globalBuffers s) \<noteq> VK_NULL_HANDLE"
  then show "endsWith (\<lambda>s'. currentFrame s' = currentFrame s \<and>
      frames s' = queued (currentFrame s)
        (vertexBuffer (globalBuffers s), vertexBufferMemory (globalBuffers s)) (frames s))
    (createVertexBuffer env vertexList s)"
    by (rule endsWith_mono [OF createVertexBuffer_queues]) (simp add: frameData_def)
next
  assume "indexBuffer (globalBuffers s) \<noteq> VK_NULL_HANDLE"
  then show "endsWith (\<lambda>s'. currentFrame s' = currentFrame s \<and>
      frames s' = queued (currentFrame s)
        (indexBuffer (globalBuffers s), indexBufferMemory (globalBuffers s)) (frames s))
    (createIndexBuffer env indexList s)"
    by (rule endsWith_mono [OF createIndexBuffer_queues]) (simp add: frameData_def)
next
  have "(currentFrame s + 2) mod 2 = currentFrame s"
    using assms(4) by simp
  with drawFrame_begins [OF assms(1,2)] assms(3)
  show "beginsWith
      (calls s @ destroyCalls (buffersToDelete (frames s ! currentFrame s)) @
       [vkWaitForFences (inFlightFences s ! ((currentFrame s + 1) mod 2))])
      (drawFrame env s)"
    by simp
qed

theorem replaced_buffers_destroyed_a_frame_early_witness:
  "isRunning exampleBuilt \<and> wellFormed exampleEnv exampleBuilt \<and>
   MAX_FRAMES_IN_FLIGHT exampleEnv = 2 \<and> currentFrame exampleBuilt < 2 \<and>
   vertexBuffer (globalBuffers exampleBuilt) \<noteq> VK_NULL_HANDLE \<and>
   indexBuffer (globalBuffers exampleBuilt) \<noteq> VK_NULL_HANDLE \<and>
   returned (createVertexBuffer exampleEnv [exampleVertex 0] exampleBuilt) \<and>
   frames (stateAfter (createVertexBuffer exampleEnv [exampleVertex 0] exampleBuilt)) =
     [\<lparr>buffersToDelete = [(50, 51)]\<rparr>, \<lparr>buffersToDelete = []\<rparr>] \<and>
   returned (createIndexBuffer exampleEnv [0] exampleBuilt) \<and>
   frames (stateAfter (createIndexBuffer exampleEnv [0] exampleBuilt)) =
     [\<lparr>buffersToDelete = [(52, 53)]\<rparr>, \<lparr>buffersToDelete = []\<rparr>] \<and>
   isRunning exampleReplaced \<and> wellFormed exampleEnv exampleReplaced \<and>
   currentFrame exampleReplaced < 2 \<and>
   buffersToDelete (frames exampleReplaced ! currentFrame exampleReplaced) = [(40, 41), (42, 43)] \<and>
   take 5 (calls (stateAfter (drawFrame exampleEnv exampleReplaced))) =
     [vkDestroyBuffer 40, vkFreeMemory 41, vkDestroyBuffer 42, vkFreeMemory 43, vkWaitForFences 6]"
proof -
  note built = exampleBuilt_def exampleReplaced_def exampleRenderer_def
  have N: "MAX_FRAMES_IN_FLIGHT exampleEnv = 2"
    by (simp add: exampleEnv_def)
  have running: "isRunning exampleBuilt" "isRunning exampleReplaced"
    by (simp_all add: built)
  have formed: "wellFormed exampleEnv exampleBuilt" "wellFormed exampleEnv exampleReplaced"
    by (simp_all add: wellFormed_def built exampleEnv_def)
  have slot: "currentFrame exampleBuilt < 2" "currentFrame exampleReplaced < 2"
    by (simp_all add: built)
  have buffers: "vertexBuffer (globalBuffers exampleBuilt) \<noteq> VK_NULL_HANDLE"
    "indexBuffer (globalBuffers exampleBuilt) \<noteq> VK_NULL_HANDLE"
    by (simp_all add: built VK_NULL_HANDLE_def)
  have lists: "currentFrame exampleBuilt = 0"
    "queued 0 (vertexBuffer (globalBuffers exampleBuilt), vertexBufferMemory (globalBuffers exampleBuilt))
       (frames exampleBuilt) = [\<lparr>buffersToDelete = [(50, 51)]\<rparr>, \<lparr>buffersToDelete = []\<rparr>]"
    "queued 0 (indexBuffer (globalBuffers exampleBuilt), indexBufferMemory (globalBuffers exampleBuilt))
       (frames exampleBuilt) = [\<lparr>buffersToDelete = [(52, 53)]\<rparr>, \<lparr>buffersToDelete = []\<rparr>]"
    by (simp_all add: built queued_def)
  have waiting: "buffersToDelete (frames exampleReplaced ! currentFrame exampleReplaced) =
      [(40, 41), (42, 43)]"
    by (simp add: built)
  have "\<exists>s'. createVertexBuffer exampleEnv [exampleVertex 0] exampleBuilt = Inr ((), s')"
    by (simp add: evaluate examples exampleBuilt_def Let_def)
  then obtain s1 where vertex: "createVertexBuffer exampleEnv [exampleVertex 0] exampleBuilt = Inr ((), s1)" ..
  have "\<exists>s'. createIndexBuffer exampleEnv [0] exampleBuilt = Inr ((), s')"
    by (simp add: evaluate examples exampleBuilt_def Let_def)
  then obtain s2 where index: "createIndexBuffer exampleEnv [0] exampleBuilt = Inr ((), s2)" ..
  note queue = replaced_buffers_destroyed_a_frame_early [OF running(1) formed(1) N slot(1),
      where vertexList = "[exampleVertex 0]" and indexList = "[0]"]
  from queue buffers(1)
  have "endsWith (\<lambda>s'. currentFrame s' = currentFrame exampleBuilt \<and>
      frames s' = queued (currentFrame exampleBuilt)
        (vertexBuffer (globalBuffers exampleBuilt), vertexBufferMemory (globalBuffers exampleBuilt))
        (frames exampleBuilt))
    (createVertexBuffer exampleEnv [exampleVertex 0] exampleBuilt)"
    by blast
  then have "frames s1 = [\<lparr>buffersToDelete = [(50, 51)]\<rparr>, \<lparr>buffersToDelete = []\<rparr>]"
    by (simp add: vertex endsWith_def lists)
  then have vertexQueued: "returned (createVertexBuffer exampleEnv [exampleVertex 0] exampleBuilt)"
    "frames (stateAfter (createVertexBuffer exampleEnv [exampleVertex 0] exampleBuilt)) =
       [\<lparr>buffersToDelete = [(50, 51)]\<rparr>, \<lparr>buffersToDelete = []\<rparr>]"
    by (simp_all add: vertex returned_def stateAfter_def)
  from queue buffers(2)
  have "endsWith (\<lambda>s'. currentFrame s' = currentFrame exampleBuilt \<and>
      frames s' = queued (currentFrame exampleBuilt)
        (indexBuffer (globalBuffers exampleBuilt), indexBufferMemory (globalBuffers exampleBuilt))
        (frames exampleBuilt))
    (createIndexBuffer exampleEnv [0] exampleBuilt)"
    by blast
  then have "frames s2 = [\<lparr>buffersToDelete = [(52, 53)]\<rparr>, \<lparr>buffersToDelete = []\<rparr>]"
    by (simp add: index endsWith_def lists)
  then have indexQueued: "returned (createIndexBuffer exampleEnv [0] exampleBuilt)"
    "frames (stateAfter (createIndexBuffer exampleEnv [0] exampleBuilt)) =
       [\<lparr>buffersToDelete = [(52, 53)]\<rparr>, \<lparr>buffersToDelete = []\<rparr>]"
    by (simp_all add: index returned_def stateAfter_def)
  from replaced_buffers_destroyed_a_frame_early [OF running(2) formed(2) N slot(2)]
  have begun: "beginsWith
      (calls exampleReplaced @
       destroyCalls (buffersToDelete (frames exampleReplaced ! currentFrame exampleReplaced)) @
       [vkWaitForFences (inFlightFences exampleReplaced ! ((currentFrame exampleReplaced + 1) mod 2))])
      (drawFrame exampleEnv exampleReplaced)"
    by blast
  have first: "calls exampleReplaced @
       destroyCalls (buffersToDelete (frames exampleReplaced ! currentFrame exampleReplaced)) @
       [vkWaitForFences (inFlightFences exampleReplaced ! ((currentFrame exampleReplaced + 1) mod 2))] =
     [vkDestroyBuffer 40, vkFreeMemory 41, vkDestroyBuffer 42, vkFreeMemory 43, vkWaitForFences 6]"
    by (simp add: built destroyCalls_def)
  have destroyed: "take 5 (calls (stateAfter (drawFrame exampleEnv exampleReplaced))) =
      [vkDestroyBuffer 40, vkFreeMemory 41, vkDestroyBuffer 42, vkFreeMemory 43, vkWaitForFences 6]"
    using begun unfolding first by (simp add: beginsWith_def eval_nat_numeral)
  show ?thesis
    by (intro conjI running formed N slot buffers vertexQueued indexQueued waiting destroyed)
qed

end
